(* ===== verification/Prelude.thy ===== *)
theory Prelude
  imports Main
begin

text \<open>
  Shared vocabulary of the development. JavaScript \<open>Date\<close> values are modelled as
  timestamps: integer milliseconds on a uniform local time line (\<open>timestamp\<close>).
  Pixel widths, day counts and offsets are JavaScript numbers that the code only ever
  combines into integers, so they are \<open>int\<close>. \<open>Math.floor (a / b)\<close> for a positive
  divisor is HOL's \<open>div\<close> on \<open>int\<close> (both round towards minus infinity), and
  \<open>Math.round (a / b)\<close> is \<open>(2 * a + b) div (2 * b)\<close> (JavaScript rounds halves up).
  This theory holds the lemmas on floor division and on lists the components share.
\<close>

type_synonym timestamp = int

named_theorems date_simps "equations that evaluate the modelled date-fns operations"
named_theorems layout_simps "equations that evaluate the grid layout of the timeline"

subsection \<open>Floor division\<close>

lemma div_lower_int: "0 < (b::int) \<Longrightarrow> a - b < b * (a div b)"
proof -
  assume b: "0 < b"
  have "b * (a div b) + a mod b = a" by simp
  moreover have "a mod b < b" using b by simp
  ultimately show ?thesis by linarith
qed

lemma div_upper_int: "0 < (b::int) \<Longrightarrow> b * (a div b) \<le> a"
proof -
  assume b: "0 < b"
  have "b * (a div b) + a mod b = a" by simp
  moreover have "0 \<le> a mod b" using b by simp
  ultimately show ?thesis by linarith
qed

lemma divmod_unique_int:
  "0 \<le> r \<Longrightarrow> r < (c::int) \<Longrightarrow> (c * q + r) div c = q \<and> (c * q + r) mod c = r"
  by simp

lemma div_succ_int:
  assumes c: "0 < (c::int)"
  shows "(x + 1) div c = x div c + (if (x + 1) mod c = 0 then 1 else 0)"
proof -
  have x: "x + 1 = c * (x div c) + (x mod c + 1)" by simp
  have r: "0 \<le> x mod c" "x mod c < c" using c by simp_all
  show ?thesis
  proof (cases "x mod c + 1 = c")
    case True
    then have "x + 1 = c * (x div c + 1) + 0" using x by (simp add: algebra_simps)
    then show ?thesis using divmod_unique_int[of 0 c "x div c + 1"] c by simp
  next
    case False
    with r have "x mod c + 1 < c" by simp
    then show ?thesis using x r divmod_unique_int[of "x mod c + 1" c "x div c"] by simp
  qed
qed

lemma div_mono_int: "0 < (c::int) \<Longrightarrow> a \<le> b \<Longrightarrow> a div c \<le> b div c"
  by (simp add: zdiv_mono1)

subsection \<open>Sequences of boundaries\<close>

text \<open>A point between the first and the last of \<open>n + 1\<close> boundaries lies in one of the
  \<open>n\<close> slots between consecutive boundaries.\<close>

lemma boundary_slot:
  fixes f :: "nat \<Rightarrow> 'a::linorder"
  shows "f 0 \<le> x \<Longrightarrow> x < f n \<Longrightarrow> \<exists>i<n. f i \<le> x \<and> x < f (Suc i)"
proof (induction n)
  case 0
  then show ?case by simp
next
  case (Suc n)
  show ?case
  proof (cases "x < f n")
    case True
    with Suc.IH Suc.prems(1) obtain i where "i < n" "f i \<le> x" "x < f (Suc i)" by blast
    then show ?thesis by (intro exI[of _ i]) simp
  next
    case False
    with Suc.prems(2) show ?thesis by (intro exI[of _ n]) simp
  qed
qed

lemma sum_list_map_upt_telescope:
  fixes f :: "nat \<Rightarrow> int"
  shows "sum_list (map (\<lambda>i. f (Suc i) - f i) [0..<n]) = f n - f 0"
  by (induction n) simp_all

end
