(* ===== verification/Calendar.thy ===== *)
theory Calendar
  imports Prelude
begin

text \<open>
  The date library the timeline calls (date-fns: \<open>addDays\<close>,
  \<open>differenceInCalendarDays\<close>, \<open>startOfMonth\<close>, \<open>addMonths\<close>, \<open>format\<close>) and
  JavaScript's \<open>new Date()\<close>, modelled on a proleptic Gregorian calendar over a uniform
  local time line: a timestamp is milliseconds, a day is \<open>ms_per_day\<close> milliseconds
  (no daylight-saving shifts), day 0 is 1970-01-01. A month is identified by its
  index \<open>12 * year + (month - 1)\<close>. The theory proves the bracket facts the grid
  needs: every day lies between the first day of its month and the first day of the
  next, consecutive month starts are \<open>days_in_month\<close> apart, and \<open>addMonths\<close> by
  one from the first of a month is the first of the next month.
\<close>

subsection \<open>Days and milliseconds\<close>

definition ms_per_day :: int where
  "ms_per_day = 86400000"

definition day_of :: "timestamp \<Rightarrow> int" where
  "day_of t = t div ms_per_day"

definition time_of_day :: "timestamp \<Rightarrow> int" where
  "time_of_day t = t mod ms_per_day"

definition add_days :: "timestamp \<Rightarrow> int \<Rightarrow> timestamp" where
  "add_days t n = t + n * ms_per_day"

definition difference_in_calendar_days :: "timestamp \<Rightarrow> timestamp \<Rightarrow> int" where
  "difference_in_calendar_days later earlier = day_of later - day_of earlier"

subsection \<open>Years and months\<close>

definition is_leap :: "int \<Rightarrow> bool" where
  "is_leap y \<longleftrightarrow> y mod 4 = 0 \<and> (y mod 100 \<noteq> 0 \<or> y mod 400 = 0)"

definition days_in_month :: "int \<Rightarrow> int \<Rightarrow> int" where
  "days_in_month y m =
     (if m = 2 then (if is_leap y then 29 else 28)
      else if m = 4 \<or> m = 6 \<or> m = 9 \<or> m = 11 then 30 else 31)"

definition leaps_before :: "int \<Rightarrow> int" where
  "leaps_before y = (y + 3) div 4 - (y + 99) div 100 + (y + 399) div 400"

text \<open>Day number of January 1st of year \<open>y\<close> (1970 gives 0).\<close>

definition year_start :: "int \<Rightarrow> int" where
  "year_start y = 365 * y + leaps_before y - 719528"

text \<open>Number of days in the first \<open>k\<close> months of year \<open>y\<close>.\<close>

fun days_before_month :: "int \<Rightarrow> nat \<Rightarrow> int" where
  "days_before_month y 0 = 0"
| "days_before_month y (Suc k) = days_before_month y k + days_in_month y (int (Suc k))"

text \<open>
  The year of a day: an estimate from the mean year length (400 years are 146097 days),
  corrected by one in either direction.
\<close>

definition year_of_day :: "int \<Rightarrow> int" where
  "year_of_day d =
     (let e = (400 * (d + 719528)) div 146097
      in if year_start (e + 1) \<le> d then e + 1 else if year_start e \<le> d then e else e - 1)"

text \<open>The month (1 to \<open>k\<close>) into which day \<open>doy\<close> of year \<open>y\<close> falls, searching down from \<open>k\<close>.\<close>

fun month_search :: "int \<Rightarrow> int \<Rightarrow> nat \<Rightarrow> nat" where
  "month_search y doy 0 = 1"
| "month_search y doy (Suc k) =
     (if k = 0 \<or> days_before_month y k \<le> doy then Suc k else month_search y doy k)"

definition month_index_of_day :: "int \<Rightarrow> int" where
  "month_index_of_day d =
     (let y = year_of_day d in 12 * y + int (month_search y (d - year_start y) 12) - 1)"

definition month_start :: "int \<Rightarrow> int" where
  "month_start mi = year_start (mi div 12) + days_before_month (mi div 12) (nat (mi mod 12))"

definition month_length :: "int \<Rightarrow> int" where
  "month_length mi = days_in_month (mi div 12) (mi mod 12 + 1)"

definition day_of_month :: "int \<Rightarrow> int" where
  "day_of_month d = d - month_start (month_index_of_day d) + 1"

subsection \<open>The date-fns operations\<close>

definition start_of_month :: "timestamp \<Rightarrow> timestamp" where
  "start_of_month t = month_start (month_index_of_day (day_of t)) * ms_per_day"

definition add_months :: "timestamp \<Rightarrow> int \<Rightarrow> timestamp" where
  "add_months t n =
     (let d = day_of t; mi = month_index_of_day d + n;
          dd = min (day_of_month d) (month_length mi)
      in (month_start mi + dd - 1) * ms_per_day + time_of_day t)"

subsection \<open>format\<close>

text \<open>
  The three patterns the timeline formats with: \<open>"MMMM yyyy"\<close> (month labels),
  \<open>"MMM yyyy"\<close> (month header cells) and \<open>"MMM d"\<close> (the date column of a row).
  \<open>yyyy\<close> is the year of the era (\<open>1 - y\<close> for years before 1), zero-padded to four
  digits; \<open>d\<close> is the day of the month without padding.
\<close>

definition month_names :: "string list" where
  "month_names = [''January'', ''February'', ''March'', ''April'', ''May'', ''June'', ''July'',
                  ''August'', ''September'', ''October'', ''November'', ''December'']"

definition month_abbrevs :: "string list" where
  "month_abbrevs = [''Jan'', ''Feb'', ''Mar'', ''Apr'', ''May'', ''Jun'', ''Jul'', ''Aug'',
                    ''Sep'', ''Oct'', ''Nov'', ''Dec'']"

fun decimal :: "nat \<Rightarrow> string" where
  "decimal n = (if n < 10 then [char_of (48 + n)] else decimal (n div 10) @ [char_of (48 + n mod 10)])"

definition pad_zeros :: "nat \<Rightarrow> string \<Rightarrow> string" where
  "pad_zeros w s = replicate (w - length s) (CHR ''0'') @ s"

definition year_token :: "timestamp \<Rightarrow> string" where
  "year_token t =
     (let y = month_index_of_day (day_of t) div 12
      in pad_zeros 4 (decimal (nat (if 0 < y then y else 1 - y))))"

definition format_MMMM_yyyy :: "timestamp \<Rightarrow> string" where
  "format_MMMM_yyyy t =
     month_names ! nat (month_index_of_day (day_of t) mod 12) @ '' '' @ year_token t"

definition format_MMM_yyyy :: "timestamp \<Rightarrow> string" where
  "format_MMM_yyyy t =
     month_abbrevs ! nat (month_index_of_day (day_of t) mod 12) @ '' '' @ year_token t"

definition format_MMM_d :: "timestamp \<Rightarrow> string" where
  "format_MMM_d t =
     month_abbrevs ! nat (month_index_of_day (day_of t) mod 12) @ '' ''
       @ decimal (nat (day_of_month (day_of t)))"

subsection \<open>Years\<close>

lemma leaps_before_succ: "leaps_before (y + 1) = leaps_before y + (if is_leap y then 1 else 0)"
proof -
  have a: "(y + 1 + 3) div 4 = (y + 3) div 4 + (if y mod 4 = 0 then 1 else 0)"
    using div_succ_int[of 4 "y + 3"] by (simp add: add.commute add.left_commute)
  have b: "(y + 1 + 99) div 100 = (y + 99) div 100 + (if y mod 100 = 0 then 1 else 0)"
    using div_succ_int[of 100 "y + 99"] by (simp add: add.commute add.left_commute)
  have c: "(y + 1 + 399) div 400 = (y + 399) div 400 + (if y mod 400 = 0 then 1 else 0)"
    using div_succ_int[of 400 "y + 399"] by (simp add: add.commute add.left_commute)
  have d1: "y mod 400 = 0 \<Longrightarrow> y mod 100 = 0"
  proof -
    have "y mod 400 mod 100 = y mod 100" by (rule mod_mod_cancel) simp
    then show "y mod 400 = 0 \<Longrightarrow> y mod 100 = 0" by simp
  qed
  have d2: "y mod 100 = 0 \<Longrightarrow> y mod 4 = 0"
  proof -
    have "y mod 100 mod 4 = y mod 4" by (rule mod_mod_cancel) simp
    then show "y mod 100 = 0 \<Longrightarrow> y mod 4 = 0" by simp
  qed
  show ?thesis
    unfolding leaps_before_def is_leap_def a b c using d1 d2
    by (cases "y mod 4 = 0"; cases "y mod 100 = 0"; cases "y mod 400 = 0") simp_all
qed

lemma year_start_succ: "year_start (y + 1) = year_start y + 365 + (if is_leap y then 1 else 0)"
  unfolding year_start_def leaps_before_succ by (simp add: algebra_simps)

lemma year_start_bounds:
  "146097 * y - 287811596 \<le> 400 * year_start y \<and> 400 * year_start y \<le> 146097 * y - 287810501"
proof -
  have a: "y + 3 - 4 < 4 * ((y + 3) div 4)" "4 * ((y + 3) div 4) \<le> y + 3"
    using div_lower_int[of 4 "y + 3"] div_upper_int[of 4 "y + 3"] by simp_all
  have b: "y + 99 - 100 < 100 * ((y + 99) div 100)" "100 * ((y + 99) div 100) \<le> y + 99"
    using div_lower_int[of 100 "y + 99"] div_upper_int[of 100 "y + 99"] by simp_all
  have c: "y + 399 - 400 < 400 * ((y + 399) div 400)" "400 * ((y + 399) div 400) \<le> y + 399"
    using div_lower_int[of 400 "y + 399"] div_upper_int[of 400 "y + 399"] by simp_all
  have e: "400 * year_start y = 146000 * y + 400 * ((y + 3) div 4)
             - 400 * ((y + 99) div 100) + 400 * ((y + 399) div 400) - 287811200"
    by (simp add: year_start_def leaps_before_def algebra_simps)
  from a b c e show ?thesis by linarith
qed

lemma year_of_day_bracket:
  "year_start (year_of_day d) \<le> d \<and> d < year_start (year_of_day d + 1)"
proof -
  define e where "e = (400 * (d + 719528)) div 146097"
  have e0: "146097 * e \<le> 400 * (d + 719528)" "400 * (d + 719528) - 146097 < 146097 * e"
    unfolding e_def using div_upper_int[of 146097] div_lower_int[of 146097] by simp_all
  have e1: "146097 * e \<le> 400 * d + 287811200" "400 * d + 287811200 - 146097 < 146097 * e"
    using e0 by (simp_all add: algebra_simps)
  have b1: "400 * year_start (e - 1) \<le> 146097 * e - 287956598"
    using year_start_bounds[of "e - 1"] by (simp add: algebra_simps)
  have b2: "146097 * e - 287519402 \<le> 400 * year_start (e + 1 + 1)"
    using year_start_bounds[of "e + 1 + 1"] by (simp add: algebra_simps)
  have lo: "year_start (e - 1) \<le> d"
    using b1 e1 by linarith
  have hi: "d < year_start (e + 1 + 1)"
    using b2 e1 by linarith
  show ?thesis
    unfolding year_of_day_def Let_def e_def[symmetric] using lo hi by auto
qed

subsection \<open>Months within a year\<close>

lemma days_in_month_pos: "28 \<le> days_in_month y m"
  by (simp add: days_in_month_def)

lemma days_before_month_12: "days_before_month y 12 = 365 + (if is_leap y then 1 else 0)"
  by (simp add: numeral_eq_Suc days_in_month_def)

lemma days_before_month_strict_mono:
  "k < k' \<Longrightarrow> days_before_month y k < days_before_month y k'"
proof (induction k')
  case 0
  then show ?case by simp
next
  case (Suc k')
  have "days_before_month y k' < days_before_month y (Suc k')"
    using days_in_month_pos[of y "int (Suc k')"] by simp
  with Suc show ?case by (cases "k = k'") auto
qed

lemma month_search_bracket:
  "0 \<le> doy \<Longrightarrow> doy < days_before_month y k \<Longrightarrow> 0 < k \<Longrightarrow>
   1 \<le> month_search y doy k \<and> month_search y doy k \<le> k \<and>
   days_before_month y (month_search y doy k - 1) \<le> doy \<and>
   doy < days_before_month y (month_search y doy k)"
proof (induction k)
  case 0
  then show ?case by simp
next
  case (Suc k)
  show ?case
  proof (cases "k = 0 \<or> days_before_month y k \<le> doy")
    case True
    with Suc.prems show ?thesis by auto
  next
    case False
    with Suc.IH Suc.prems(1) have "1 \<le> month_search y doy k \<and> month_search y doy k \<le> k \<and>
      days_before_month y (month_search y doy k - 1) \<le> doy \<and>
      doy < days_before_month y (month_search y doy k)" by simp
    with False show ?thesis by simp
  qed
qed

subsection \<open>Month indices\<close>

lemma mod12_succ:
  "(mi + 1) mod 12 = (if mi mod 12 = 11 then 0 else mi mod 12 + 1) \<and>
   (mi + 1) div 12 = (if mi mod 12 = 11 then mi div 12 + 1 else mi div (12::int))"
proof -
  have m: "(mi + 1) mod 12 = (mi mod 12 + 1) mod 12" by (simp add: mod_add_left_eq)
  have r: "0 \<le> mi mod 12" "mi mod 12 < 12" by simp_all
  have mod: "(mi + 1) mod 12 = (if mi mod 12 = 11 then 0 else mi mod 12 + 1)"
    using m r by auto
  moreover have "(mi + 1) div 12 = (if mi mod 12 = 11 then mi div 12 + 1 else mi div 12)"
    using div_succ_int[of 12 mi] mod r by auto
  ultimately show ?thesis by blast
qed

lemma month_start_succ: "month_start (mi + 1) = month_start mi + month_length mi"
proof (cases "mi mod 12 = 11")
  case True
  then have "month_start (mi + 1) = year_start (mi div 12 + 1)"
    using mod12_succ[of mi] by (simp add: month_start_def)
  also have "\<dots> = year_start (mi div 12) + days_before_month (mi div 12) 12"
    by (simp add: year_start_succ days_before_month_12)
  also have "\<dots> = month_start mi + month_length mi"
    using True by (simp add: month_start_def month_length_def numeral_eq_Suc)
  finally show ?thesis .
next
  case False
  define q where "q = mi div 12"
  define r where "r = mi mod 12"
  have r0: "0 \<le> r" by (simp add: r_def)
  have qr: "(mi + 1) div 12 = q" "(mi + 1) mod 12 = r + 1"
    using False mod12_succ[of mi] by (simp_all add: q_def r_def)
  have n: "nat (r + 1) = Suc (nat r)" "int (Suc (nat r)) = r + 1" using r0 by simp_all
  have "month_start (mi + 1) = year_start q + days_before_month q (Suc (nat r))"
    unfolding month_start_def qr n(1) ..
  also have "\<dots> = month_start mi + month_length mi"
    unfolding days_before_month.simps n(2) by (simp add: month_start_def month_length_def q_def r_def)
  finally show ?thesis .
qed

lemma month_length_pos: "28 \<le> month_length mi"
  by (simp add: month_length_def days_in_month_pos)

lemma month_start_grows: "month_start mi + 28 * int k \<le> month_start (mi + int k)"
proof (induction k)
  case 0
  then show ?case by simp
next
  case (Suc k)
  have "month_start (mi + int (Suc k)) = month_start (mi + int k + 1)"
    by (simp only: Suc_eq_plus1 of_nat_add of_nat_1 add.assoc)
  also have "\<dots> = month_start (mi + int k) + month_length (mi + int k)"
    by (rule month_start_succ)
  finally have "month_start (mi + int (Suc k)) = month_start (mi + int k) + month_length (mi + int k)" .
  with Suc month_length_pos[of "mi + int k"] show ?case by simp
qed

lemma month_start_before: "a < b \<Longrightarrow> month_start (a + 1) \<le> month_start b"
proof -
  assume "a < b"
  then obtain k where b: "b = (a + 1) + int k"
    by (metis add.commute add.left_commute zle_iff_zadd zless_imp_add1_zle)
  show ?thesis
    using month_start_grows[of "a + 1" k] unfolding b by simp
qed

lemma month_start_strict_mono: "a < b \<Longrightarrow> month_start a < month_start b"
  using month_start_before[of a b] month_start_succ[of a] month_length_pos[of a] by simp

lemma month_index_bracket:
  "month_start (month_index_of_day d) \<le> d \<and> d < month_start (month_index_of_day d + 1)"
proof -
  define y where "y = year_of_day d"
  define m where "m = month_search y (d - year_start y) 12"
  have yb: "year_start y \<le> d" "d < year_start y + days_before_month y 12"
    using year_of_day_bracket[of d] year_start_succ[of y]
    by (simp_all add: y_def days_before_month_12)
  have mb: "1 \<le> m \<and> m \<le> 12 \<and> days_before_month y (m - 1) \<le> d - year_start y \<and>
            d - year_start y < days_before_month y m"
    unfolding m_def using month_search_bracket[of "d - year_start y" y 12] yb by simp
  have mid: "month_index_of_day d = 12 * y + (int m - 1)"
    by (simp add: month_index_of_day_def y_def m_def Let_def)
  have dm: "month_index_of_day d div 12 = y \<and> month_index_of_day d mod 12 = int m - 1"
    unfolding mid using divmod_unique_int[of "int m - 1" 12 y] mb by simp
  have ms: "month_start (month_index_of_day d) = year_start y + days_before_month y (m - 1)"
    using dm mb by (simp add: month_start_def nat_diff_distrib)
  have ml: "month_length (month_index_of_day d) = days_in_month y (int m)"
    using dm by (simp add: month_length_def)
  have suc: "days_before_month y m = days_before_month y (m - 1) + days_in_month y (int m)"
    using mb days_before_month.simps(2)[of y "m - 1"] by simp
  show ?thesis
    using ms ml suc mb month_start_succ[of "month_index_of_day d"] by simp
qed

lemma month_index_unique:
  assumes "month_start a \<le> d" and "d < month_start (a + 1)"
  shows "month_index_of_day d = a"
proof (rule ccontr)
  let ?b = "month_index_of_day d"
  assume ne: "?b \<noteq> a"
  have b: "month_start ?b \<le> d" "d < month_start (?b + 1)"
    using month_index_bracket[of d] by simp_all
  show False
  proof (cases "a < ?b")
    case True
    then show False using month_start_before[of a ?b] assms b by simp
  next
    case False
    with ne have "?b < a" by simp
    then show False using month_start_before[of ?b a] assms b by simp
  qed
qed

lemma month_index_of_month_start [date_simps]: "month_index_of_day (month_start mi) = mi"
  using month_index_unique[of mi "month_start mi"] month_start_succ[of mi] month_length_pos[of mi]
  by simp

lemma day_of_month_month_start [date_simps]: "day_of_month (month_start mi) = 1"
  by (simp add: day_of_month_def month_index_of_month_start)

lemma day_of_month_bounds:
  "1 \<le> day_of_month d \<and> day_of_month d \<le> month_length (month_index_of_day d)"
  using month_index_bracket[of d] month_start_succ[of "month_index_of_day d"]
  by (simp add: day_of_month_def)

subsection \<open>Timestamps\<close>

lemma ms_per_day_pos: "0 < ms_per_day"
  by (simp add: ms_per_day_def)

lemma day_of_split [date_simps]:
  "0 \<le> r \<Longrightarrow> r < ms_per_day \<Longrightarrow> day_of (x * ms_per_day + r) = x"
  using divmod_unique_int[of r ms_per_day x] by (simp add: day_of_def mult.commute)

lemma time_of_day_split [date_simps]:
  "0 \<le> r \<Longrightarrow> r < ms_per_day \<Longrightarrow> time_of_day (x * ms_per_day + r) = r"
  using divmod_unique_int[of r ms_per_day x] by (simp add: time_of_day_def mult.commute)

lemma day_of_days [date_simps]: "day_of (x * ms_per_day) = x"
  using day_of_split[of 0 x] ms_per_day_pos by simp

lemma time_of_day_days [date_simps]: "time_of_day (x * ms_per_day) = 0"
  using time_of_day_split[of 0 x] ms_per_day_pos by simp

lemma time_of_day_bounds: "0 \<le> time_of_day t \<and> time_of_day t < ms_per_day"
  using ms_per_day_pos by (simp add: time_of_day_def)

lemma timestamp_split: "t = day_of t * ms_per_day + time_of_day t"
  by (simp add: day_of_def time_of_day_def)

lemma day_of_add_days [date_simps]: "day_of (add_days t n) = day_of t + n"
  by (simp add: add_days_def day_of_def ms_per_day_def)

lemma time_of_day_add_days [date_simps]: "time_of_day (add_days t n) = time_of_day t"
  by (simp add: add_days_def time_of_day_def ms_per_day_def)

lemma day_of_mono: "s \<le> t \<Longrightarrow> day_of s \<le> day_of t"
  by (simp add: day_of_def div_mono_int ms_per_day_def)

lemma day_of_less_imp_less: "day_of s < day_of t \<Longrightarrow> s < t"
  using day_of_mono[of t s] by linarith

subsection \<open>startOfMonth and addMonths\<close>

lemma start_of_month_le: "start_of_month t \<le> t"
proof -
  have "month_start (month_index_of_day (day_of t)) \<le> day_of t"
    using month_index_bracket by simp
  then have "month_start (month_index_of_day (day_of t)) * ms_per_day \<le> day_of t * ms_per_day"
    using ms_per_day_pos by simp
  then show ?thesis
    unfolding start_of_month_def using timestamp_split[of t] time_of_day_bounds[of t] by linarith
qed

lemma start_of_month_next: "t < month_start (month_index_of_day (day_of t) + 1) * ms_per_day"
proof -
  have "day_of t + 1 \<le> month_start (month_index_of_day (day_of t) + 1)"
    using month_index_bracket[of "day_of t"] by simp
  then have "(day_of t + 1) * ms_per_day \<le> month_start (month_index_of_day (day_of t) + 1) * ms_per_day"
    using ms_per_day_pos by simp
  moreover have "(day_of t + 1) * ms_per_day = day_of t * ms_per_day + ms_per_day"
    by (simp add: algebra_simps)
  ultimately show ?thesis
    using timestamp_split[of t] time_of_day_bounds[of t] by linarith
qed

lemma add_months_month_start [date_simps]:
  "add_months (month_start mi * ms_per_day) 1 = month_start (mi + 1) * ms_per_day"
  using month_length_pos[of "mi + 1"]
  by (simp add: add_months_def Let_def date_simps)

lemma days_le_iff: "x * ms_per_day \<le> t \<longleftrightarrow> x \<le> day_of t"
proof
  assume "x * ms_per_day \<le> t"
  then show "x \<le> day_of t" using day_of_mono[of "x * ms_per_day" t] by (simp add: day_of_days)
next
  assume "x \<le> day_of t"
  then have "x * ms_per_day \<le> day_of t * ms_per_day" using ms_per_day_pos by simp
  then show "x * ms_per_day \<le> t" using timestamp_split[of t] time_of_day_bounds[of t] by linarith
qed

lemma month_start_le_iff: "month_start mi \<le> d \<longleftrightarrow> mi \<le> month_index_of_day d"
proof
  assume a: "month_start mi \<le> d"
  show "mi \<le> month_index_of_day d"
  proof (rule ccontr)
    assume "\<not> mi \<le> month_index_of_day d"
    then have "month_start (month_index_of_day d + 1) \<le> month_start mi"
      using month_start_before[of "month_index_of_day d" mi] by simp
    then show False using a month_index_bracket[of d] by simp
  qed
next
  assume "mi \<le> month_index_of_day d"
  then have "month_start mi \<le> month_start (month_index_of_day d)"
    using month_start_strict_mono[of mi "month_index_of_day d"] by (cases "mi = month_index_of_day d") auto
  then show "month_start mi \<le> d" using month_index_bracket[of d] by simp
qed

lemma add_months_later: "t < add_months t 1"
proof -
  let ?mi = "month_index_of_day (day_of t)"
  let ?X = "month_start (?mi + 1) + min (day_of_month (day_of t)) (month_length (?mi + 1)) - 1"
  have "day_of t + 1 \<le> month_start (?mi + 1)" using month_index_bracket[of "day_of t"] by simp
  moreover have "1 \<le> min (day_of_month (day_of t)) (month_length (?mi + 1))"
    using day_of_month_bounds[of "day_of t"] month_length_pos[of "?mi + 1"] by simp
  ultimately have "day_of t + 1 \<le> ?X" by linarith
  then have "(day_of t + 1) * ms_per_day \<le> ?X * ms_per_day" using ms_per_day_pos by simp
  moreover have "(day_of t + 1) * ms_per_day = day_of t * ms_per_day + ms_per_day"
    by (simp add: algebra_simps)
  moreover have "add_months t 1 = ?X * ms_per_day + time_of_day t"
    by (simp add: add_months_def Let_def)
  ultimately show ?thesis using timestamp_split[of t] time_of_day_bounds[of t] by linarith
qed

lemma month_index_mono: "d \<le> d' \<Longrightarrow> month_index_of_day d \<le> month_index_of_day d'"
  using month_start_le_iff[of "month_index_of_day d" d'] month_index_bracket[of d] by simp

lemma difference_add_days [date_simps]:
  "difference_in_calendar_days (add_days t a) (add_days t b) = a - b"
  by (simp add: difference_in_calendar_days_def day_of_add_days)

lemma month_index_short_gap:
  assumes "d \<le> d'" and "d' < d + 29"
  shows "month_index_of_day d \<le> month_index_of_day d' \<and>
         month_index_of_day d' \<le> month_index_of_day d + 1"
proof -
  let ?m = "month_index_of_day d"
  have "d < month_start (?m + 1)" using month_index_bracket[of d] by simp
  then have "d + 1 + 28 \<le> month_start (?m + 1 + 1)"
    using month_start_succ[of "?m + 1"] month_length_pos[of "?m + 1"] by simp
  then have "\<not> month_start (?m + 2) \<le> d'" using assms(2) by (simp add: add.assoc)
  then have "month_index_of_day d' < ?m + 2" using month_start_le_iff[of "?m + 2" d'] by simp
  then show ?thesis using month_index_mono[OF assms(1)] by simp
qed

text \<open>The month cursor advances by at least one millisecond, in the normal form the
  simplifier gives the termination goal of the month loop.\<close>

lemma add_months_advances: "1 - add_months t 1 \<le> - t"
  using add_months_later[of t] by simp

text \<open>Adding one month moves a date by at least 28 days: the day of the month is kept or
  clamped to the length of the next month, which is at least 28.\<close>

lemma add_months_28_days: "t + 28 * ms_per_day \<le> add_months t 1"
proof -
  let ?d = "day_of t"
  let ?mi = "month_index_of_day ?d"
  let ?dd = "day_of_month ?d"
  let ?X = "month_start (?mi + 1) + min ?dd (month_length (?mi + 1)) - 1"
  have d: "?d = month_start ?mi + ?dd - 1" by (simp add: day_of_month_def)
  have ms: "month_start (?mi + 1) = month_start ?mi + month_length ?mi" by (rule month_start_succ)
  have b: "1 \<le> ?dd" "?dd \<le> month_length ?mi" using day_of_month_bounds[of ?d] by simp_all
  have "?d + 28 \<le> ?X"
    using d ms b month_length_pos[of ?mi] month_length_pos[of "?mi + 1"] by linarith
  then have "(?d + 28) * ms_per_day \<le> ?X * ms_per_day" using ms_per_day_pos by simp
  moreover have "add_months t 1 = ?X * ms_per_day + time_of_day t"
    by (simp add: add_months_def Let_def)
  ultimately show ?thesis using timestamp_split[of t] by (simp add: algebra_simps)
qed

end
