(* ===== verification/Rows.thy ===== *)
theory Rows
  imports Calendar
begin

text \<open>
  The Row Builder of \<open>ProjectCalendar\<close> (src/client/src/components/ProjectCalendar.jsx,
  the \<open>statusColors\<close> table and the \<open>rows\<close> memo): each task becomes a row with a
  name, a start and an end date and a status. A JavaScript field that may be missing,
  \<open>null\<close> or an empty string is an \<open>option\<close>; \<open>None\<close> stands for every falsy value.
  Date strings are taken as already parsed into timestamps. The clock reading
  \<open>new Date()\<close> is the parameter \<open>today\<close>, read once per build.
\<close>

subsection \<open>Data\<close>

datatype status = LATE | OVERDUE | UNDERWAY | DEFAULT

text \<open>\<open>statusColors\<close>, lines 5--10.\<close>

fun status_color :: "status \<Rightarrow> string" where
  "status_color LATE = ''#3b82f6''"
| "status_color OVERDUE = ''#ef4444''"
| "status_color UNDERWAY = ''#fb923c''"
| "status_color DEFAULT = ''#c7c7c7''"

record task =
  task_id :: string
  title :: "string option"
  due_date :: "timestamp option"
  created_at :: "timestamp option"
  task_status :: string

record project =
  start_date :: "timestamp option"

record row =
  row_name :: string
  row_start :: timestamp
  row_end :: timestamp
  row_status :: status

subsection \<open>Operations\<close>

text \<open>\<open>t.title || `Task ${t.id}`\<close>: an empty title is falsy as well.\<close>

definition task_title :: "task \<Rightarrow> string" where
  "task_title t =
     (case title t of Some s \<Rightarrow> if s = [] then ''Task '' @ task_id t else s
                    | None \<Rightarrow> ''Task '' @ task_id t)"

definition row_start_of :: "timestamp \<Rightarrow> project option \<Rightarrow> task \<Rightarrow> timestamp" where
  "row_start_of today proj t =
     (case (case proj of Some p \<Rightarrow> start_date p | None \<Rightarrow> None) of
        Some s \<Rightarrow> s
      | None \<Rightarrow> (case created_at t of
                   Some c \<Rightarrow> c
                 | None \<Rightarrow> (case due_date t of
                              Some e \<Rightarrow> add_days e (-7)
                            | None \<Rightarrow> add_days today (-3))))"

definition derive_status :: "timestamp \<Rightarrow> task \<Rightarrow> status" where
  "derive_status today t =
     (if task_status t = ''DONE'' then DEFAULT
      else if (case due_date t of Some e \<Rightarrow> e < today | None \<Rightarrow> False) then OVERDUE
      else if (case due_date t of Some e \<Rightarrow> e \<le> add_days today 7 | None \<Rightarrow> False) then LATE
      else UNDERWAY)"

definition build_row :: "timestamp \<Rightarrow> project option \<Rightarrow> task \<Rightarrow> row" where
  "build_row today proj t =
     (let start = row_start_of today proj t
      in \<lparr>row_name = task_title t, row_start = start,
          row_end = (case due_date t of Some e \<Rightarrow> e | None \<Rightarrow> add_days start 1),
          row_status = derive_status today t\<rparr>)"

definition max_rows :: nat where
  "max_rows = 50"

definition build_rows :: "timestamp \<Rightarrow> project option \<Rightarrow> task list \<Rightarrow> row list" where
  "build_rows today proj tasks =
     (if tasks = [] then [] else take max_rows (map (build_row today proj) tasks))"

subsection \<open>Properties\<close>

lemma build_row_fields [simp]:
  "row_name (build_row today proj t) = task_title t"
  "row_start (build_row today proj t) = row_start_of today proj t"
  "row_end (build_row today proj t) =
     (case due_date t of Some e \<Rightarrow> e | None \<Rightarrow> add_days (row_start_of today proj t) 1)"
  "row_status (build_row today proj t) = derive_status today t"
  by (simp_all add: build_row_def Let_def)

text \<open>C3: the builder keeps at most fifty rows, the first ones of the input.\<close>

theorem length_build_rows: "length (build_rows today proj tasks) = min (length tasks) 50"
  by (simp add: build_rows_def max_rows_def min.commute)

lemma length_build_rows_witness:
  "length (build_rows 0 None (replicate 60 \<lparr>task_id = ''7'', title = None, due_date = None,
                                           created_at = None, task_status = ''TODO''\<rparr>)) = 50"
  using length_build_rows[of 0 None "replicate 60 \<lparr>task_id = ''7'', title = None, due_date = None,
                                                  created_at = None, task_status = ''TODO''\<rparr>"]
  by simp

lemma build_rows_nth:
  "i < length (build_rows today proj tasks) \<Longrightarrow>
   build_rows today proj tasks ! i = build_row today proj (tasks ! i)"
  by (auto simp: build_rows_def max_rows_def split: if_splits)

text \<open>
  C2: status classification. A task marked done is \<open>DEFAULT\<close> whatever its due date;
  otherwise it is \<open>OVERDUE\<close> when due strictly before the clock reading, \<open>LATE\<close> when due
  at most seven days after it, and \<open>UNDERWAY\<close> when it has no due date or a later one.
\<close>

theorem status_classification:
  "(derive_status today t = DEFAULT \<longleftrightarrow> task_status t = ''DONE'') \<and>
   (derive_status today t = OVERDUE \<longleftrightarrow>
      task_status t \<noteq> ''DONE'' \<and> (\<exists>e. due_date t = Some e \<and> e < today)) \<and>
   (derive_status today t = LATE \<longleftrightarrow>
      task_status t \<noteq> ''DONE'' \<and> (\<exists>e. due_date t = Some e \<and> today \<le> e \<and> e \<le> add_days today 7)) \<and>
   (derive_status today t = UNDERWAY \<longleftrightarrow>
      task_status t \<noteq> ''DONE'' \<and> (due_date t = None \<or> (\<exists>e. due_date t = Some e \<and> add_days today 7 < e)))"
  by (cases "due_date t") (auto simp: derive_status_def add_days_def ms_per_day_def)

text \<open>The scenario of the specification: a task due three days from now, with no
  project and no creation date, is \<open>LATE\<close> and starts seven days before its due date.\<close>

lemma status_classification_witness:
  "row_status (build_row 0 None \<lparr>task_id = ''1'', title = None, due_date = Some (3 * 86400000),
                                  created_at = None, task_status = ''UNDERWAY''\<rparr>) = LATE \<and>
   row_start (build_row 0 None \<lparr>task_id = ''1'', title = None, due_date = Some (3 * 86400000),
                                 created_at = None, task_status = ''UNDERWAY''\<rparr>) = - 4 * 86400000"
  using status_classification[of 0 "\<lparr>task_id = ''1'', title = None, due_date = Some (3 * 86400000),
                                       created_at = None, task_status = ''UNDERWAY''\<rparr>"]
  by (simp add: row_start_of_def add_days_def ms_per_day_def)

lemma task_title_nonempty: "task_title t \<noteq> []"
  by (simp add: task_title_def split: option.split)

lemma row_end_default: "due_date t = None \<Longrightarrow>
   row_end (build_row today proj t) = add_days (row_start (build_row today proj t)) 1"
  by simp

lemma row_positive_without_due:
  "due_date t = None \<Longrightarrow> row_start (build_row today proj t) < row_end (build_row today proj t)"
  by (simp add: add_days_def ms_per_day_def)

end
