(* ===== verification/Timeline.thy ===== *)
theory Timeline
  imports Rows
begin

text \<open>
  The Timeline Range Calculator of \<open>ProjectCalendar\<close> (the memo computing
  \<open>timelineStart\<close>, \<open>timelineEnd\<close>, \<open>totalDays\<close>, lines 37--54). The \<open>forEach\<close>
  over the rows is a \<open>fold\<close> over an accumulator pair \<open>(minD, maxD)\<close>, started at the
  first row. Rows always carry both dates, so the \<open>r.start &&\<close> guards and the
  \<open>|| new Date()\<close> fallbacks of the source never fire; the clock reading of this memo
  (used for an empty row list) is the parameter \<open>now\<close>.
  The lemmas show that the loop computes the minimum start and the maximum end (a
  refinement of \<open>Min\<close>/\<open>Max\<close>), that every row lies at least seven days inside the
  span, and that \<open>totalDays\<close> is at least one.
\<close>

record timeline =
  timeline_start :: timestamp
  timeline_end :: timestamp
  total_days :: int

definition range_step :: "row \<Rightarrow> timestamp \<times> timestamp \<Rightarrow> timestamp \<times> timestamp" where
  "range_step r acc =
     (let (minD, maxD) = acc
      in (if row_start r < minD then row_start r else minD,
          if row_end r > maxD then row_end r else maxD))"

definition timeline_range :: "timestamp \<Rightarrow> row list \<Rightarrow> timeline" where
  "timeline_range now rows =
     (case rows of
        [] \<Rightarrow> \<lparr>timeline_start = now, timeline_end = add_days now 7, total_days = 7\<rparr>
      | r0 # _ \<Rightarrow>
          (let (minD, maxD) = fold range_step rows (row_start r0, row_end r0);
               minD = add_days minD (-7);
               maxD = add_days maxD 7
           in \<lparr>timeline_start = minD, timeline_end = maxD,
               total_days = max 1 (difference_in_calendar_days maxD minD)\<rparr>))"

subsection \<open>The loop computes the extremes\<close>

lemma fold_range_step:
  "fold range_step rows (a, b) =
     (Min (insert a (row_start ` set rows)), Max (insert b (row_end ` set rows)))"
proof (induction rows arbitrary: a b)
  case Nil
  then show ?case by simp
next
  case (Cons r rows)
  have "fold range_step (r # rows) (a, b) = fold range_step rows (min (row_start r) a, max (row_end r) b)"
    by (simp add: range_step_def min_def max_def)
  also have "\<dots> = (Min (insert (min (row_start r) a) (row_start ` set rows)),
                   Max (insert (max (row_end r) b) (row_end ` set rows)))"
    by (rule Cons.IH)
  also have "\<dots> = (Min (insert a (row_start ` set (r # rows))), Max (insert b (row_end ` set (r # rows))))"
    by (cases "rows = []") (simp_all add: min.assoc max.assoc min.commute max.commute)
  finally show ?case .
qed

lemma timeline_range_Cons:
  "timeline_range now (r0 # rs) =
     (let minD = add_days (Min (row_start ` set (r0 # rs))) (-7);
          maxD = add_days (Max (row_end ` set (r0 # rs))) 7
      in \<lparr>timeline_start = minD, timeline_end = maxD,
          total_days = max 1 (difference_in_calendar_days maxD minD)\<rparr>)"
proof -
  have f: "fold range_step (r0 # rs) (row_start r0, row_end r0) =
             (Min (row_start ` set (r0 # rs)), Max (row_end ` set (r0 # rs)))"
    unfolding fold_range_step by (simp add: insert_absorb)
  show ?thesis
    unfolding timeline_range_def list.case f by (simp add: Let_def del: fold_Cons)
qed

text \<open>C5: on a non-empty row list the span is the padded minimum start and maximum end.\<close>

theorem timeline_range_extremes:
  assumes "rows \<noteq> []"
  shows "timeline_start (timeline_range now rows) = add_days (Min (row_start ` set rows)) (-7) \<and>
         timeline_end (timeline_range now rows) = add_days (Max (row_end ` set rows)) 7 \<and>
         total_days (timeline_range now rows) =
           max 1 (difference_in_calendar_days (add_days (Max (row_end ` set rows)) 7)
                                              (add_days (Min (row_start ` set rows)) (-7)))"
  using assms by (cases rows) (simp_all add: timeline_range_Cons Let_def)

lemma timeline_range_extremes_witness:
  "timeline_start (timeline_range 0 [\<lparr>row_name = ''a'', row_start = 10, row_end = 20, row_status = LATE\<rparr>,
                                     \<lparr>row_name = ''b'', row_start = 5, row_end = 15, row_status = LATE\<rparr>])
     = add_days 5 (-7) \<and>
   timeline_end (timeline_range 0 [\<lparr>row_name = ''a'', row_start = 10, row_end = 20, row_status = LATE\<rparr>,
                                   \<lparr>row_name = ''b'', row_start = 5, row_end = 15, row_status = LATE\<rparr>])
     = add_days 20 7"
  using timeline_range_extremes[of "[\<lparr>row_name = ''a'', row_start = 10, row_end = 20, row_status = LATE\<rparr>,
                                    \<lparr>row_name = ''b'', row_start = 5, row_end = 15, row_status = LATE\<rparr>]" 0]
  by simp

lemma timeline_range_Nil [simp]:
  "timeline_range now [] = \<lparr>timeline_start = now, timeline_end = add_days now 7, total_days = 7\<rparr>"
  by (simp add: timeline_range_def)

text \<open>Every row lies inside the span with seven days of padding on each side.\<close>

lemma rows_inside_timeline:
  assumes "r \<in> set rows"
  shows "add_days (timeline_start (timeline_range now rows)) 7 \<le> row_start r \<and>
         add_days (row_end r) 7 \<le> timeline_end (timeline_range now rows)"
proof -
  from assms have ne: "rows \<noteq> []" by auto
  have "Min (row_start ` set rows) \<le> row_start r" "row_end r \<le> Max (row_end ` set rows)"
    using assms by simp_all
  then show ?thesis
    using ne by (cases rows) (simp_all add: timeline_range_Cons Let_def add_days_def)
qed

lemma total_days_pos: "1 \<le> total_days (timeline_range now rows)"
  by (cases rows) (simp_all add: timeline_range_def Let_def split: prod.split)

lemma total_days_covers_span:
  "difference_in_calendar_days (timeline_end (timeline_range now rows))
                               (timeline_start (timeline_range now rows))
     \<le> total_days (timeline_range now rows)"
proof (cases "rows = []")
  case True
  then show ?thesis by (simp add: difference_in_calendar_days_def day_of_add_days)
next
  case False
  then show ?thesis by (cases rows) (simp_all add: timeline_range_Cons Let_def)
qed

end
