(* ===== verification/Grid.thy ===== *)
theory Grid
  imports Timeline
begin

text \<open>
  The Grid Partitioner and the Overlap Renderer of \<open>ProjectCalendar\<close>: the month
  segments (\<open>monthsAll\<close>, lines 56--66), the column boundaries (\<open>columnsAll\<close>,
  lines 74--84) and the per-row cells of \<open>renderRow\<close> (lines 118--135).
  The \<open>while (cursor <= timelineEnd)\<close> loop is a \<open>function\<close> whose termination
  measure is the distance from the cursor to \<open>timelineEnd\<close>: \<open>addMonths\<close> by one
  always moves the cursor forward (\<open>add_months_later\<close>).
\<close>

subsection \<open>Month segments\<close>

record month_seg =
  month_label :: string
  month_begin :: timestamp

definition month_seg_at :: "timestamp \<Rightarrow> month_seg" where
  "month_seg_at cursor = \<lparr>month_label = format_MMMM_yyyy cursor, month_begin = cursor\<rparr>"

function months_from :: "timestamp \<Rightarrow> timestamp \<Rightarrow> month_seg list" where
  "months_from cursor tend =
     (if cursor \<le> tend then month_seg_at cursor # months_from (add_months cursor 1) tend else [])"
  by pat_completeness auto
termination
  by (relation "measure (\<lambda>(cursor, tend). nat (tend - cursor + 1))") (simp_all add: add_months_advances)

declare months_from.simps [simp del]

definition months_all :: "timeline \<Rightarrow> month_seg list" where
  "months_all tml = months_from (start_of_month (timeline_start tml)) (timeline_end tml)"

text \<open>Reference definition: \<open>n\<close> consecutive months from month index \<open>mi\<close>.\<close>

fun month_segs :: "int \<Rightarrow> nat \<Rightarrow> month_seg list" where
  "month_segs mi 0 = []"
| "month_segs mi (Suc n) = month_seg_at (month_start mi * ms_per_day) # month_segs (mi + 1) n"

subsection \<open>Columns\<close>

record column =
  col_start :: timestamp
  col_end :: timestamp

text \<open>\<open>Math.round (a / b)\<close> for \<open>b > 0\<close>: the floor of \<open>a / b + 1/2\<close>.\<close>

definition js_round_div :: "int \<Rightarrow> int \<Rightarrow> int" where
  "js_round_div a b = (2 * a + b) div (2 * b)"

definition column_at :: "timestamp \<Rightarrow> int \<Rightarrow> int \<Rightarrow> nat \<Rightarrow> column" where
  "column_at tstart tdays ncols col =
     \<lparr>col_start = add_days tstart (js_round_div (int col * tdays) ncols),
      col_end = add_days tstart (js_round_div ((int col + 1) * tdays) ncols)\<rparr>"

definition columns_all :: "timestamp \<Rightarrow> int \<Rightarrow> nat \<Rightarrow> column list" where
  "columns_all tstart tdays n_months =
     map (column_at tstart tdays (int (n_months * 4))) [0..<n_months * 4]"

text \<open>Offsets of the column boundaries, in days from \<open>timelineStart\<close>.\<close>

definition col_offset :: "int \<Rightarrow> int \<Rightarrow> nat \<Rightarrow> int" where
  "col_offset tdays ncols i = js_round_div (int i * tdays) ncols"

subsection \<open>Overlap and the cells of a row\<close>

text \<open>The fill test of \<open>renderRow\<close>, line 125.\<close>

definition overlaps :: "row \<Rightarrow> column \<Rightarrow> bool" where
  "overlaps r c \<longleftrightarrow> row_start r < col_end c \<and> row_end r > col_start c"

text \<open>The children the grid receives; a bar cell carries its background, \<open>None\<close> for
  \<open>'transparent'\<close>.\<close>

datatype grid_item =
    GridBlank
  | LabelCell string
  | BarCell "string option"
  | DateCell string
  | MonthHeaderCell string
  | WeekCell string
  | EmptyCell
  | NoDataCell string

definition bar_cell :: "row \<Rightarrow> column \<Rightarrow> grid_item" where
  "bar_cell r c = BarCell (if overlaps r c then Some (status_color (row_status r)) else None)"

definition render_row :: "column list \<Rightarrow> row \<Rightarrow> grid_item list" where
  "render_row cols r =
     LabelCell (row_name r) # map (bar_cell r) cols @ [DateCell (format_MMM_d (row_start r))]"

subsection \<open>Month segments: the loop is the calendar\<close>

lemma months_from_month_start:
  "months_from (month_start mi * ms_per_day) tend =
     month_segs mi (nat (month_index_of_day (day_of tend) - mi + 1))"
proof (induction "month_start mi * ms_per_day" tend arbitrary: mi rule: months_from.induct)
  case (1 tend)
  let ?M = "month_index_of_day (day_of tend)"
  show ?case
  proof (cases "mi \<le> ?M")
    case True
    then have le: "month_start mi * ms_per_day \<le> tend"
      by (simp add: days_le_iff month_start_le_iff)
    have n: "nat (?M - mi + 1) = Suc (nat (?M - (mi + 1) + 1))" using True by simp
    show ?thesis
      using le "1.hyps"[OF le, of "mi + 1"]
      by (simp add: months_from.simps[of "month_start mi * ms_per_day"] n add_months_month_start)
  next
    case False
    then have "\<not> month_start mi * ms_per_day \<le> tend"
      by (simp add: days_le_iff month_start_le_iff)
    with False show ?thesis by (simp add: months_from.simps[of "month_start mi * ms_per_day"])
  qed
qed

lemma length_month_segs [simp]: "length (month_segs mi n) = n"
  by (induction n arbitrary: mi) simp_all

lemma month_segs_eq_map:
  "month_segs mi n = map (\<lambda>k. month_seg_at (month_start (mi + int k) * ms_per_day)) [0..<n]"
proof (induction n arbitrary: mi)
  case 0
  then show ?case by simp
next
  case (Suc n)
  have "map (\<lambda>k. month_seg_at (month_start (mi + int k) * ms_per_day)) [0..<Suc n] =
        month_seg_at (month_start mi * ms_per_day) #
        map (\<lambda>k. month_seg_at (month_start (mi + 1 + int k) * ms_per_day)) [0..<n]"
    by (simp add: upt_conv_Cons map_Suc_upt[symmetric] del: upt_Suc) (simp add: ac_simps)
  then show ?case using Suc.IH[of "mi + 1"] by simp
qed

lemma months_all_segs:
  "months_all tml =
     month_segs (month_index_of_day (day_of (timeline_start tml)))
                (nat (month_index_of_day (day_of (timeline_end tml))
                      - month_index_of_day (day_of (timeline_start tml)) + 1))"
  by (simp add: months_all_def start_of_month_def months_from_month_start)

text \<open>
  C4: the month segments are exactly the calendar months from the month of
  \<open>timelineStart\<close> to the month of \<open>timelineEnd\<close>, each starting on its first day.
\<close>

theorem months_all_calendar_months:
  "months_all tml =
     map (\<lambda>k. month_seg_at (month_start (month_index_of_day (day_of (timeline_start tml)) + int k)
                              * ms_per_day))
         [0..<nat (month_index_of_day (day_of (timeline_end tml))
                   - month_index_of_day (day_of (timeline_start tml)) + 1)]"
  unfolding months_all_segs by (rule month_segs_eq_map)

lemma length_months_all:
  "length (months_all tml) =
     nat (month_index_of_day (day_of (timeline_end tml))
          - month_index_of_day (day_of (timeline_start tml)) + 1)"
  by (simp add: months_all_segs)

lemma months_all_nonempty:
  "timeline_start tml \<le> timeline_end tml \<Longrightarrow> months_all tml \<noteq> []"
proof -
  assume "timeline_start tml \<le> timeline_end tml"
  then have "0 < length (months_all tml)"
    using month_index_mono[OF day_of_mono[of "timeline_start tml" "timeline_end tml"]]
    by (simp add: length_months_all)
  then show ?thesis by auto
qed

subsection \<open>Properties of the columns\<close>

text \<open>A span of ten days over one month: \<open>Math.round\<close> puts the boundaries at 0, 3
  (2.5 rounded up), 5, 8 (7.5 rounded up) and 10 days.\<close>

lemma columns_all_example:
  "columns_all 0 10 1 =
     [\<lparr>col_start = 0, col_end = 3 * 86400000\<rparr>, \<lparr>col_start = 3 * 86400000, col_end = 5 * 86400000\<rparr>,
      \<lparr>col_start = 5 * 86400000, col_end = 8 * 86400000\<rparr>, \<lparr>col_start = 8 * 86400000, col_end = 10 * 86400000\<rparr>]"
  by (simp add: columns_all_def column_at_def js_round_div_def add_days_def ms_per_day_def upt_rec)

lemma js_round_div_bounds:
  "0 < b \<Longrightarrow> 2 * b * js_round_div a b \<le> 2 * a + b \<and> 2 * a + b < 2 * b * js_round_div a b + 2 * b"
  using div_upper_int[of "2 * b" "2 * a + b"] div_lower_int[of "2 * b" "2 * a + b"]
  by (simp add: js_round_div_def)

lemma js_round_div_mono: "0 < b \<Longrightarrow> a \<le> a' \<Longrightarrow> js_round_div a b \<le> js_round_div a' b"
  by (simp add: js_round_div_def div_mono_int)

lemma js_round_div_zero [layout_simps]: "0 < b \<Longrightarrow> js_round_div 0 b = 0"
  by (simp add: js_round_div_def)

lemma js_round_div_whole [layout_simps]: "0 < b \<Longrightarrow> js_round_div (b * t) b = t"
  using divmod_unique_int[of b "2 * b" t] by (simp add: js_round_div_def algebra_simps)

lemma length_columns_all [simp]: "length (columns_all tstart tdays n) = n * 4"
  by (simp add: columns_all_def)

lemma columns_all_nth [layout_simps]:
  "i < n * 4 \<Longrightarrow> columns_all tstart tdays n ! i = column_at tstart tdays (int (n * 4)) i"
  by (simp add: columns_all_def)

lemma columns_contiguous:
  "Suc i < n * 4 \<Longrightarrow>
   col_end (columns_all tstart tdays n ! i) = col_start (columns_all tstart tdays n ! Suc i)"
  by (simp add: columns_all_nth column_at_def add.commute)

lemma columns_first_last:
  "0 < n \<Longrightarrow>
   col_start (columns_all tstart tdays n ! 0) = tstart \<and>
   col_end (columns_all tstart tdays n ! (n * 4 - 1)) = add_days tstart tdays"
proof -
  assume n: "0 < n"
  have N: "0 < int (n * 4)" using n by simp
  have "(int (n * 4 - 1) + 1) * tdays = int (n * 4) * tdays" using n by (simp add: of_nat_diff)
  then show ?thesis
    using n N js_round_div_whole[OF N, of tdays]
    by (simp add: columns_all_nth column_at_def js_round_div_zero add_days_def)
qed

lemma column_at_offsets:
  "col_start (column_at tstart tdays ncols i) = add_days tstart (col_offset tdays ncols i) \<and>
   col_end (column_at tstart tdays ncols i) = add_days tstart (col_offset tdays ncols (Suc i))"
  by (simp add: column_at_def col_offset_def add.commute)

lemma col_offset_mono:
  "0 < ncols \<Longrightarrow> 0 \<le> tdays \<Longrightarrow> i \<le> j \<Longrightarrow> col_offset tdays ncols i \<le> col_offset tdays ncols j"
  unfolding col_offset_def by (rule js_round_div_mono) (simp_all add: mult_right_mono)

text \<open>
  C6: the columns partition the span exactly: their day counts add up to
  \<open>totalDays\<close>.
\<close>

theorem columns_span_sum:
  "0 < n \<Longrightarrow>
   sum_list (map (\<lambda>c. difference_in_calendar_days (col_end c) (col_start c))
                 (columns_all tstart tdays n)) = tdays"
proof -
  assume n: "0 < n"
  let ?N = "int (n * 4)"
  have N: "0 < ?N" using n by simp
  have "map (\<lambda>c. difference_in_calendar_days (col_end c) (col_start c)) (columns_all tstart tdays n) =
        map (\<lambda>i. col_offset tdays ?N (Suc i) - col_offset tdays ?N i) [0..<n * 4]"
    by (simp add: columns_all_def column_at_offsets difference_add_days)
  moreover have "col_offset tdays ?N (n * 4) = tdays"
    using js_round_div_whole[OF N, of tdays] by (simp add: col_offset_def)
  moreover have "col_offset tdays ?N 0 = 0"
    using N by (simp add: col_offset_def js_round_div_zero)
  ultimately show ?thesis by (simp add: sum_list_map_upt_telescope)
qed

lemma columns_span_sum_witness:
  "sum_list (map (\<lambda>c. difference_in_calendar_days (col_end c) (col_start c)) (columns_all 0 10 1)) = 10"
  using columns_span_sum[of 1 0 10] by simp

text \<open>
  C7: \<open>Math.round\<close> makes every column \<open>floor (totalDays / N)\<close> or
  \<open>ceil (totalDays / N)\<close> days wide, for \<open>N\<close> columns: \<open>N\<close> times its width is within
  \<open>N\<close> of \<open>totalDays\<close>.
\<close>

theorem column_width_bounds:
  assumes "0 < n" and "i < n * 4"
  shows "tdays - int (n * 4) <
           int (n * 4) * difference_in_calendar_days (col_end (columns_all tstart tdays n ! i))
                                                     (col_start (columns_all tstart tdays n ! i)) \<and>
         int (n * 4) * difference_in_calendar_days (col_end (columns_all tstart tdays n ! i))
                                                     (col_start (columns_all tstart tdays n ! i))
           < tdays + int (n * 4)"
proof -
  let ?N = "int (n * 4)"
  let ?A = "int i * tdays"
  have N: "0 < ?N" using assms by simp
  define so where "so = js_round_div ?A ?N"
  define eo where "eo = js_round_div (?A + tdays) ?N"
  have w: "difference_in_calendar_days (col_end (columns_all tstart tdays n ! i))
                                       (col_start (columns_all tstart tdays n ! i)) = eo - so"
    using assms(2) by (simp add: columns_all_nth column_at_def difference_add_days so_def eo_def
                                 algebra_simps)
  have b1: "2 * ?N * so \<le> 2 * ?A + ?N" "2 * ?A + ?N < 2 * ?N * so + 2 * ?N"
    using js_round_div_bounds[OF N, of ?A] by (simp_all add: so_def)
  have b2: "2 * ?N * eo \<le> 2 * (?A + tdays) + ?N" "2 * (?A + tdays) + ?N < 2 * ?N * eo + 2 * ?N"
    using js_round_div_bounds[OF N, of "?A + tdays"] by (simp_all add: eo_def)
  have d: "?N * (eo - so) = ?N * eo - ?N * so" "2 * ?N * eo = 2 * (?N * eo)" "2 * ?N * so = 2 * (?N * so)"
    "2 * (?A + tdays) = 2 * ?A + 2 * tdays"
    by (simp_all add: algebra_simps)
  show ?thesis unfolding w using b1 b2 d by linarith
qed

lemma column_width_bounds_witness:
  "10 - 4 < 4 * difference_in_calendar_days (col_end (columns_all 0 10 1 ! 1))
                                            (col_start (columns_all 0 10 1 ! 1)) \<and>
   difference_in_calendar_days (col_end (columns_all 0 10 1 ! 0)) (col_start (columns_all 0 10 1 ! 0)) = 3"
  using column_width_bounds[of 1 1 10 0] columns_all_example
  by (simp add: difference_in_calendar_days_def day_of_def ms_per_day_def)

lemma columns_mono:
  assumes "0 \<le> tdays" and "i \<le> j" and "j < n * 4"
  shows "col_start (columns_all tstart tdays n ! i) \<le> col_start (columns_all tstart tdays n ! j) \<and>
         col_end (columns_all tstart tdays n ! i) \<le> col_end (columns_all tstart tdays n ! j)"
proof -
  have N: "0 < int (n * 4)" using assms by simp
  have "col_offset tdays (int (n * 4)) i \<le> col_offset tdays (int (n * 4)) j"
       "col_offset tdays (int (n * 4)) (Suc i) \<le> col_offset tdays (int (n * 4)) (Suc j)"
    using col_offset_mono[OF N assms(1)] assms(2) by simp_all
  then show ?thesis
    using assms by (simp add: columns_all_nth column_at_offsets add_days_def ms_per_day_def)
qed

subsection \<open>Properties of the cells\<close>

lemma length_render_row [layout_simps]: "length (render_row cols r) = length cols + 2"
  by (simp add: render_row_def)

lemma render_row_bar:
  "i < length cols \<Longrightarrow> render_row cols r ! Suc i = bar_cell r (cols ! i)"
  by (simp add: render_row_def nth_append)

text \<open>
  C8: the fill test is the intersection test of half-open intervals: for non-empty
  intervals it holds exactly when some instant lies in both, so a row ending where a
  column starts, or starting where it ends, does not fill it.
\<close>

theorem overlaps_half_open:
  assumes "row_start r < row_end r" and "col_start c < col_end c"
  shows "overlaps r c \<longleftrightarrow>
           (\<exists>x. row_start r \<le> x \<and> x < row_end r \<and> col_start c \<le> x \<and> x < col_end c)"
proof
  assume "overlaps r c"
  then show "\<exists>x. row_start r \<le> x \<and> x < row_end r \<and> col_start c \<le> x \<and> x < col_end c"
    using assms by (intro exI[of _ "max (row_start r) (col_start c)"]) (auto simp: overlaps_def)
next
  assume "\<exists>x. row_start r \<le> x \<and> x < row_end r \<and> col_start c \<le> x \<and> x < col_end c"
  then show "overlaps r c" by (auto simp: overlaps_def)
qed

lemma overlaps_half_open_witness:
  "\<not> overlaps \<lparr>row_name = ''a'', row_start = 0, row_end = 3 * 86400000, row_status = LATE\<rparr>
                (columns_all 0 10 1 ! 1)"
  using overlaps_half_open[of "\<lparr>row_name = ''a'', row_start = 0, row_end = 3 * 86400000, row_status = LATE\<rparr>"
                              "columns_all 0 10 1 ! 1"] columns_all_example
  by auto

lemma overlaps_touching:
  "row_end r = col_start c \<Longrightarrow> \<not> overlaps r c"
  "row_start r = col_end c \<Longrightarrow> \<not> overlaps r c"
  by (auto simp: overlaps_def)

text \<open>The filled cells of a row form one contiguous run of columns.\<close>

lemma filled_cells_contiguous:
  assumes "0 \<le> tdays" and "i \<le> j" and "j \<le> k" and "k < n * 4"
    and "overlaps r (columns_all tstart tdays n ! i)"
    and "overlaps r (columns_all tstart tdays n ! k)"
  shows "overlaps r (columns_all tstart tdays n ! j)"
proof -
  have "col_end (columns_all tstart tdays n ! i) \<le> col_end (columns_all tstart tdays n ! j)"
    using columns_mono[OF assms(1) assms(2)] assms(3,4) by simp
  moreover have "col_start (columns_all tstart tdays n ! j) \<le> col_start (columns_all tstart tdays n ! k)"
    using columns_mono[OF assms(1) assms(3,4)] by simp
  ultimately show ?thesis using assms(5,6) by (auto simp: overlaps_def)
qed

text \<open>
  A row of positive duration that starts inside the grid's span fills at least one
  cell.
\<close>

lemma row_fills_some_cell:
  assumes "0 < n" and "row_start r < row_end r"
    and "col_start (columns_all tstart tdays n ! 0) \<le> row_start r"
    and "row_start r < col_end (columns_all tstart tdays n ! (n * 4 - 1))"
  shows "\<exists>i < n * 4. overlaps r (columns_all tstart tdays n ! i)"
proof -
  let ?f = "\<lambda>m. add_days tstart (col_offset tdays (int (n * 4)) m)"
  have f0: "?f 0 = col_start (columns_all tstart tdays n ! 0)"
    using assms(1) by (simp add: columns_all_nth column_at_offsets)
  have fN: "?f (n * 4) = col_end (columns_all tstart tdays n ! (n * 4 - 1))"
    using assms(1) columns_all_nth[of "n * 4 - 1" n tstart tdays]
    by (simp add: column_at_offsets)
  obtain i where i: "i < n * 4" "?f i \<le> row_start r" "row_start r < ?f (Suc i)"
    using boundary_slot[of ?f "row_start r" "n * 4"] assms(3,4) f0 fN by auto
  then have "overlaps r (columns_all tstart tdays n ! i)"
    using assms(2) by (simp add: columns_all_nth column_at_offsets overlaps_def)
  with i(1) show ?thesis by blast
qed

text \<open>
  C37: the month loop terminates from any cursor, after at most one iteration per 28 days
  of the span (plus one): every iteration moves the cursor forward by at least 28 days.
\<close>

theorem months_loop_bound:
  "length (months_from cursor tend) \<le>
     (if cursor \<le> tend then nat ((tend - cursor) div (28 * ms_per_day)) + 1 else 0)"
proof (induction cursor tend rule: months_from.induct)
  case (1 cursor tend)
  let ?K = "28 * ms_per_day"
  let ?c = "add_months cursor 1"
  show ?case
  proof (cases "cursor \<le> tend")
    case False
    then show ?thesis by (simp add: months_from.simps)
  next
    case True
    have K: "0 < ?K" using ms_per_day_pos by simp
    have adv: "cursor + ?K \<le> ?c" by (rule add_months_28_days)
    have step: "length (months_from cursor tend) = Suc (length (months_from ?c tend))"
      using True by (simp add: months_from.simps)
    have ih: "length (months_from ?c tend) \<le>
                (if ?c \<le> tend then nat ((tend - ?c) div ?K) + 1 else 0)"
      using 1 True by simp
    show ?thesis
    proof (cases "?c \<le> tend")
      case False
      then show ?thesis using step ih True by simp
    next
      case c: True
      have "(tend - ?c) div ?K + 1 \<le> (tend - cursor) div ?K"
      proof -
        have "(tend - ?c) + ?K \<le> tend - cursor" using adv by simp
        then have "((tend - ?c) + ?K) div ?K \<le> (tend - cursor) div ?K"
          using K by (simp add: zdiv_mono1)
        moreover have "((tend - ?c) + ?K) div ?K = (tend - ?c) div ?K + 1"
          using K div_add_self2[of ?K "tend - ?c"] by linarith
        ultimately show ?thesis by simp
      qed
      moreover have "0 \<le> (tend - ?c) div ?K" using c K pos_imp_zdiv_nonneg_iff[of ?K "tend - ?c"] by simp
      ultimately show ?thesis using step ih c True by simp
    qed
  qed
qed

lemma months_loop_bound_witness:
  "length (months_from 0 (59 * ms_per_day)) \<le> 3"
  using months_loop_bound[of 0 "59 * ms_per_day"] by (simp add: ms_per_day_def)

end
