(* ===== verification/CalendarView.thy ===== *)
theory CalendarView
  imports Grid
begin

text \<open>
  The composition and the layout of \<open>ProjectCalendar\<close>
  (src/client/src/components/ProjectCalendar.jsx): the pipeline of memos
  (rows, span, months, columns), the children of the CSS grid (lines 197--231), the
  responsive cell size (the \<open>resize\<close> closure of the effect, lines 102--116), the
  range it leaves the scroller around the grid (\<open>scroll_range\<close>) and the
  lifecycle of that effect: it registers a window \<open>resize\<close> listener, and React runs
  its cleanup before re-running it when \<open>monthsAll.length\<close> changes and on unmount.
  The effect is a state machine: a step function over lifecycle events and the
  inductive set of reachable states, with its invariant proved by rule induction.
\<close>

subsection \<open>The pipeline\<close>

record calendar_view =
  view_rows :: "row list"
  view_timeline :: timeline
  view_months :: "month_seg list"
  view_columns :: "column list"

text \<open>\<open>today\<close> is the clock reading of the rows memo, \<open>now\<close> the one of the span memo.\<close>

definition calendar_view :: "timestamp \<Rightarrow> timestamp \<Rightarrow> project option \<Rightarrow> task list \<Rightarrow> calendar_view" where
  "calendar_view today now proj tasks =
     (let rows = build_rows today proj tasks;
          tml = timeline_range now rows;
          months = months_all tml;
          cols = columns_all (timeline_start tml) (total_days tml) (length months)
      in \<lparr>view_rows = rows, view_timeline = tml, view_months = months, view_columns = cols\<rparr>)"

definition total_columns :: "calendar_view \<Rightarrow> nat" where
  "total_columns v = length (view_months v) * 4"

subsection \<open>The grid's children\<close>

definition week_labels :: "string list" where
  "week_labels = [''I'', ''II'', ''III'', ''IV'']"

definition no_data_text :: string where
  "no_data_text = ''No tasks available to build the timeline.''"

definition header_block :: "month_seg list \<Rightarrow> grid_item list" where
  "header_block months =
     GridBlank # map (\<lambda>m. MonthHeaderCell (format_MMM_yyyy (month_begin m))) months @ [GridBlank]"

definition week_block :: "month_seg list \<Rightarrow> grid_item list" where
  "week_block months = GridBlank # concat (map (\<lambda>m. map WeekCell week_labels) months) @ [GridBlank]"

definition body_blocks :: "calendar_view \<Rightarrow> grid_item list list" where
  "body_blocks v =
     (if view_rows v = []
      then [GridBlank # replicate (total_columns v) EmptyCell @ [GridBlank], [NoDataCell no_data_text]]
      else map (render_row (view_columns v)) (view_rows v))"

definition grid_blocks :: "calendar_view \<Rightarrow> grid_item list list" where
  "grid_blocks v = header_block (view_months v) # week_block (view_months v) # body_blocks v"

definition grid_children :: "calendar_view \<Rightarrow> grid_item list" where
  "grid_children v = concat (grid_blocks v)"

text \<open>
  Tracks a child occupies in \<open>gridTemplateColumns\<close> (\<open>160px repeat(N, s) 120px\<close>,
  \<open>N + 2\<close> tracks): a month header spans 4, the placeholder spans
  \<open>1 / N + 3\<close>, that is \<open>N + 2\<close> tracks, every other child one.
\<close>

fun item_span :: "nat \<Rightarrow> grid_item \<Rightarrow> nat" where
  "item_span n (MonthHeaderCell _) = 4"
| "item_span n (NoDataCell _) = n + 2"
| "item_span n _ = 1"

subsection \<open>Cell size\<close>

definition MIN_CELL :: int where "MIN_CELL = 20"
definition left_width :: int where "left_width = 160"
definition right_width :: int where "right_width = 120"
definition MONTHS_PER_PAGE :: nat where "MONTHS_PER_PAGE = 12"

definition max_cols :: "nat \<Rightarrow> int" where
  "max_cols n_months = max 1 (int (min MONTHS_PER_PAGE n_months) * 4)"

definition resize_cell_size :: "int \<Rightarrow> nat \<Rightarrow> int" where
  "resize_cell_size client_width n_months =
     (let available = client_width - left_width - right_width;
          ideal = available div max_cols n_months
      in max MIN_CELL ideal)"

definition grid_min_width :: "calendar_view \<Rightarrow> int \<Rightarrow> int" where
  "grid_min_width v cell = left_width + int (total_columns v) * cell + right_width"

text \<open>The scroller (\<open>overflowX: 'auto'\<close>, lines 157--158) holds the grid of minimum
  width \<open>grid_min_width\<close> (line 197): the browser lets it scroll by the width the grid
  exceeds the scroller's \<open>clientWidth\<close>, which the resize closure also reads (the scroller
  is \<open>el\<close> of line 104). This is \<open>max_scroll\<close> of the drag-to-scroll model.\<close>

definition scroll_range :: "calendar_view \<Rightarrow> int \<Rightarrow> int" where
  "scroll_range v client_width =
     max 0 (grid_min_width v (resize_cell_size client_width (length (view_months v))) - client_width)"

subsection \<open>The resize effect\<close>

text \<open>
  A registered listener is the closure the effect created: a fresh identity and the
  \<open>monthsAll.length\<close> it captured. \<open>cleanup\<close> is the cleanup function React holds
  for the current run of the effect (\<open>None\<close> after the early \<open>return\<close> when no element
  is attached).
\<close>

record effect_state =
  mounted :: bool
  deps :: nat
  listeners :: "(nat \<times> nat) list"
  cleanup :: "(nat \<times> nat) option"
  next_id :: nat
  cell_size :: int

datatype effect_event =
    Mount nat bool int
  | Rerender nat bool int
  | Unmount
  | WindowResize int

definition effect_init :: effect_state where
  "effect_init = \<lparr>mounted = False, deps = 0, listeners = [], cleanup = None, next_id = 0, cell_size = 24\<rparr>"

definition run_effect :: "effect_state \<Rightarrow> nat \<Rightarrow> bool \<Rightarrow> int \<Rightarrow> effect_state" where
  "run_effect s m el w =
     (if \<not> el then s\<lparr>cleanup := None\<rparr>
      else let c = (next_id s, m)
           in s\<lparr>cell_size := resize_cell_size w m, listeners := listeners s @ [c],
                cleanup := Some c, next_id := Suc (next_id s)\<rparr>)"

definition run_cleanup :: "effect_state \<Rightarrow> effect_state" where
  "run_cleanup s =
     (case cleanup s of None \<Rightarrow> s
      | Some c \<Rightarrow> s\<lparr>listeners := remove1 c (listeners s), cleanup := None\<rparr>)"

fun effect_step :: "effect_state \<Rightarrow> effect_event \<Rightarrow> effect_state" where
  "effect_step s (Mount m el w) =
     (if mounted s then s else run_effect (s\<lparr>mounted := True, deps := m\<rparr>) m el w)"
| "effect_step s (Rerender m el w) =
     (if \<not> mounted s \<or> m = deps s then s else run_effect ((run_cleanup s)\<lparr>deps := m\<rparr>) m el w)"
| "effect_step s Unmount = (if \<not> mounted s then s else (run_cleanup s)\<lparr>mounted := False\<rparr>)"
| "effect_step s (WindowResize w) =
     (if listeners s = [] then s else s\<lparr>cell_size := resize_cell_size w (snd (last (listeners s)))\<rparr>)"

inductive effect_reachable :: "effect_state \<Rightarrow> bool" where
  init: "effect_reachable effect_init"
| step: "effect_reachable s \<Longrightarrow> effect_reachable (effect_step s e)"

definition effect_inv :: "effect_state \<Rightarrow> bool" where
  "effect_inv s \<longleftrightarrow>
     listeners s = (case cleanup s of None \<Rightarrow> [] | Some c \<Rightarrow> [c]) \<and>
     (\<forall>c. cleanup s = Some c \<longrightarrow> snd c = deps s \<and> mounted s)"

text \<open>The effect over a sequence of lifecycle events; the events of a mounted
  component whose scroller is rendered (re-renders find the element, the window
  resizes); and the month count of the latest render, starting from the mount's.\<close>

definition effect_run :: "effect_state \<Rightarrow> effect_event list \<Rightarrow> effect_state" where
  "effect_run s es = fold (\<lambda>e s. effect_step s e) es s"

fun mounted_event :: "effect_event \<Rightarrow> bool" where
  "mounted_event (Rerender _ el _) = el"
| "mounted_event (WindowResize _) = True"
| "mounted_event _ = False"

fun last_render :: "nat \<Rightarrow> effect_event list \<Rightarrow> nat" where
  "last_render m [] = m"
| "last_render m (Rerender m' _ _ # es) = last_render m' es"
| "last_render m (_ # es) = last_render m es"

subsection \<open>The pipeline and the grid\<close>

lemma calendar_view_fields:
  "view_rows (calendar_view today now proj tasks) = build_rows today proj tasks"
  "view_timeline (calendar_view today now proj tasks) = timeline_range now (build_rows today proj tasks)"
  "view_months (calendar_view today now proj tasks) =
     months_all (timeline_range now (build_rows today proj tasks))"
  "view_columns (calendar_view today now proj tasks) =
     columns_all (timeline_start (view_timeline (calendar_view today now proj tasks)))
                 (total_days (view_timeline (calendar_view today now proj tasks)))
                 (length (view_months (calendar_view today now proj tasks)))"
  by (simp_all add: calendar_view_def Let_def)

lemma length_view_columns [layout_simps]:
  "length (view_columns (calendar_view today now proj tasks)) =
   total_columns (calendar_view today now proj tasks)"
  by (simp add: calendar_view_def total_columns_def Let_def)

lemma sum_item_span_replicate [simp]:
  "sum_list (map (item_span n) (replicate k EmptyCell)) = k"
  by (induction k) simp_all

lemma sum_item_span_week_block:
  "sum_list (map (item_span n) (concat (map (\<lambda>m. map WeekCell week_labels) months))) = 4 * length months"
  by (induction months) (simp_all add: week_labels_def)

lemma sum_item_span_header:
  "sum_list (map (item_span n \<circ> (\<lambda>m. MonthHeaderCell (g m))) months) = 4 * length months"
  by (induction months) simp_all

lemma sum_item_span_bars:
  "sum_list (map (item_span n \<circ> bar_cell r) cols) = length cols"
  by (induction cols) (simp_all add: bar_cell_def)

text \<open>
  C10: the grid stays aligned: every block of children (the month header row, the week
  label row, each task row, the placeholder rows) spans exactly the \<open>N + 2\<close> tracks of
  \<open>gridTemplateColumns\<close>, so cell \<open>i\<close> of a task row sits under week column \<open>i\<close>.
\<close>

theorem grid_blocks_aligned:
  assumes "v = calendar_view today now proj tasks" and "b \<in> set (grid_blocks v)"
  shows "sum_list (map (item_span (total_columns v)) b) = total_columns v + 2"
proof -
  have cols: "length (view_columns v) = total_columns v"
    using assms(1) length_view_columns by simp
  have "b = header_block (view_months v) \<or> b = week_block (view_months v) \<or> b \<in> set (body_blocks v)"
    using assms(2) by (simp add: grid_blocks_def)
  then show ?thesis
  proof (elim disjE)
    assume "b = header_block (view_months v)"
    then show ?thesis by (simp add: header_block_def sum_item_span_header total_columns_def)
  next
    assume "b = week_block (view_months v)"
    then show ?thesis by (simp add: week_block_def sum_item_span_week_block total_columns_def)
  next
    assume "b \<in> set (body_blocks v)"
    then show ?thesis
      using cols by (auto simp: body_blocks_def render_row_def sum_item_span_bars sum_list_replicate
                          split: if_splits)
  qed
qed

lemma grid_blocks_aligned_witness:
  "sum_list (map (item_span (total_columns (calendar_view 0 0 None [\<lparr>task_id = ''1'', title = Some ''Survey'',
       due_date = Some 864000000, created_at = Some 0, task_status = ''TODO''\<rparr>])))
     (render_row (view_columns (calendar_view 0 0 None [\<lparr>task_id = ''1'', title = Some ''Survey'',
       due_date = Some 864000000, created_at = Some 0, task_status = ''TODO''\<rparr>]))
       (build_row 0 None \<lparr>task_id = ''1'', title = Some ''Survey'',
       due_date = Some 864000000, created_at = Some 0, task_status = ''TODO''\<rparr>)))
   = total_columns (calendar_view 0 0 None [\<lparr>task_id = ''1'', title = Some ''Survey'',
       due_date = Some 864000000, created_at = Some 0, task_status = ''TODO''\<rparr>]) + 2"
proof (rule grid_blocks_aligned[OF refl])
  show "render_row (view_columns (calendar_view 0 0 None [\<lparr>task_id = ''1'', title = Some ''Survey'',
       due_date = Some 864000000, created_at = Some 0, task_status = ''TODO''\<rparr>]))
       (build_row 0 None \<lparr>task_id = ''1'', title = Some ''Survey'',
       due_date = Some 864000000, created_at = Some 0, task_status = ''TODO''\<rparr>)
     \<in> set (grid_blocks (calendar_view 0 0 None [\<lparr>task_id = ''1'', title = Some ''Survey'',
       due_date = Some 864000000, created_at = Some 0, task_status = ''TODO''\<rparr>]))"
    by (simp add: grid_blocks_def body_blocks_def calendar_view_def build_rows_def max_rows_def Let_def)
qed


subsection \<open>Cell size\<close>

lemma max_cols_pos: "0 < max_cols n"
  by (simp add: max_cols_def)

lemma cell_size_narrow:
  "w - left_width - right_width < MIN_CELL * max_cols n \<Longrightarrow> resize_cell_size w n = MIN_CELL"
proof -
  assume a: "w - left_width - right_width < MIN_CELL * max_cols n"
  have "max_cols n * ((w - left_width - right_width) div max_cols n) < max_cols n * MIN_CELL"
    using a div_upper_int[OF max_cols_pos[of n], of "w - left_width - right_width"]
    by (simp add: mult.commute)
  then have "(w - left_width - right_width) div max_cols n < MIN_CELL"
    using max_cols_pos[of n] by (simp add: mult_less_cancel_left_pos)
  then show ?thesis by (simp add: resize_cell_size_def Let_def)
qed

lemma cell_size_wide:
  assumes "MIN_CELL * max_cols n \<le> w - left_width - right_width"
  shows "resize_cell_size w n = (w - left_width - right_width) div max_cols n"
proof -
  have p: "0 < max_cols n" by (rule max_cols_pos)
  have "MIN_CELL \<le> (w - left_width - right_width) div max_cols n"
    using assms p
    by (simp add: zdiv_mono1[of "MIN_CELL * max_cols n" "w - left_width - right_width" "max_cols n", simplified])
  then show ?thesis by (simp add: resize_cell_size_def Let_def)
qed

lemma cell_size_min: "MIN_CELL \<le> resize_cell_size w n"
  by (simp add: resize_cell_size_def Let_def)

text \<open>
  C12: when the card is wide enough for the minimum size, the visible months (at most
  twelve, four columns each) fit in the available width, and the cell is the largest
  integer size that does.
\<close>

theorem cell_size_fits:
  assumes "MIN_CELL * max_cols n \<le> w - left_width - right_width"
  shows "max_cols n * resize_cell_size w n \<le> w - left_width - right_width \<and>
         w - left_width - right_width < max_cols n * (resize_cell_size w n + 1)"
proof -
  have p: "0 < max_cols n" by (rule max_cols_pos)
  show ?thesis
    unfolding cell_size_wide[OF assms]
    using div_upper_int[OF p, of "w - left_width - right_width"] div_lower_int[OF p, of "w - left_width - right_width"]
    by (simp add: algebra_simps)
qed

lemma cell_size_fits_witness:
  "resize_cell_size 1240 12 = 20 \<and> resize_cell_size 1300 12 = 21 \<and> 48 * 21 \<le> (1300::int) - 160 - 120"
  using cell_size_fits[of 12 1300]
  by (simp add: resize_cell_size_def max_cols_def MONTHS_PER_PAGE_def MIN_CELL_def left_width_def
                right_width_def)

lemma scroll_range_bound:
  assumes "MIN_CELL * max_cols (length (view_months v)) \<le> w - left_width - right_width"
  shows "scroll_range v w \<le> int (4 * (length (view_months v) - 12)) * resize_cell_size w (length (view_months v)) \<and>
         (scroll_range v w = 0 \<longleftrightarrow> length (view_months v) \<le> 12)"
proof -
  let ?n = "length (view_months v)" and ?a = "w - left_width - right_width"
  let ?c = "resize_cell_size w ?n"
  have p: "0 < max_cols ?n" by (rule max_cols_pos)
  have c: "?c = ?a div max_cols ?n" by (rule cell_size_wide[OF assms])
  have lo: "max_cols ?n * ?c \<le> ?a" and hi: "?a < max_cols ?n * ?c + max_cols ?n"
    unfolding c using div_upper_int[OF p, of ?a] div_lower_int[OF p, of ?a] by (simp_all add: algebra_simps)
  have min: "20 \<le> ?c" using cell_size_min[of w ?n] by (simp add: MIN_CELL_def)
  have g: "grid_min_width v ?c - w = int (4 * ?n) * ?c - ?a"
    by (simp add: grid_min_width_def total_columns_def algebra_simps)
  show ?thesis
  proof (cases "?n \<le> 12")
    case True
    then have "int (4 * ?n) * ?c \<le> max_cols ?n * ?c"
      using min by (intro mult_right_mono) (simp_all add: max_cols_def MONTHS_PER_PAGE_def)
    then show ?thesis using lo True g by (simp add: scroll_range_def)
  next
    case False
    then have m: "max_cols ?n = 48" by (simp add: max_cols_def MONTHS_PER_PAGE_def)
    have "int (4 * ?n) * ?c = 48 * ?c + int (4 * (?n - 12)) * ?c"
      using False by (simp add: algebra_simps of_nat_diff)
    moreover have "80 \<le> int (4 * (?n - 12)) * ?c"
      using False min by (intro order_trans[OF _ mult_mono[of 4 "int (4 * (?n - 12))" 20 ?c]]) simp_all
    ultimately show ?thesis using lo hi g False unfolding m by (simp add: scroll_range_def)
  qed
qed

text \<open>
  C11: the cell size does what the comment of the effect promises ("so 12 months fit the
  visible card width when possible"): on a card with room for the visible months at the
  minimum size, a calendar of at most twelve months does not scroll at all, and a longer
  one scrolls by at most the width of the months beyond the twelfth, and does scroll.
\<close>

theorem twelve_months_fit_without_scroll:
  assumes "MIN_CELL * max_cols (length (view_months v)) \<le> w - left_width - right_width"
  shows "scroll_range v w \<le> int (4 * (length (view_months v) - 12)) * resize_cell_size w (length (view_months v)) \<and>
         (scroll_range v w = 0 \<longleftrightarrow> length (view_months v) \<le> 12)"
  using assms by (rule scroll_range_bound)

lemma twelve_months_fit_without_scroll_witness:
  "scroll_range \<lparr>view_rows = [], view_timeline = \<lparr>timeline_start = 0, timeline_end = 0, total_days = 1\<rparr>,
                 view_months = replicate 13 \<lparr>month_label = [], month_begin = 0\<rparr>, view_columns = []\<rparr> 1300 \<le> 84 \<and>
   scroll_range \<lparr>view_rows = [], view_timeline = \<lparr>timeline_start = 0, timeline_end = 0, total_days = 1\<rparr>,
                 view_months = replicate 13 \<lparr>month_label = [], month_begin = 0\<rparr>, view_columns = []\<rparr> 1300 \<noteq> 0"
  using twelve_months_fit_without_scroll[of
          "\<lparr>view_rows = [], view_timeline = \<lparr>timeline_start = 0, timeline_end = 0, total_days = 1\<rparr>,
            view_months = replicate 13 \<lparr>month_label = [], month_begin = 0\<rparr>, view_columns = []\<rparr>" 1300]
  by (simp add: resize_cell_size_def max_cols_def MONTHS_PER_PAGE_def MIN_CELL_def left_width_def
                right_width_def)

subsection \<open>The resize effect\<close>

lemma effect_inv_init: "effect_inv effect_init"
  by (simp add: effect_inv_def effect_init_def)

lemma effect_inv_unmounted: "effect_inv s \<Longrightarrow> \<not> mounted s \<Longrightarrow> listeners s = [] \<and> cleanup s = None"
  by (cases "cleanup s") (auto simp: effect_inv_def)

lemma run_cleanup_inv:
  "effect_inv s \<Longrightarrow> listeners (run_cleanup s) = [] \<and> cleanup (run_cleanup s) = None"
  by (cases "cleanup s") (auto simp: effect_inv_def run_cleanup_def)

lemma run_effect_inv:
  "listeners s = [] \<Longrightarrow> mounted s \<Longrightarrow> deps s = m \<Longrightarrow> effect_inv (run_effect s m el w)"
  by (simp add: effect_inv_def run_effect_def Let_def)

lemma effect_step_inv: "effect_inv s \<Longrightarrow> effect_inv (effect_step s e)"
proof (cases e)
  case (Mount m el w)
  assume i: "effect_inv s"
  then show ?thesis
    using Mount effect_inv_unmounted[OF i] by (simp add: run_effect_inv)
next
  case (Rerender m el w)
  assume i: "effect_inv s"
  have "mounted (run_cleanup s)" if "mounted s" using that by (simp add: run_cleanup_def split: option.split)
  then show ?thesis
    using Rerender i run_cleanup_inv[OF i] by (auto intro: run_effect_inv)
next
  case Unmount
  assume i: "effect_inv s"
  then show ?thesis
    using Unmount run_cleanup_inv[OF i] effect_inv_unmounted[OF i] by (auto simp: effect_inv_def)
next
  case (WindowResize w)
  assume "effect_inv s"
  then show ?thesis using WindowResize by (simp add: effect_inv_def)
qed

lemma effect_reachable_inv: "effect_reachable s \<Longrightarrow> effect_inv s"
proof (induction rule: effect_reachable.induct)
  case init
  show ?case by (rule effect_inv_init)
next
  case (step s e)
  from step.IH show ?case by (rule effect_step_inv)
qed

text \<open>
  C13: the effect never leaks a listener: in every reachable state at most one window
  \<open>resize\<close> listener is registered, and none once the component is unmounted.
\<close>

theorem resize_listener_no_leak:
  assumes "effect_reachable s"
  shows "length (listeners s) \<le> 1 \<and> (\<not> mounted s \<longrightarrow> listeners s = [])"
proof -
  have i: "effect_inv s" using assms by (rule effect_reachable_inv)
  then have "length (listeners s) \<le> 1" by (cases "cleanup s") (simp_all add: effect_inv_def)
  moreover have "\<not> mounted s \<longrightarrow> listeners s = []" using effect_inv_unmounted[OF i] by simp
  ultimately show ?thesis ..
qed

lemma resize_listener_no_leak_witness:
  "listeners (effect_step (effect_step (effect_step effect_init (Mount 3 True 1000)) (Rerender 5 True 1000))
                          Unmount) = []"
proof -
  have "effect_reachable (effect_step (effect_step (effect_step effect_init (Mount 3 True 1000))
                                                  (Rerender 5 True 1000)) Unmount)"
    by (intro effect_reachable.step effect_reachable.init)
  from resize_listener_no_leak[OF this] show ?thesis by (simp add: effect_init_def)
qed

lemma effect_resize_cell:
  "effect_inv s \<Longrightarrow> cleanup s \<noteq> None \<Longrightarrow>
     cell_size (effect_step s (WindowResize w)) = resize_cell_size w (deps s)"
  by (auto simp: effect_inv_def)

lemma effect_rerender_registered:
  assumes "effect_inv s" "mounted s" "cleanup s \<noteq> None"
  shows "mounted (effect_step s (Rerender m True w)) \<and> cleanup (effect_step s (Rerender m True w)) \<noteq> None \<and>
         deps (effect_step s (Rerender m True w)) = m"
  using assms by (auto simp: run_effect_def run_cleanup_def Let_def split: option.splits)

lemma effect_run_mounted:
  assumes "effect_inv s" "mounted s" "cleanup s \<noteq> None" "deps s = m" "list_all mounted_event es"
  shows "effect_inv (effect_run s es) \<and> mounted (effect_run s es) \<and> cleanup (effect_run s es) \<noteq> None \<and>
         deps (effect_run s es) = last_render m es"
  using assms
proof (induction es arbitrary: s m)
  case (Cons e es)
  have "effect_inv (effect_step s e)" using Cons.prems(1) by (rule effect_step_inv)
  moreover have "mounted (effect_step s e) \<and> cleanup (effect_step s e) \<noteq> None \<and>
                 deps (effect_step s e) = last_render m [e]"
  proof (cases e)
    case (Rerender m' el w)
    then show ?thesis using Cons.prems effect_rerender_registered[OF Cons.prems(1-3), of m' w]
      by (simp del: effect_step.simps)
  qed (use Cons.prems in simp_all)
  moreover have "last_render m (e # es) = last_render (last_render m [e]) es"
    by (cases e) simp_all
  ultimately show ?case using Cons.IH[of "effect_step s e" "last_render m [e]"] Cons.prems(5)
    by (simp add: effect_run_def)
qed (simp add: effect_run_def)

text \<open>
  C14: no stale closure: mounted with \<open>m\<close> months and re-rendered any number of times
  (each re-render finding the scroller), the component answers a window resize with the
  cell size computed from the month count of the latest render, whether or not that
  render changed it.
\<close>

theorem resize_uses_current_months:
  assumes "list_all mounted_event es"
  shows "cell_size (effect_run effect_init (Mount m True w0 # es @ [WindowResize w])) =
           resize_cell_size w (last_render m es)"
proof -
  let ?s0 = "effect_step effect_init (Mount m True w0)"
  have s0: "effect_inv ?s0" "mounted ?s0" "cleanup ?s0 \<noteq> None" "deps ?s0 = m"
    by (simp_all add: effect_init_def run_effect_def effect_inv_def Let_def)
  note r = effect_run_mounted[OF s0 assms]
  have "effect_run effect_init (Mount m True w0 # es @ [WindowResize w]) =
          effect_step (effect_run ?s0 es) (WindowResize w)"
    by (simp add: effect_run_def)
  then show ?thesis using effect_resize_cell[of "effect_run ?s0 es" w] r by simp
qed

lemma resize_uses_current_months_witness:
  "list_all mounted_event [Rerender 24 True 1000, WindowResize 900, Rerender 24 True 900] \<and>
   cell_size (effect_run effect_init
     [Mount 3 True 1000, Rerender 24 True 1000, WindowResize 900, Rerender 24 True 900, WindowResize 1240]) = 20"
proof -
  have h: "list_all mounted_event [Rerender 24 True 1000, WindowResize 900, Rerender 24 True 900]" by simp
  from resize_uses_current_months[OF h, of 3 1000 1240] show ?thesis
    by (simp add: resize_cell_size_def max_cols_def MONTHS_PER_PAGE_def MIN_CELL_def left_width_def
                  right_width_def)
qed

end
