(* ===== verification/DragScroll.thy ===== *)
theory DragScroll
  imports Prelude
begin

text \<open>
  Drag-to-scroll of \<open>ProjectCalendar\<close> (src/client/src/components/ProjectCalendar.jsx,
  the handlers on the scroller, lines 157--196). The state is the three refs
  (\<open>isDraggingRef\<close>, \<open>startXRef\<close>, \<open>scrollLeftRef\<close>) and the scroller element:
  its \<open>scrollLeft\<close>, its \<open>offsetLeft\<close>, the \<open>cursor-grabbing\<close> class and the largest
  scroll offset the browser allows (\<open>scrollWidth - clientWidth\<close>). Assigning
  \<open>scrollLeft\<close> is clamped by the browser to \<open>[0, max_scroll]\<close>. Each handler is one
  equation of \<open>drag_step\<close>; \<open>TouchCancel\<close> stands for the touch cancellation the
  browser may fire, for which the code registers no handler.
\<close>

record drag_state =
  is_dragging :: bool
  start_x :: int
  saved_scroll :: int
  scroll_left :: int
  offset_left :: int
  max_scroll :: int
  grabbing :: bool

datatype pointer_event =
    MouseDown int
  | MouseMove int
  | MouseUp
  | MouseLeave
  | TouchStart int
  | TouchMove int
  | TouchEnd
  | TouchCancel

text \<open>The browser's clamping of an assignment to \<open>scrollLeft\<close>.\<close>

definition set_scroll_left :: "drag_state \<Rightarrow> int \<Rightarrow> drag_state" where
  "set_scroll_left s v = s\<lparr>scroll_left := max 0 (min (max_scroll s) v)\<rparr>"

text \<open>\<open>walk = (x - startXRef.current) * 1\<close>; \<open>scrollLeft = scrollLeftRef.current - walk\<close>.\<close>

definition drag_move :: "drag_state \<Rightarrow> int \<Rightarrow> drag_state" where
  "drag_move s page_x =
     (if \<not> is_dragging s then s
      else let x = page_x - offset_left s; walk = (x - start_x s) * 1
           in set_scroll_left s (saved_scroll s - walk))"

fun drag_step :: "drag_state \<Rightarrow> pointer_event \<Rightarrow> drag_state" where
  "drag_step s (MouseDown page_x) =
     s\<lparr>is_dragging := True, grabbing := True, start_x := page_x - offset_left s,
       saved_scroll := scroll_left s\<rparr>"
| "drag_step s (MouseMove page_x) = drag_move s page_x"
| "drag_step s MouseUp = s\<lparr>is_dragging := False, grabbing := False\<rparr>"
| "drag_step s MouseLeave = s\<lparr>is_dragging := False, grabbing := False\<rparr>"
| "drag_step s (TouchStart page_x) =
     s\<lparr>is_dragging := True, start_x := page_x - offset_left s, saved_scroll := scroll_left s\<rparr>"
| "drag_step s (TouchMove page_x) = drag_move s page_x"
| "drag_step s TouchEnd = s\<lparr>is_dragging := False\<rparr>"
| "drag_step s TouchCancel = s"

fun drag_run :: "drag_state \<Rightarrow> pointer_event list \<Rightarrow> drag_state" where
  "drag_run s [] = s"
| "drag_run s (e # es) = drag_run (drag_step s e) es"

definition scroll_in_bounds :: "drag_state \<Rightarrow> bool" where
  "scroll_in_bounds s \<longleftrightarrow> 0 \<le> scroll_left s \<and> scroll_left s \<le> max_scroll s"

fun is_move :: "pointer_event \<Rightarrow> bool" where
  "is_move (MouseMove _) = True"
| "is_move (TouchMove _) = True"
| "is_move _ = False"

fun move_x :: "pointer_event \<Rightarrow> int" where
  "move_x (MouseMove x) = x"
| "move_x (TouchMove x) = x"
| "move_x _ = 0"

fun is_mouse :: "pointer_event \<Rightarrow> bool" where
  "is_mouse (MouseDown _) = True"
| "is_mouse (MouseMove _) = True"
| "is_mouse MouseUp = True"
| "is_mouse MouseLeave = True"
| "is_mouse _ = False"

definition clamp_scroll :: "int \<Rightarrow> int \<Rightarrow> int" where
  "clamp_scroll m v = max 0 (min m v)"

subsection \<open>Frame and bounds\<close>

lemma drag_step_frame [simp]:
  "offset_left (drag_step s e) = offset_left s"
  "max_scroll (drag_step s e) = max_scroll s"
  by (cases e; simp add: drag_move_def set_scroll_left_def Let_def)+

lemma drag_run_frame [simp]:
  "offset_left (drag_run s es) = offset_left s"
  "max_scroll (drag_run s es) = max_scroll s"
  by (induction es arbitrary: s) simp_all

lemma drag_step_bounds:
  "0 \<le> max_scroll s \<Longrightarrow> scroll_in_bounds s \<Longrightarrow> scroll_in_bounds (drag_step s e)"
  by (cases e) (auto simp: scroll_in_bounds_def drag_move_def set_scroll_left_def Let_def)

lemma drag_run_bounds:
  assumes "0 \<le> max_scroll s" and "scroll_in_bounds s"
  shows "scroll_in_bounds (drag_run s es)"
  using assms
proof (induction es arbitrary: s)
  case Nil
  then show ?case by simp
next
  case (Cons e es)
  have "scroll_in_bounds (drag_step s e)" using Cons.prems by (rule drag_step_bounds)
  moreover have "0 \<le> max_scroll (drag_step s e)" using Cons.prems(1) by simp
  ultimately show ?case using Cons.IH by simp
qed

lemma drag_moves:
  assumes "is_dragging s" and "list_all is_move xs"
  shows "drag_run s xs =
           (if xs = [] then s
            else s\<lparr>scroll_left := clamp_scroll (max_scroll s)
                      (saved_scroll s - (move_x (last xs) - offset_left s - start_x s))\<rparr>)"
  using assms
proof (induction xs arbitrary: s)
  case Nil
  then show ?case by simp
next
  case (Cons e es)
  from Cons.prems(2) have m: "is_move e" "list_all is_move es" by simp_all
  have step: "drag_step s e = s\<lparr>scroll_left := clamp_scroll (max_scroll s)
                               (saved_scroll s - (move_x e - offset_left s - start_x s))\<rparr>"
    using m(1) Cons.prems(1)
    by (cases e) (simp_all add: drag_move_def set_scroll_left_def clamp_scroll_def Let_def)
  show ?case
  proof (cases "es = []")
    case True
    then show ?thesis using step by simp
  next
    case False
    have "is_dragging (drag_step s e)" using step Cons.prems(1) by simp
    then show ?thesis using Cons.IH[OF _ m(2)] step False by simp
  qed
qed

text \<open>
  C17: drag-to-scroll is a 1:1 mapping without memory of the path: after a press at
  \<open>x0\<close> and any non-empty sequence of moves, the offset is the offset at the press
  minus the distance from \<open>x0\<close> to the last pointer position, clamped by the browser.
\<close>

theorem drag_scroll_one_to_one:
  assumes "p = MouseDown x0 \<or> p = TouchStart x0" and "xs \<noteq> []" and "list_all is_move xs"
  shows "scroll_left (drag_run s (p # xs)) =
           clamp_scroll (max_scroll s) (scroll_left s - (move_x (last xs) - x0))"
proof -
  have d: "is_dragging (drag_step s p)" "saved_scroll (drag_step s p) = scroll_left s"
          "start_x (drag_step s p) = x0 - offset_left s"
    using assms(1) by auto
  show ?thesis using drag_moves[OF d(1) assms(3)] assms(2) d by simp
qed

lemma drag_scroll_one_to_one_witness:
  "scroll_left (drag_run \<lparr>is_dragging = False, start_x = 0, saved_scroll = 0, scroll_left = 100,
                         offset_left = 10, max_scroll = 500, grabbing = False\<rparr>
                        [TouchStart 300, TouchMove 250, TouchMove 260]) = 140"
  using drag_scroll_one_to_one[of "TouchStart 300" 300 "[TouchMove 250, TouchMove 260]"
          "\<lparr>is_dragging = False, start_x = 0, saved_scroll = 0, scroll_left = 100,
            offset_left = 10, max_scroll = 500, grabbing = False\<rparr>"]
  by (simp add: clamp_scroll_def)

text \<open>
  Releasing the mouse button or leaving the area ends the drag and removes the grabbing
  cursor; moves after that change nothing.
\<close>

theorem release_ends_drag:
  assumes "e = MouseUp \<or> e = MouseLeave" and "list_all is_move xs"
  shows "drag_run s (e # xs) = s\<lparr>is_dragging := False, grabbing := False\<rparr>"
proof -
  have "drag_step s e = s\<lparr>is_dragging := False, grabbing := False\<rparr>" using assms(1) by auto
  moreover have "drag_run s' xs = s'" if "\<not> is_dragging s'" for s'
    using that assms(2)
    by (induction xs) (auto simp: drag_move_def elim: is_move.elims)
  ultimately show ?thesis by simp
qed

lemma release_ends_drag_witness:
  "drag_run \<lparr>is_dragging = True, start_x = 0, saved_scroll = 0, scroll_left = 100,
             offset_left = 10, max_scroll = 500, grabbing = True\<rparr> [MouseLeave, MouseMove 400] =
   \<lparr>is_dragging = False, start_x = 0, saved_scroll = 0, scroll_left = 100,
    offset_left = 10, max_scroll = 500, grabbing = False\<rparr>"
  using release_ends_drag[of MouseLeave "[MouseMove 400]"
          "\<lparr>is_dragging = True, start_x = 0, saved_scroll = 0, scroll_left = 100,
            offset_left = 10, max_scroll = 500, grabbing = True\<rparr>"]
  by simp

text \<open>
  C19: with a mouse alone the \<open>cursor-grabbing\<close> class is shown exactly while a drag
  is active. The touch handlers break this: \<open>onTouchEnd\<close> ends a drag without removing
  the class, and with no \<open>touchcancel\<close> handler a cancelled touch leaves the drag
  active, so a later mouse move over the grid scrolls it.
\<close>

theorem grab_cursor_sync:
  "(grabbing s = is_dragging s \<longrightarrow> list_all is_mouse es \<longrightarrow>
      grabbing (drag_run s es) = is_dragging (drag_run s es)) \<and>
   grabbing (drag_run s [MouseDown x, TouchEnd]) \<and> \<not> is_dragging (drag_run s [MouseDown x, TouchEnd]) \<and>
   scroll_left (drag_run s [TouchStart x0, TouchCancel, MouseMove x1]) =
     clamp_scroll (max_scroll s) (scroll_left s - (x1 - x0))"
proof -
  have "grabbing s = is_dragging s \<longrightarrow> list_all is_mouse es \<longrightarrow>
          grabbing (drag_run s es) = is_dragging (drag_run s es)"
  proof (induction es arbitrary: s)
    case Nil
    then show ?case by simp
  next
    case (Cons e es)
    have "grabbing s = is_dragging s \<longrightarrow> is_mouse e \<longrightarrow>
            grabbing (drag_step s e) = is_dragging (drag_step s e)"
      by (cases e) (simp_all add: drag_move_def set_scroll_left_def Let_def)
    with Cons.IH[of "drag_step s e"] show ?case by simp
  qed
  then show ?thesis
    by (simp add: drag_move_def set_scroll_left_def clamp_scroll_def)
qed

lemma grab_cursor_sync_witness:
  "grabbing (drag_run \<lparr>is_dragging = False, start_x = 0, saved_scroll = 0, scroll_left = 100,
                      offset_left = 10, max_scroll = 500, grabbing = False\<rparr>
                     [MouseDown 300, MouseMove 250]) \<and>
   grabbing (drag_run \<lparr>is_dragging = False, start_x = 0, saved_scroll = 0, scroll_left = 100,
                      offset_left = 10, max_scroll = 500, grabbing = False\<rparr> [MouseDown 300, TouchEnd])"
  using grab_cursor_sync[of "\<lparr>is_dragging = False, start_x = 0, saved_scroll = 0, scroll_left = 100,
                              offset_left = 10, max_scroll = 500, grabbing = False\<rparr>"
                            "[MouseDown 300, MouseMove 250]" 300 0 0]
  by (simp add: drag_move_def set_scroll_left_def)

end
