(* ===== verification/Evidence.thy ===== *)
theory Evidence
  imports Prelude
begin

text \<open>
  The evidence endpoint of the server: the controller \<open>addEvidence\<close>
  (src/server/controllers/evidenceController.js, lines 4--46) behind the router
  (src/server/routes/evidenceRoute.js, line 8), whose multer middleware
  \<open>upload.single("attachment")\<close> stores the uploaded file on disk before the controller
  runs. The database is an explicit store: tasks by id (with their project), projects by
  id (with the user ids of their members), the list of evidence records, and the files
  on disk. The request carries the authenticated user id (\<open>None\<close> when the client is
  signed out: \<open>clerkMiddleware\<close> does not reject such requests), the body fields
  (\<open>None\<close> when absent) and the name multer gave to the uploaded file. The response is a
  value of \<open>response\<close>, so every early return and the \<open>catch\<close> are branches of the
  model. \<open>new Date(tanggal)\<close> is a parameter \<open>parse_date\<close> returning \<open>None\<close> for an
  Invalid Date, which Prisma refuses on \<open>create\<close>; \<open>new Date()\<close> is the parameter \<open>now\<close>.
  The message of a Prisma error (\<open>error.code || error.message\<close>) is abbreviated to the
  error's class name \<open>PrismaClientValidationError\<close>.
\<close>

record evidence =
  ev_task :: string
  ev_user :: string
  ev_content :: "string option"
  ev_image_url :: string
  ev_date :: timestamp

record store =
  db_tasks :: "string \<rightharpoonup> string"
  db_projects :: "string \<rightharpoonup> string list"
  db_evidence :: "evidence list"
  db_uploads :: "string list"

record evidence_request =
  req_user :: "string option"
  body_keterangan :: "string option"
  body_tanggal :: "string option"
  body_task_id :: "string option"
  req_file :: "string option"

datatype response =
    Added evidence
  | NotFound string
  | Forbidden string
  | ServerError string

fun status_code :: "response \<Rightarrow> nat" where
  "status_code (Added _) = 200"
| "status_code (NotFound _) = 404"
| "status_code (Forbidden _) = 403"
| "status_code (ServerError _) = 500"

text \<open>\<open>file ? `/uploads/${file.filename}` : ""\<close>\<close>

definition image_url_of :: "string option \<Rightarrow> string" where
  "image_url_of file = (case file of Some f \<Rightarrow> ''/uploads/'' @ f | None \<Rightarrow> '''')"

text \<open>\<open>tanggal ? new Date(tanggal) : new Date()\<close>: the empty string is falsy.\<close>

definition evidence_date ::
  "timestamp \<Rightarrow> (string \<Rightarrow> timestamp option) \<Rightarrow> string option \<Rightarrow> timestamp option" where
  "evidence_date now parse_date tanggal =
     (case tanggal of
        None \<Rightarrow> Some now
      | Some s \<Rightarrow> if s = '''' then Some now else parse_date s)"

text \<open>\<open>project?.members.find((m) => m.userId === userId)\<close>: a missing project and a
  signed-out user (\<open>userId\<close> null) both give no member.\<close>

definition find_member :: "store \<Rightarrow> string \<Rightarrow> string option \<Rightarrow> string option" where
  "find_member db pid uid =
     (case db_projects db pid of
        None \<Rightarrow> None
      | Some members \<Rightarrow> find (\<lambda>m. Some m = uid) members)"

definition add_evidence ::
  "timestamp \<Rightarrow> (string \<Rightarrow> timestamp option) \<Rightarrow> store \<Rightarrow> evidence_request \<Rightarrow> response \<times> store" where
  "add_evidence now parse_date db rq =
     (let image_url = image_url_of (req_file rq) in
      case body_task_id rq of
        None \<Rightarrow> (ServerError ''PrismaClientValidationError'', db)
      | Some tid \<Rightarrow>
          (case db_tasks db tid of
             None \<Rightarrow> (NotFound ''Task not found'', db)
           | Some pid \<Rightarrow>
               (case find_member db pid (req_user rq) of
                  None \<Rightarrow> (Forbidden ''You are not a member of this project'', db)
                | Some uid \<Rightarrow>
                    (case evidence_date now parse_date (body_tanggal rq) of
                       None \<Rightarrow> (ServerError ''PrismaClientValidationError'', db)
                     | Some d \<Rightarrow>
                         (let ev = \<lparr>ev_task = tid, ev_user = uid, ev_content = body_keterangan rq,
                                    ev_image_url = image_url, ev_date = d\<rparr>
                          in (Added ev, db\<lparr>db_evidence := db_evidence db @ [ev]\<rparr>))))))"

text \<open>The route \<open>POST /\<close> of the evidence router: multer first writes the attachment
  to disk, then the controller runs.\<close>

definition multer_single :: "store \<Rightarrow> evidence_request \<Rightarrow> store" where
  "multer_single db rq =
     (case req_file rq of None \<Rightarrow> db | Some f \<Rightarrow> db\<lparr>db_uploads := db_uploads db @ [f]\<rparr>)"

definition evidence_route ::
  "timestamp \<Rightarrow> (string \<Rightarrow> timestamp option) \<Rightarrow> store \<Rightarrow> evidence_request \<Rightarrow> response \<times> store" where
  "evidence_route now parse_date db rq = add_evidence now parse_date (multer_single db rq) rq"

text \<open>Referential integrity of the evidence table: every record names an existing task,
  a member of that task's project, and either no file or a file stored on disk.\<close>

definition evidence_ok :: "store \<Rightarrow> evidence \<Rightarrow> bool" where
  "evidence_ok db ev \<longleftrightarrow>
     (case db_tasks db (ev_task ev) of
        None \<Rightarrow> False
      | Some pid \<Rightarrow> find_member db pid (Some (ev_user ev)) = Some (ev_user ev)) \<and>
     (ev_image_url ev = '''' \<or> (\<exists>f\<in>set (db_uploads db). ev_image_url ev = ''/uploads/'' @ f))"

definition store_inv :: "store \<Rightarrow> bool" where
  "store_inv db \<longleftrightarrow> list_all (evidence_ok db) (db_evidence db)"

fun serve :: "(string \<Rightarrow> timestamp option) \<Rightarrow> store \<Rightarrow> (timestamp \<times> evidence_request) list \<Rightarrow>
               response list \<times> store" where
  "serve parse_date db [] = ([], db)"
| "serve parse_date db ((now, rq) # rqs) =
     (let (r, db1) = evidence_route now parse_date db rq;
          (rs, db2) = serve parse_date db1 rqs
      in (r # rs, db2))"

fun is_added :: "response \<Rightarrow> bool" where
  "is_added (Added _) = True"
| "is_added _ = False"

subsection \<open>The branches of the controller\<close>

lemma find_eq_self: "find (\<lambda>m. m = u) ms = (if u \<in> set ms then Some u else None)"
  by (induction ms) auto

lemma find_False: "find (\<lambda>m. False) ms = None"
  by (induction ms) auto

lemma find_member_Some_iff:
  "find_member db pid uid = Some m \<longleftrightarrow>
     uid = Some m \<and> (\<exists>ms. db_projects db pid = Some ms \<and> m \<in> set ms)"
  by (cases uid) (auto simp: find_member_def find_eq_self find_False split: option.splits)

lemma find_member_None_iff:
  "find_member db pid uid = None \<longleftrightarrow>
     \<not> (\<exists>m ms. uid = Some m \<and> db_projects db pid = Some ms \<and> m \<in> set ms)"
  by (cases uid) (auto simp: find_member_def find_eq_self find_False split: option.splits)

lemma find_member_cong:
  "db_projects db' = db_projects db \<Longrightarrow> find_member db' pid uid = find_member db pid uid"
  by (simp add: find_member_def)

lemma add_evidence_error:
  "\<not> is_added (fst (add_evidence now parse_date db rq)) \<Longrightarrow> snd (add_evidence now parse_date db rq) = db"
  by (auto simp: add_evidence_def Let_def split: option.splits)

lemma add_evidence_added:
  assumes "add_evidence now parse_date db rq = (Added ev, db')"
  shows "body_task_id rq = Some (ev_task ev) \<and> req_user rq = Some (ev_user ev) \<and>
         (\<exists>pid. db_tasks db (ev_task ev) = Some pid \<and>
                find_member db pid (Some (ev_user ev)) = Some (ev_user ev)) \<and>
         ev_content ev = body_keterangan rq \<and> ev_image_url ev = image_url_of (req_file rq) \<and>
         evidence_date now parse_date (body_tanggal rq) = Some (ev_date ev) \<and>
         db' = db\<lparr>db_evidence := db_evidence db @ [ev]\<rparr>"
  using assms
  by (auto simp: add_evidence_def Let_def find_member_Some_iff split: option.splits)

lemma multer_single_fields [simp]:
  "db_tasks (multer_single db rq) = db_tasks db"
  "db_projects (multer_single db rq) = db_projects db"
  "db_evidence (multer_single db rq) = db_evidence db"
  by (simp_all add: multer_single_def split: option.splits)

lemma evidence_ok_mono:
  assumes "db_tasks db' = db_tasks db" "db_projects db' = db_projects db"
          "set (db_uploads db) \<subseteq> set (db_uploads db')"
  shows "evidence_ok db ev \<Longrightarrow> evidence_ok db' ev"
  using assms find_member_cong[of db' db] by (auto simp: evidence_ok_def split: option.splits)

lemma store_inv_mono:
  assumes "db_tasks db' = db_tasks db" "db_projects db' = db_projects db"
          "set (db_uploads db) \<subseteq> set (db_uploads db')" "store_inv db"
  shows "list_all (evidence_ok db') (db_evidence db)"
  using assms(4) evidence_ok_mono[OF assms(1-3)] by (simp add: store_inv_def list_all_iff)

lemma evidence_route_inv:
  assumes "store_inv db"
  shows "store_inv (snd (evidence_route now parse_date db rq))"
proof -
  let ?db1 = "multer_single db rq"
  have up: "set (db_uploads db) \<subseteq> set (db_uploads ?db1)"
    by (auto simp: multer_single_def split: option.splits)
  have inv1: "store_inv ?db1"
    using store_inv_mono[OF _ _ up assms] by (simp add: store_inv_def)
  show ?thesis
  proof (cases "add_evidence now parse_date ?db1 rq")
    case (Pair r db')
    show ?thesis
    proof (cases "is_added r")
      case False
      then show ?thesis using add_evidence_error[of now parse_date ?db1 rq] inv1 Pair
        by (simp add: evidence_route_def)
    next
      case True
      then obtain ev where r: "r = Added ev" by (cases r) simp_all
      have a: "body_task_id rq = Some (ev_task ev)" "req_user rq = Some (ev_user ev)"
        "\<exists>pid. db_tasks db (ev_task ev) = Some pid \<and> find_member ?db1 pid (Some (ev_user ev)) = Some (ev_user ev)"
        "ev_image_url ev = image_url_of (req_file rq)"
        "db' = ?db1\<lparr>db_evidence := db_evidence ?db1 @ [ev]\<rparr>"
        using add_evidence_added[of now parse_date ?db1 rq ev db'] Pair r by simp_all
      have same: "db_tasks db' = db_tasks ?db1" "db_projects db' = db_projects ?db1"
                 "set (db_uploads ?db1) \<subseteq> set (db_uploads db')"
        using a(5) by simp_all
      have img: "ev_image_url ev = [] \<or> (\<exists>f\<in>set (db_uploads ?db1). ev_image_url ev = ''/uploads/'' @ f)"
        using a(4) by (auto simp: image_url_of_def multer_single_def split: option.splits)
      have "evidence_ok db' ev"
        using a(3) img same unfolding evidence_ok_def
        by (auto simp: find_member_cong[OF same(2)])
      moreover have "list_all (evidence_ok db') (db_evidence ?db1)"
        by (rule store_inv_mono[OF same inv1])
      ultimately show ?thesis using a(5) Pair by (simp add: evidence_route_def store_inv_def)
    qed
  qed
qed

lemma evidence_route_count:
  "length (db_evidence (snd (evidence_route now parse_date db rq))) =
     length (db_evidence db) + (if is_added (fst (evidence_route now parse_date db rq)) then 1 else 0)"
proof (cases "evidence_route now parse_date db rq")
  case (Pair r db')
  then have e: "add_evidence now parse_date (multer_single db rq) rq = (r, db')"
    by (simp add: evidence_route_def)
  show ?thesis
  proof (cases r)
    case (Added ev)
    then show ?thesis using add_evidence_added[OF e[unfolded Added]] Pair by simp
  qed (use add_evidence_error[of now parse_date "multer_single db rq" rq] e Pair in simp_all)
qed

subsection \<open>Properties of the endpoint\<close>

text \<open>
  C20: evidence is only ever created for the signed-in user, on an existing task, when
  that user is a member of the task's project.
\<close>

theorem evidence_only_by_members:
  assumes "fst (evidence_route now parse_date db rq) = Added ev"
  shows "req_user rq = Some (ev_user ev) \<and> body_task_id rq = Some (ev_task ev) \<and>
         (\<exists>pid ms. db_tasks db (ev_task ev) = Some pid \<and> db_projects db pid = Some ms \<and>
                   ev_user ev \<in> set ms)"
proof -
  obtain db' where "add_evidence now parse_date (multer_single db rq) rq = (Added ev, db')"
    using assms by (cases "evidence_route now parse_date db rq") (simp add: evidence_route_def)
  from add_evidence_added[OF this] show ?thesis by (auto simp: find_member_Some_iff)
qed

lemma evidence_only_by_members_witness:
  "fst (evidence_route 7 (\<lambda>_. None)
          \<lparr>db_tasks = [''t1'' \<mapsto> ''p1''], db_projects = [''p1'' \<mapsto> [''u0'', ''u1'']],
            db_evidence = [], db_uploads = []\<rparr>
          \<lparr>req_user = Some ''u1'', body_keterangan = Some ''done'', body_tanggal = Some [],
            body_task_id = Some ''t1'', req_file = None\<rparr>) =
     Added \<lparr>ev_task = ''t1'', ev_user = ''u1'', ev_content = Some ''done'', ev_image_url = [],
            ev_date = 7\<rparr> \<and>
   (\<exists>pid ms. [''t1'' \<mapsto> ''p1''] ''t1'' = Some pid \<and> [''p1'' \<mapsto> [''u0'', ''u1'']] pid = Some ms \<and>
             ''u1'' \<in> set ms) \<and>
   (\<forall>ev. fst (evidence_route 7 (\<lambda>_. None)
          \<lparr>db_tasks = [''t1'' \<mapsto> ''p1''], db_projects = [''p1'' \<mapsto> [''u0'', ''u1'']],
            db_evidence = [], db_uploads = []\<rparr>
          \<lparr>req_user = Some ''u2'', body_keterangan = Some ''done'', body_tanggal = Some [],
            body_task_id = Some ''t1'', req_file = None\<rparr>) \<noteq> Added ev)"
proof -
  have h: "fst (evidence_route 7 (\<lambda>_. None)
          \<lparr>db_tasks = [''t1'' \<mapsto> ''p1''], db_projects = [''p1'' \<mapsto> [''u0'', ''u1'']],
            db_evidence = [], db_uploads = []\<rparr>
          \<lparr>req_user = Some ''u1'', body_keterangan = Some ''done'', body_tanggal = Some [],
            body_task_id = Some ''t1'', req_file = None\<rparr>) =
     Added \<lparr>ev_task = ''t1'', ev_user = ''u1'', ev_content = Some ''done'', ev_image_url = [],
            ev_date = 7\<rparr>"
    by (simp add: evidence_route_def multer_single_def add_evidence_def find_member_def
                  evidence_date_def image_url_of_def Let_def)
  have n: "fst (evidence_route 7 (\<lambda>_. None)
          \<lparr>db_tasks = [''t1'' \<mapsto> ''p1''], db_projects = [''p1'' \<mapsto> [''u0'', ''u1'']],
            db_evidence = [], db_uploads = []\<rparr>
          \<lparr>req_user = Some ''u2'', body_keterangan = Some ''done'', body_tanggal = Some [],
            body_task_id = Some ''t1'', req_file = None\<rparr>) \<noteq> Added ev" for ev
  proof
    assume "fst (evidence_route 7 (\<lambda>_. None)
          \<lparr>db_tasks = [''t1'' \<mapsto> ''p1''], db_projects = [''p1'' \<mapsto> [''u0'', ''u1'']],
            db_evidence = [], db_uploads = []\<rparr>
          \<lparr>req_user = Some ''u2'', body_keterangan = Some ''done'', body_tanggal = Some [],
            body_task_id = Some ''t1'', req_file = None\<rparr>) = Added ev"
    from evidence_only_by_members[OF this] show False by auto
  qed
  show ?thesis using h n evidence_only_by_members[OF h] by simp
qed

text \<open>
  C21: a request naming an existing task, from a member of its project, with an empty,
  absent or valid date, appends exactly one evidence record holding the task id, the user
  id, the note, \<open>/uploads/<filename>\<close> (or the empty string without a file) and the
  given date (the request time when none is given); nothing else of the store changes.
\<close>

theorem add_evidence_success:
  assumes "body_task_id rq = Some tid" and "db_tasks db tid = Some pid"
      and "db_projects db pid = Some ms" and "req_user rq = Some u" and "u \<in> set ms"
      and "evidence_date now parse_date (body_tanggal rq) = Some d"
  shows "add_evidence now parse_date db rq =
           (Added \<lparr>ev_task = tid, ev_user = u, ev_content = body_keterangan rq,
                   ev_image_url = image_url_of (req_file rq), ev_date = d\<rparr>,
            db\<lparr>db_evidence := db_evidence db @
                 [\<lparr>ev_task = tid, ev_user = u, ev_content = body_keterangan rq,
                   ev_image_url = image_url_of (req_file rq), ev_date = d\<rparr>]\<rparr>)"
proof -
  have "find_member db pid (req_user rq) = Some u"
    using assms(3-5) by (simp add: find_member_Some_iff)
  then show ?thesis using assms(1,2,4,6) by (simp add: add_evidence_def Let_def)
qed

lemma add_evidence_success_witness:
  "add_evidence 7 (\<lambda>_. None)
     \<lparr>db_tasks = [''t1'' \<mapsto> ''p1''], db_projects = [''p1'' \<mapsto> [''u0'', ''u1'']],
      db_evidence = [], db_uploads = [''a.png'']\<rparr>
     \<lparr>req_user = Some ''u1'', body_keterangan = Some ''done'', body_tanggal = Some [],
      body_task_id = Some ''t1'', req_file = Some ''a.png''\<rparr> =
   (Added \<lparr>ev_task = ''t1'', ev_user = ''u1'', ev_content = Some ''done'',
           ev_image_url = ''/uploads/a.png'', ev_date = 7\<rparr>,
    \<lparr>db_tasks = [''t1'' \<mapsto> ''p1''], db_projects = [''p1'' \<mapsto> [''u0'', ''u1'']],
     db_evidence = [\<lparr>ev_task = ''t1'', ev_user = ''u1'', ev_content = Some ''done'',
                     ev_image_url = ''/uploads/a.png'', ev_date = 7\<rparr>],
     db_uploads = [''a.png'']\<rparr>)"
  using add_evidence_success[of
          "\<lparr>req_user = Some ''u1'', body_keterangan = Some ''done'', body_tanggal = Some [],
            body_task_id = Some ''t1'', req_file = Some ''a.png''\<rparr>" "''t1''"
          "\<lparr>db_tasks = [''t1'' \<mapsto> ''p1''], db_projects = [''p1'' \<mapsto> [''u0'', ''u1'']],
            db_evidence = [], db_uploads = [''a.png'']\<rparr>" "''p1''" "[''u0'', ''u1'']" "''u1''"
          7 "\<lambda>_. None" 7]
  by (simp add: evidence_date_def image_url_of_def)

text \<open>
  C22: a rejected request (404, 403 or 500) changes no task, project or evidence record,
  but the attachment multer stored before the controller ran stays on disk, referenced by
  no record: also for a signed-out client.
\<close>

theorem rejected_request_keeps_upload:
  assumes "\<not> is_added (fst (evidence_route now parse_date db rq))"
  shows "snd (evidence_route now parse_date db rq) =
           db\<lparr>db_uploads := db_uploads db @ (case req_file rq of None \<Rightarrow> [] | Some f \<Rightarrow> [f])\<rparr>"
proof -
  have "snd (add_evidence now parse_date (multer_single db rq) rq) = multer_single db rq"
    using assms add_evidence_error by (simp add: evidence_route_def)
  then show ?thesis by (simp add: evidence_route_def multer_single_def split: option.splits)
qed

lemma rejected_request_keeps_upload_witness:
  "snd (evidence_route 7 (\<lambda>_. None)
     \<lparr>db_tasks = [''t1'' \<mapsto> ''p1''], db_projects = [''p1'' \<mapsto> [''u1'']],
      db_evidence = [], db_uploads = []\<rparr>
     \<lparr>req_user = None, body_keterangan = Some ''x'', body_tanggal = Some [],
      body_task_id = Some ''t1'', req_file = Some ''big.bin''\<rparr>) =
   \<lparr>db_tasks = [''t1'' \<mapsto> ''p1''], db_projects = [''p1'' \<mapsto> [''u1'']],
    db_evidence = [], db_uploads = [''big.bin'']\<rparr>"
  using rejected_request_keeps_upload[of 7 "\<lambda>_. None"
          "\<lparr>db_tasks = [''t1'' \<mapsto> ''p1''], db_projects = [''p1'' \<mapsto> [''u1'']],
            db_evidence = [], db_uploads = []\<rparr>"
          "\<lparr>req_user = None, body_keterangan = Some ''x'', body_tanggal = Some [],
            body_task_id = Some ''t1'', req_file = Some ''big.bin''\<rparr>"]
  by (simp add: evidence_route_def multer_single_def add_evidence_def find_member_def find_False)

text \<open>
  C23: the controller looks the task up before it checks membership, so a client that is
  a member of no project (or is signed out) learns whether a task id exists: it gets 404
  for an unknown id and 403 for an existing one.
\<close>

theorem task_existence_disclosed:
  assumes "\<forall>pid ms. db_projects db pid = Some ms \<longrightarrow> (\<forall>u. req_user rq = Some u \<longrightarrow> u \<notin> set ms)"
      and "body_task_id rq = Some tid"
  shows "status_code (fst (add_evidence now parse_date db rq)) =
           (if db_tasks db tid = None then 404 else 403)"
proof (cases "db_tasks db tid")
  case None
  then show ?thesis using assms(2) by (simp add: add_evidence_def)
next
  case (Some pid)
  have "find_member db pid (req_user rq) = None"
    using assms(1) by (auto simp: find_member_None_iff)
  then show ?thesis using assms(2) Some by (simp add: add_evidence_def)
qed

lemma task_existence_disclosed_witness:
  "status_code (fst (add_evidence 7 (\<lambda>_. None)
     \<lparr>db_tasks = [''t1'' \<mapsto> ''p1''], db_projects = [''p1'' \<mapsto> [''u1'']],
      db_evidence = [], db_uploads = []\<rparr>
     \<lparr>req_user = Some ''mallory'', body_keterangan = None, body_tanggal = None,
      body_task_id = Some ''t1'', req_file = None\<rparr>)) = 403"
  using task_existence_disclosed[of
          "\<lparr>db_tasks = [''t1'' \<mapsto> ''p1''], db_projects = [''p1'' \<mapsto> [''u1'']],
            db_evidence = [], db_uploads = []\<rparr>"
          "\<lparr>req_user = Some ''mallory'', body_keterangan = None, body_tanggal = None,
            body_task_id = Some ''t1'', req_file = None\<rparr>" "''t1''" 7 "\<lambda>_. None"]
  by simp

text \<open>
  C24: served one after another, requests keep the evidence table referentially intact
  (each record names an existing task, a member of its project, and a stored file or
  none), and the table grows by exactly the number of successful responses.
\<close>

theorem serve_preserves_store_inv:
  assumes "store_inv db"
  shows "store_inv (snd (serve parse_date db rqs)) \<and>
         length (db_evidence (snd (serve parse_date db rqs))) =
           length (db_evidence db) + length (filter is_added (fst (serve parse_date db rqs)))"
  using assms
proof (induction rqs arbitrary: db)
  case Nil
  then show ?case by simp
next
  case (Cons q rqs)
  obtain now rq where q: "q = (now, rq)" by (cases q)
  obtain r db1 where e: "evidence_route now parse_date db rq = (r, db1)" by fastforce
  have inv1: "store_inv db1" using evidence_route_inv[OF Cons.prems, of now parse_date rq] e by simp
  have len1: "length (db_evidence db1) = length (db_evidence db) + (if is_added r then 1 else 0)"
    using evidence_route_count[of now parse_date db rq] e by simp
  obtain rs db2 where s: "serve parse_date db1 rqs = (rs, db2)" by fastforce
  show ?case
    using Cons.IH[OF inv1] len1 by (simp add: q e s)
qed

lemma serve_preserves_store_inv_witness:
  "length (db_evidence (snd (serve (\<lambda>_. None)
     \<lparr>db_tasks = [''t1'' \<mapsto> ''p1''], db_projects = [''p1'' \<mapsto> [''u1'']],
      db_evidence = [], db_uploads = []\<rparr>
     [(5, \<lparr>req_user = Some ''u1'', body_keterangan = Some ''a'', body_tanggal = None,
           body_task_id = Some ''t1'', req_file = Some ''a.png''\<rparr>),
      (6, \<lparr>req_user = Some ''u2'', body_keterangan = Some ''b'', body_tanggal = None,
           body_task_id = Some ''t1'', req_file = None\<rparr>)]))) = 1"
  using serve_preserves_store_inv[of
          "\<lparr>db_tasks = [''t1'' \<mapsto> ''p1''], db_projects = [''p1'' \<mapsto> [''u1'']],
            db_evidence = [], db_uploads = []\<rparr>" "\<lambda>_. None"
          "[(5, \<lparr>req_user = Some ''u1'', body_keterangan = Some ''a'', body_tanggal = None,
                 body_task_id = Some ''t1'', req_file = Some ''a.png''\<rparr>),
            (6, \<lparr>req_user = Some ''u2'', body_keterangan = Some ''b'', body_tanggal = None,
                 body_task_id = Some ''t1'', req_file = None\<rparr>)]"]
  by (simp add: store_inv_def evidence_route_def multer_single_def add_evidence_def
                find_member_def evidence_date_def Let_def)

end
