(* ===== verification/Server.thy ===== *)
theory Server
  imports Prelude
begin

text \<open>
  The Express application of src/server/server.js and the evidence router of
  src/server/routes/evidenceRoute.js. An application is its stack of layers in
  registration order: middleware that always passes the request on (\<open>express.json\<close>,
  \<open>cors\<close>, \<open>clerkMiddleware\<close>), routes for one method and path (\<open>app.get\<close>,
  \<open>router.post\<close>), handlers mounted on a path prefix (\<open>app.use(path, handler)\<close>) and
  routers mounted on a prefix, whose own layers see the path with the prefix removed.
  \<open>dispatch\<close> returns the handler of the first layer that matches; \<open>None\<close> is
  Express's final handler, which answers 404 \<open>Cannot METHOD path\<close>. Paths are matched
  case-sensitively and with an optional trailing slash; query strings are not modelled.
  Start-up (\<open>boot\<close>) refuses to run without a Clerk publishable key and listens on
  \<open>PORT\<close>, 5000 by default. \<open>AppHandler\<close> names a handler of the application that
  is not part of these sources (such as the weekly-progress endpoint the dialog calls).
\<close>

datatype http_method = GET | POST | PUT | PATCH | DELETE

datatype handler = ServerLive | InngestServe | AddEvidence | AppHandler string

datatype layer =
    Middleware string
  | Route http_method string handler
  | Mount string handler
  | UseRouter string "layer list"

text \<open>A route path matches the request path up to one optional trailing slash (the
  non-strict \<open>path-to-regexp\<close> pattern \<open>^p/?$\<close>, with a trailing slash of \<open>p\<close> itself
  made optional); the empty path left after stripping a mount prefix stands for \<open>/\<close>.\<close>

definition route_matches :: "string \<Rightarrow> string \<Rightarrow> bool" where
  "route_matches p path \<longleftrightarrow>
     (let p' = (if p \<noteq> [] \<and> last p = CHR ''/'' then butlast p else p);
          q = (if path = [] then ''/'' else path)
      in q = p' \<or> q = p' @ ''/'')"

text \<open>A mount prefix matches at a segment boundary.\<close>

definition prefix_matches :: "string \<Rightarrow> string \<Rightarrow> bool" where
  "prefix_matches p path \<longleftrightarrow> path = p \<or> take (Suc (length p)) path = p @ ''/''"

definition strip_prefix :: "string \<Rightarrow> string \<Rightarrow> string" where
  "strip_prefix p path = drop (length p) path"

fun dispatch :: "layer list \<Rightarrow> http_method \<Rightarrow> string \<Rightarrow> handler option" where
  "dispatch [] m path = None"
| "dispatch (Middleware _ # ls) m path = dispatch ls m path"
| "dispatch (Route m' p h # ls) m path =
     (if m' = m \<and> route_matches p path then Some h else dispatch ls m path)"
| "dispatch (Mount p h # ls) m path =
     (if prefix_matches p path then Some h else dispatch ls m path)"
| "dispatch (UseRouter p rs # ls) m path =
     (case (if prefix_matches p path then dispatch rs m (strip_prefix p path) else None) of
        Some h \<Rightarrow> Some h
      | None \<Rightarrow> dispatch ls m path)"

text \<open>evidenceRoute.js: \<open>evidenceRouter.post("/", upload.single("attachment"), addEvidence)\<close>.\<close>

definition evidence_router :: "layer list" where
  "evidence_router = [Route POST ''/'' AddEvidence]"

text \<open>server.js, lines 13--23.\<close>

definition app_layers :: "layer list" where
  "app_layers =
     [Middleware ''express.json'', Middleware ''cors'', Middleware ''clerkMiddleware'',
      Route GET ''/'' ServerLive, Mount ''/api/inngest'' InngestServe]"

datatype boot_result = BootError string | Listening string "layer list"

text \<open>server.js, lines 9--11 and 25--27: a missing or empty key throws before the
  application is built; \<open>process.env.PORT || 5000\<close>.\<close>

definition boot :: "string option \<Rightarrow> string option \<Rightarrow> boot_result" where
  "boot clerk_key port =
     (if clerk_key = None \<or> clerk_key = Some [] then BootError ''Missing Clerk Publishable Key''
      else Listening (case port of Some p \<Rightarrow> if p = [] then ''5000'' else p | None \<Rightarrow> ''5000'')
                     app_layers)"

subsection \<open>Routing\<close>

lemma dispatch_append_None:
  "dispatch ls m path = None \<Longrightarrow> dispatch (ls @ ls') m path = dispatch ls' m path"
  by (induction ls m path rule: dispatch.induct) (auto split: if_splits option.splits)

lemma dispatch_evidence_router:
  "dispatch evidence_router m path =
     (if m = POST \<and> (path = [] \<or> path = ''/'') then Some AddEvidence else None)"
  by (auto simp: evidence_router_def route_matches_def)

lemma prefix_matches_append:
  "prefix_matches p (p @ rest) \<longleftrightarrow> rest = [] \<or> hd rest = CHR ''/''"
  by (cases rest) (auto simp: prefix_matches_def)

lemma dispatch_mounted_evidence_router:
  "dispatch [UseRouter p evidence_router] m (p @ rest) =
     (if m = POST \<and> (rest = [] \<or> rest = ''/'') then Some AddEvidence else None)"
  by (cases rest) (auto simp: prefix_matches_append prefix_matches_def strip_prefix_def dispatch_evidence_router)

text \<open>
  C25: the application built by server.js answers only \<open>GET /\<close> and the Inngest
  endpoint: every request to \<open>/api/evidences\<close> (the dialog's upload) or to
  \<open>/api/weekly-progress\<close>, with any method and any suffix, falls through to Express's
  404, because the evidence router is never mounted. Mounted at a prefix, the router
  would take exactly \<open>POST\<close> on that prefix, with or without a trailing slash.
\<close>

theorem evidence_endpoint_unrouted:
  "dispatch app_layers m (''/api/evidences'' @ rest) = None \<and>
   dispatch app_layers m (''/api/weekly-progress'' @ rest) = None \<and>
   dispatch (app_layers @ [UseRouter ''/api/evidences'' evidence_router]) m (''/api/evidences'' @ rest) =
     (if m = POST \<and> (rest = [] \<or> rest = ''/'') then Some AddEvidence else None)"
proof -
  have a: "dispatch app_layers m (''/api/evidences'' @ rest) = None"
    by (simp add: app_layers_def route_matches_def prefix_matches_def)
  have b: "dispatch app_layers m (''/api/weekly-progress'' @ rest) = None"
    by (simp add: app_layers_def route_matches_def prefix_matches_def)
  have c: "dispatch [UseRouter ''/api/evidences'' evidence_router] m (''/api/evidences'' @ rest) =
             (if m = POST \<and> (rest = [] \<or> rest = ''/'') then Some AddEvidence else None)"
    by (rule dispatch_mounted_evidence_router)
  show ?thesis using a b c dispatch_append_None[OF a] by simp
qed

text \<open>
  Start-up: the server starts only with a non-empty Clerk publishable key, and then
  listens on \<open>PORT\<close> (5000 when unset or empty) with the application of server.js.
\<close>

theorem boot_requires_clerk_key:
  "((\<exists>e. boot key port = BootError e) \<longleftrightarrow> key = None \<or> key = Some []) \<and>
   (key = Some k \<longrightarrow> k \<noteq> [] \<longrightarrow>
     boot key port = Listening (if port = None \<or> port = Some [] then ''5000'' else the port) app_layers)"
  by (auto simp: boot_def split: option.splits)

lemma boot_requires_clerk_key_witness:
  "boot (Some ''pk_test_1'') None = Listening ''5000'' app_layers"
  using boot_requires_clerk_key[of "Some ''pk_test_1''" None "''pk_test_1''"] by simp

end
