(* ===== verification/Dialog.thy ===== *)
theory Dialog
  imports Calendar
begin

text \<open>
  The evidence form \<open>AddFileDialog\<close> (src/client/src/components/AddFileDialog.jsx).
  Its state is the React state (\<open>isSubmitting\<close>, \<open>formData\<close>), the parent's
  \<open>showDialog\<close>, the toasts shown, the number of \<open>onSuccess\<close> calls and the log of the
  HTTP requests sent. The backend is an interface: a function \<open>api\<close> from a server state
  of any type \<open>'srv\<close>, a path and a payload to a reply and the next server state, so the
  dialog's lemmas hold for every server and the root theory plugs in the modelled one.
  \<open>handleSubmit\<close> is \<open>handle_submit\<close>: its \<open>await\<close>s are the two calls of \<open>api\<close> in
  order, an axios rejection (any non-2xx reply) jumps to the \<open>catch\<close>, and the
  \<open>finally\<close> clears \<open>isSubmitting\<close> on every path. \<open>getWeekIndexForDate(new
  Date(tanggal), visibleColumns)\<close> is the parameter \<open>week_index\<close>; \<open>getToken\<close> only
  supplies the bearer header and is not modelled.
\<close>

record form =
  f_tanggal :: string
  f_keterangan :: string
  f_attachment :: "string option"

datatype payload =
    WeeklyProgressBody string int string
  | EvidenceFormData string string string "string option"

datatype api_reply = ApiOk "string option" | ApiFail nat "string option"

datatype toast = ToastSuccess string | ToastError string

record dialog_state =
  show_dialog :: bool
  is_submitting :: bool
  form_data :: form
  toasts :: "toast list"
  success_calls :: nat
  sent :: "(string \<times> payload) list"

type_synonym 'srv api = "'srv \<Rightarrow> string \<Rightarrow> payload \<Rightarrow> api_reply \<times> 'srv"

definition empty_form :: form where
  "empty_form = \<lparr>f_tanggal = [], f_keterangan = [], f_attachment = None\<rparr>"

definition dialog_init :: dialog_state where
  "dialog_init = \<lparr>show_dialog = False, is_submitting = False, form_data = empty_form,
                  toasts = [], success_calls = 0, sent = []\<rparr>"

text \<open>The inputs' \<open>onChange\<close> handlers and \<open>handleFileChange\<close>
  (\<open>e.target.files[0]\<close> is undefined when the file picker is cancelled).\<close>

definition set_tanggal :: "dialog_state \<Rightarrow> string \<Rightarrow> dialog_state" where
  "set_tanggal st v = st\<lparr>form_data := (form_data st)\<lparr>f_tanggal := v\<rparr>\<rparr>"

definition set_keterangan :: "dialog_state \<Rightarrow> string \<Rightarrow> dialog_state" where
  "set_keterangan st v = st\<lparr>form_data := (form_data st)\<lparr>f_keterangan := v\<rparr>\<rparr>"

definition handle_file_change :: "dialog_state \<Rightarrow> string option \<Rightarrow> dialog_state" where
  "handle_file_change st f = st\<lparr>form_data := (form_data st)\<lparr>f_attachment := f\<rparr>\<rparr>"

text \<open>The Cancel button: \<open>setShowDialog(false)\<close>, the form is kept.\<close>

definition cancel_dialog :: "dialog_state \<Rightarrow> dialog_state" where
  "cancel_dialog st = st\<lparr>show_dialog := False\<rparr>"

text \<open>\<open>error?.response?.data?.message || error.message\<close>; axios's message for a
  non-2xx reply is \<open>Request failed with status code N\<close>.\<close>

definition error_message :: "nat \<Rightarrow> string option \<Rightarrow> string" where
  "error_message code msg =
     (case msg of
        Some m \<Rightarrow> if m = [] then ''Request failed with status code '' @ decimal code else m
      | None \<Rightarrow> ''Request failed with status code '' @ decimal code)"

definition submit_failed :: "dialog_state \<Rightarrow> nat \<Rightarrow> string option \<Rightarrow> dialog_state" where
  "submit_failed st code msg =
     st\<lparr>toasts := toasts st @ [ToastError (error_message code msg)], is_submitting := False\<rparr>"

text \<open>\<open>data.message || "Evidence added successfully"\<close>\<close>

definition success_message :: "string option \<Rightarrow> string" where
  "success_message msg =
     (case msg of Some m \<Rightarrow> if m = [] then ''Evidence added successfully'' else m
                | None \<Rightarrow> ''Evidence added successfully'')"

definition submit_succeeded :: "dialog_state \<Rightarrow> string option \<Rightarrow> dialog_state" where
  "submit_succeeded st msg =
     st\<lparr>toasts := toasts st @ [ToastSuccess (success_message msg)],
        success_calls := Suc (success_calls st), show_dialog := False, form_data := empty_form,
        is_submitting := False\<rparr>"

definition handle_submit ::
  "'srv api \<Rightarrow> string \<Rightarrow> (string \<Rightarrow> int) \<Rightarrow> dialog_state \<times> 'srv \<Rightarrow> dialog_state \<times> 'srv" where
  "handle_submit api task_id week_index stv =
     (let (st, srv) = stv;
          st1 = st\<lparr>is_submitting := True\<rparr>;
          f = form_data st;
          wp = WeeklyProgressBody task_id (week_index (f_tanggal f)) (f_tanggal f);
          st2 = st1\<lparr>sent := sent st1 @ [(''/api/weekly-progress'', wp)]\<rparr>
      in case api srv ''/api/weekly-progress'' wp of
           (ApiFail code msg, srv1) \<Rightarrow> (submit_failed st2 code msg, srv1)
         | (ApiOk _, srv1) \<Rightarrow>
             (let ev = EvidenceFormData (f_tanggal f) (f_keterangan f) task_id (f_attachment f);
                  st3 = st2\<lparr>sent := sent st2 @ [(''/api/evidences'', ev)]\<rparr>
              in case api srv1 ''/api/evidences'' ev of
                   (ApiFail code msg, srv2) \<Rightarrow> (submit_failed st3 code msg, srv2)
                 | (ApiOk msg, srv2) \<Rightarrow> (submit_succeeded st3 msg, srv2)))"

subsection \<open>Properties of the submission\<close>

lemma handle_submit_cases:
  "handle_submit api task_id week_index (st, srv) =
     (let f = form_data st;
          wp = WeeklyProgressBody task_id (week_index (f_tanggal f)) (f_tanggal f);
          ev = EvidenceFormData (f_tanggal f) (f_keterangan f) task_id (f_attachment f);
          st2 = st\<lparr>is_submitting := True, sent := sent st @ [(''/api/weekly-progress'', wp)]\<rparr>;
          st3 = st\<lparr>is_submitting := True, sent := sent st @ [(''/api/weekly-progress'', wp), (''/api/evidences'', ev)]\<rparr>
      in case api srv ''/api/weekly-progress'' wp of
           (ApiFail code msg, srv1) \<Rightarrow> (submit_failed st2 code msg, srv1)
         | (ApiOk _, srv1) \<Rightarrow>
             (case api srv1 ''/api/evidences'' ev of
                (ApiFail code msg, srv2) \<Rightarrow> (submit_failed st3 code msg, srv2)
              | (ApiOk msg, srv2) \<Rightarrow> (submit_succeeded st3 msg, srv2)))"
  by (simp add: handle_submit_def Let_def split: prod.split api_reply.split)

lemma submit_failed_fields [simp]:
  "show_dialog (submit_failed st c m) = show_dialog st"
  "form_data (submit_failed st c m) = form_data st"
  "success_calls (submit_failed st c m) = success_calls st"
  "is_submitting (submit_failed st c m) = False"
  "sent (submit_failed st c m) = sent st"
  "toasts (submit_failed st c m) = toasts st @ [ToastError (error_message c m)]"
  by (simp_all add: submit_failed_def)

lemma submit_succeeded_fields [simp]:
  "show_dialog (submit_succeeded st m) = False"
  "form_data (submit_succeeded st m) = empty_form"
  "success_calls (submit_succeeded st m) = Suc (success_calls st)"
  "is_submitting (submit_succeeded st m) = False"
  "sent (submit_succeeded st m) = sent st"
  "toasts (submit_succeeded st m) = toasts st @ [ToastSuccess (success_message m)]"
  by (simp_all add: submit_succeeded_def)

text \<open>
  C27: the outcome of a submission is decided by the server's replies, in order. When the
  weekly-progress request or, after it succeeded, the evidence upload is refused, the
  toast is the error the server sent (or axios's status message) and the dialog, the form
  and the \<open>onSuccess\<close> count are as before; when both succeed, the toast is the
  server's message (or the default), the dialog closes, the form is reset and
  \<open>onSuccess\<close> is called once. On every path \<open>isSubmitting\<close> ends false.
\<close>

theorem handle_submit_outcome:
  "let f = form_data st;
       wp = WeeklyProgressBody task_id (week_index (f_tanggal f)) (f_tanggal f);
       ev = EvidenceFormData (f_tanggal f) (f_keterangan f) task_id (f_attachment f);
       st' = fst (handle_submit api task_id week_index (st, srv));
       failed = (\<lambda>c m. show_dialog st' = show_dialog st \<and> form_data st' = form_data st \<and>
                       success_calls st' = success_calls st \<and>
                       toasts st' = toasts st @ [ToastError (error_message c m)]);
       succeeded = (\<lambda>m. show_dialog st' = False \<and> form_data st' = empty_form \<and>
                        success_calls st' = Suc (success_calls st) \<and>
                        toasts st' = toasts st @ [ToastSuccess (success_message m)])
   in \<not> is_submitting st' \<and>
      (case api srv ''/api/weekly-progress'' wp of
         (ApiFail c m, _) \<Rightarrow> failed c m
       | (ApiOk _, srv1) \<Rightarrow>
           (case api srv1 ''/api/evidences'' ev of
              (ApiFail c m, _) \<Rightarrow> failed c m
            | (ApiOk m, _) \<Rightarrow> succeeded m))"
  unfolding handle_submit_cases Let_def
  by (simp split: prod.splits api_reply.splits)

text \<open>
  C28: the weekly-progress request is always sent first, and the evidence request is sent
  only after it succeeded; the two are not atomic: when the evidence upload then fails,
  the dialog reports an error but the server keeps the weekly-progress effect (the
  returned server state is the one after both calls).
\<close>

theorem weekly_progress_then_evidence:
  assumes "handle_submit api task_id week_index (st, srv) = (st', srv')"
  defines "f \<equiv> form_data st"
  defines "wp \<equiv> WeeklyProgressBody task_id (week_index (f_tanggal f)) (f_tanggal f)"
  defines "ev \<equiv> EvidenceFormData (f_tanggal f) (f_keterangan f) task_id (f_attachment f)"
  shows "(\<exists>c m. fst (api srv ''/api/weekly-progress'' wp) = ApiFail c m \<and>
                sent st' = sent st @ [(''/api/weekly-progress'', wp)] \<and>
                srv' = snd (api srv ''/api/weekly-progress'' wp)) \<or>
         (\<exists>m. fst (api srv ''/api/weekly-progress'' wp) = ApiOk m \<and>
              sent st' = sent st @ [(''/api/weekly-progress'', wp), (''/api/evidences'', ev)] \<and>
              srv' = snd (api (snd (api srv ''/api/weekly-progress'' wp)) ''/api/evidences'' ev))"
  using assms(1) unfolding handle_submit_cases Let_def f_def wp_def ev_def
  by (auto split: prod.splits api_reply.splits simp: submit_succeeded_def submit_failed_def)

lemma weekly_progress_then_evidence_witness:
  "sent (fst (handle_submit (\<lambda>s p x. (ApiOk None, s)) ''t1'' (\<lambda>_. 0) (dialog_init, ()))) =
     [(''/api/weekly-progress'', WeeklyProgressBody ''t1'' 0 []),
      (''/api/evidences'', EvidenceFormData [] [] ''t1'' None)]"
  using weekly_progress_then_evidence[of "\<lambda>s p x. (ApiOk None, s)" "''t1''" "\<lambda>_. 0" dialog_init "()"
          "fst (handle_submit (\<lambda>s p x. (ApiOk None, s)) ''t1'' (\<lambda>_. 0) (dialog_init, ()))" "()"]
  by (simp add: dialog_init_def empty_form_def prod_eq_iff)

end
