(* ===== verification/System.thy ===== *)
theory System
  imports Evidence Server Dialog
begin

text \<open>
  The glue between the client and the server: how the dialog's requests reach the
  Express application and how the controller's responses come back as axios replies.
  \<open>request_of_payload\<close> is the body the server sees for a payload: the dialog's
  \<open>FormData\<close> sends every field as a string (so \<open>tanggal\<close> and \<open>keterangan\<close> are
  present, possibly empty) and multer stores the attachment under the name
  \<open>upload_name\<close> gives it; the weekly-progress JSON carries only \<open>taskId\<close> among the
  controller's fields. \<open>reply_of\<close> is \<open>res.json\<close>/\<open>res.status(...).json\<close> of the
  controller as the client sees it. \<open>server_api\<close> serves one \<open>POST\<close> against an
  application: Express's 404 page has no \<open>message\<close>, the evidence route runs the
  modelled controller on the store, and handlers outside these sources answer 200
  without touching the evidence store.
\<close>

fun reply_of :: "response \<Rightarrow> api_reply" where
  "reply_of (Added _) = ApiOk (Some ''Evidence added successfully'')"
| "reply_of (NotFound m) = ApiFail 404 (Some m)"
| "reply_of (Forbidden m) = ApiFail 403 (Some m)"
| "reply_of (ServerError m) = ApiFail 500 (Some m)"

fun request_of_payload ::
  "string option \<Rightarrow> (string \<Rightarrow> string) \<Rightarrow> payload \<Rightarrow> evidence_request" where
  "request_of_payload uid upload_name (EvidenceFormData tanggal keterangan task_id attachment) =
     \<lparr>req_user = uid, body_keterangan = Some keterangan, body_tanggal = Some tanggal,
      body_task_id = Some task_id, req_file = map_option upload_name attachment\<rparr>"
| "request_of_payload uid upload_name (WeeklyProgressBody task_id week date) =
     \<lparr>req_user = uid, body_keterangan = None, body_tanggal = None,
      body_task_id = Some task_id, req_file = None\<rparr>"

definition server_api ::
  "layer list \<Rightarrow> timestamp \<Rightarrow> (string \<Rightarrow> timestamp option) \<Rightarrow> string option \<Rightarrow>
   (string \<Rightarrow> string) \<Rightarrow> store api" where
  "server_api layers now parse_date uid upload_name db path p =
     (case dispatch layers POST path of
        None \<Rightarrow> (ApiFail 404 None, db)
      | Some AddEvidence \<Rightarrow>
          (let (r, db') = evidence_route now parse_date db (request_of_payload uid upload_name p)
           in (reply_of r, db'))
      | Some _ \<Rightarrow> (ApiOk None, db))"

lemma reply_of_ok: "(\<exists>m. reply_of r = ApiOk m) \<longleftrightarrow> is_added r"
  by (cases r) simp_all

lemma server_api_unrouted:
  "dispatch layers POST path = None \<Longrightarrow>
     server_api layers now parse_date uid upload_name db path p = (ApiFail 404 None, db)"
  by (simp add: server_api_def)

lemma server_api_other_handler:
  "dispatch layers POST path = Some h \<Longrightarrow> h \<noteq> AddEvidence \<Longrightarrow>
     server_api layers now parse_date uid upload_name db path p = (ApiOk None, db)"
  by (cases h) (simp_all add: server_api_def)

lemma decimal_404: "decimal 404 = ''404''"
  by code_simp

end
