(* ===== verification/DialogFlow.thy ===== *)
theory DialogFlow
  imports Dialog
begin

text \<open>
  \<open>AddFileDialog\<close> as the browser runs it: the rendered form (the JSX of
  src/client/src/components/AddFileDialog.jsx, lines 73--142) and \<open>handleSubmit\<close> cut
  at its two \<open>await\<close>s, so that user input and server replies interleave. The state is
  the dialog state of \<open>Dialog\<close> with the phase of the pending submission: idle,
  awaiting the weekly-progress reply, or awaiting the evidence reply. A pending phase
  holds the form the submission captured (the closure over \<open>formData\<close>). Events are
  the user's (submit, typing, picking a file, Cancel), the parent's (opening the
  dialog) and the replies of the two requests. A submit while \<open>isSubmitting\<close> holds
  is not delivered: the Save button is \<open>disabled\<close> (line 133), and a form whose
  default button is disabled is not submitted implicitly either.
\<close>

subsection \<open>The rendered form\<close>

record dialog_view =
  v_date :: string
  v_note :: string
  v_selected :: "string option"
  v_submit_disabled :: bool
  v_submit_label :: string

text \<open>\<open>showDialog ? (...) : null\<close>; the inputs show \<open>formData\<close>, the
  \<open>Selected:\<close> line appears only with an attachment, and the Save button is disabled
  and labelled \<open>Saving...\<close> while \<open>isSubmitting\<close>.\<close>

definition render_dialog :: "dialog_state \<Rightarrow> dialog_view option" where
  "render_dialog st =
     (if \<not> show_dialog st then None
      else Some \<lparr>v_date = f_tanggal (form_data st), v_note = f_keterangan (form_data st),
                 v_selected = f_attachment (form_data st),
                 v_submit_disabled = is_submitting st,
                 v_submit_label = (if is_submitting st then ''Saving...'' else ''Save Detail'')\<rparr>)"

subsection \<open>Submission phases\<close>

datatype phase = Idle | AwaitWeekly form | AwaitEvidence form

record flow =
  fl_dialog :: dialog_state
  fl_phase :: phase

datatype ui_event =
    OpenDialog
  | EditDate string
  | EditNote string
  | PickFile "string option"
  | ClickCancel
  | Submit
  | WeeklyReply api_reply
  | EvidenceReply api_reply

definition weekly_request :: "string \<Rightarrow> (string \<Rightarrow> int) \<Rightarrow> form \<Rightarrow> string \<times> payload" where
  "weekly_request task_id week_index f =
     (''/api/weekly-progress'', WeeklyProgressBody task_id (week_index (f_tanggal f)) (f_tanggal f))"

definition evidence_request :: "string \<Rightarrow> form \<Rightarrow> string \<times> payload" where
  "evidence_request task_id f =
     (''/api/evidences'', EvidenceFormData (f_tanggal f) (f_keterangan f) task_id (f_attachment f))"

fun flow_step :: "string \<Rightarrow> (string \<Rightarrow> int) \<Rightarrow> flow \<Rightarrow> ui_event \<Rightarrow> flow" where
  "flow_step task_id week_index fs OpenDialog =
     fs\<lparr>fl_dialog := (fl_dialog fs)\<lparr>show_dialog := True\<rparr>\<rparr>"
| "flow_step task_id week_index fs (EditDate v) = fs\<lparr>fl_dialog := set_tanggal (fl_dialog fs) v\<rparr>"
| "flow_step task_id week_index fs (EditNote v) = fs\<lparr>fl_dialog := set_keterangan (fl_dialog fs) v\<rparr>"
| "flow_step task_id week_index fs (PickFile f) = fs\<lparr>fl_dialog := handle_file_change (fl_dialog fs) f\<rparr>"
| "flow_step task_id week_index fs ClickCancel = fs\<lparr>fl_dialog := cancel_dialog (fl_dialog fs)\<rparr>"
| "flow_step task_id week_index fs Submit =
     (let st = fl_dialog fs; f = form_data st
      in if is_submitting st \<or> \<not> show_dialog st then fs
         else \<lparr>fl_dialog = st\<lparr>is_submitting := True,
                                sent := sent st @ [weekly_request task_id week_index f]\<rparr>,
               fl_phase = AwaitWeekly f\<rparr>)"
| "flow_step task_id week_index fs (WeeklyReply r) =
     (case fl_phase fs of
        AwaitWeekly f \<Rightarrow>
          (case r of
             ApiFail code msg \<Rightarrow> \<lparr>fl_dialog = submit_failed (fl_dialog fs) code msg, fl_phase = Idle\<rparr>
           | ApiOk _ \<Rightarrow>
               \<lparr>fl_dialog = (fl_dialog fs)\<lparr>sent := sent (fl_dialog fs) @ [evidence_request task_id f]\<rparr>,
                fl_phase = AwaitEvidence f\<rparr>)
      | _ \<Rightarrow> fs)"
| "flow_step task_id week_index fs (EvidenceReply r) =
     (case fl_phase fs of
        AwaitEvidence f \<Rightarrow>
          (case r of
             ApiFail code msg \<Rightarrow> \<lparr>fl_dialog = submit_failed (fl_dialog fs) code msg, fl_phase = Idle\<rparr>
           | ApiOk msg \<Rightarrow> \<lparr>fl_dialog = submit_succeeded (fl_dialog fs) msg, fl_phase = Idle\<rparr>)
      | _ \<Rightarrow> fs)"

fun flow_run :: "string \<Rightarrow> (string \<Rightarrow> int) \<Rightarrow> flow \<Rightarrow> ui_event list \<Rightarrow> flow" where
  "flow_run task_id week_index fs [] = fs"
| "flow_run task_id week_index fs (e # es) = flow_run task_id week_index (flow_step task_id week_index fs e) es"

definition flow_init :: flow where
  "flow_init = \<lparr>fl_dialog = dialog_init, fl_phase = Idle\<rparr>"

text \<open>The request log of the dialog: submissions one after another, each a weekly-progress
  request for the dialog's task, followed, when that succeeded, directly by the evidence
  request for the same date and task.\<close>

fun is_weekly :: "string \<Rightarrow> (string \<Rightarrow> int) \<Rightarrow> string \<times> payload \<Rightarrow> bool" where
  "is_weekly task_id week_index (p, WeeklyProgressBody t w d) =
     (p = ''/api/weekly-progress'' \<and> t = task_id \<and> w = week_index d)"
| "is_weekly task_id week_index (p, EvidenceFormData d n t a) = False"

fun follows :: "string \<Rightarrow> string \<times> payload \<Rightarrow> string \<times> payload \<Rightarrow> bool" where
  "follows task_id (p, WeeklyProgressBody t w d) (p', EvidenceFormData d' n t' a) =
     (p' = ''/api/evidences'' \<and> d' = d \<and> t' = task_id)"
| "follows task_id r r' = False"

fun log_ok :: "string \<Rightarrow> (string \<Rightarrow> int) \<Rightarrow> (string \<times> payload) list \<Rightarrow> bool" where
  "log_ok task_id week_index [] = True"
| "log_ok task_id week_index [r] = is_weekly task_id week_index r"
| "log_ok task_id week_index (r # r' # rs) =
     (is_weekly task_id week_index r \<and>
      (if follows task_id r r' then log_ok task_id week_index rs
       else log_ok task_id week_index (r' # rs)))"

definition flow_inv :: "string \<Rightarrow> (string \<Rightarrow> int) \<Rightarrow> flow \<Rightarrow> bool" where
  "flow_inv task_id week_index fs \<longleftrightarrow>
     (let log = sent (fl_dialog fs); busy = is_submitting (fl_dialog fs)
      in case fl_phase fs of
           Idle \<Rightarrow> \<not> busy \<and> log_ok task_id week_index log
         | AwaitWeekly f \<Rightarrow> busy \<and> log \<noteq> [] \<and>
             last log = weekly_request task_id week_index f \<and>
             log_ok task_id week_index (butlast log)
         | AwaitEvidence f \<Rightarrow> busy \<and> 2 \<le> length log \<and>
             drop (length log - 2) log = [weekly_request task_id week_index f, evidence_request task_id f] \<and>
             log_ok task_id week_index (take (length log - 2) log))"

subsection \<open>The request log\<close>

lemma is_weekly_request [simp]: "is_weekly task_id week_index (weekly_request task_id week_index f)"
  by (simp add: weekly_request_def)

lemma follows_requests [simp]:
  "follows task_id (weekly_request task_id week_index f) (evidence_request task_id f)"
  by (simp add: weekly_request_def evidence_request_def)

lemma not_follows_weekly [simp]: "\<not> follows task_id r (p, WeeklyProgressBody t w d)"
proof -
  obtain q x where r: "r = (q, x)" by fastforce
  show ?thesis unfolding r by (cases x) simp_all
qed

lemma not_follows_weekly_request [simp]: "\<not> follows task_id r (weekly_request task_id week_index f)"
  by (simp add: weekly_request_def)

lemma log_ok_snoc_weekly:
  "log_ok task_id week_index xs \<Longrightarrow> log_ok task_id week_index (xs @ [weekly_request task_id week_index f])"
  by (induction task_id week_index xs rule: log_ok.induct) auto

lemma log_ok_snoc_pair:
  "log_ok task_id week_index xs \<Longrightarrow>
     log_ok task_id week_index (xs @ [weekly_request task_id week_index f, evidence_request task_id f])"
  by (induction task_id week_index xs rule: log_ok.induct) auto

subsection \<open>The invariant of the phases\<close>

lemma last_two_snoc:
  assumes "xs \<noteq> []" "last xs = w"
  shows "drop (length (xs @ [e]) - 2) (xs @ [e]) = [w, e]"
        "take (length (xs @ [e]) - 2) (xs @ [e]) = butlast xs"
proof -
  have xs: "xs = butlast xs @ [w]" using assms by (metis append_butlast_last_id)
  show "drop (length (xs @ [e]) - 2) (xs @ [e]) = [w, e]"
    by (subst (1 2) xs) simp
  show "take (length (xs @ [e]) - 2) (xs @ [e]) = butlast xs"
    by (subst (1 2) xs) simp
qed

lemma flow_inv_init: "flow_inv task_id week_index flow_init"
  by (simp add: flow_inv_def flow_init_def dialog_init_def)

lemma flow_inv_frame:
  assumes "fl_phase fs' = fl_phase fs" "is_submitting (fl_dialog fs') = is_submitting (fl_dialog fs)"
          "sent (fl_dialog fs') = sent (fl_dialog fs)"
  shows "flow_inv task_id week_index fs' = flow_inv task_id week_index fs"
  using assms by (simp add: flow_inv_def)

lemma flow_step_inv:
  assumes "flow_inv task_id week_index fs"
  shows "flow_inv task_id week_index (flow_step task_id week_index fs e)"
proof (cases e)
  case Submit
  then show ?thesis using assms
    by (auto simp: flow_inv_def Let_def log_ok_snoc_weekly split: phase.splits)
next
  case (WeeklyReply r)
  show ?thesis
  proof (cases "fl_phase fs")
    case (AwaitWeekly f)
    let ?log = "sent (fl_dialog fs)"
    have i: "?log \<noteq> []" "last ?log = weekly_request task_id week_index f"
            "log_ok task_id week_index (butlast ?log)"
      using assms AwaitWeekly by (auto simp: flow_inv_def Let_def)
    then have eq: "?log = butlast ?log @ [weekly_request task_id week_index f]"
      by (metis append_butlast_last_id)
    have "log_ok task_id week_index ?log"
      using log_ok_snoc_weekly[OF i(3), of f] eq by simp
    moreover have "Suc 0 \<le> length ?log" using i(1) by (cases ?log) simp_all
    ultimately show ?thesis using assms AwaitWeekly WeeklyReply i last_two_snoc[OF i(1,2)]
      by (cases r) (auto simp: flow_inv_def Let_def)
  qed (use assms WeeklyReply in auto)
next
  case (EvidenceReply r)
  show ?thesis
  proof (cases "fl_phase fs")
    case (AwaitEvidence f)
    let ?log = "sent (fl_dialog fs)"
    have "?log = take (length ?log - 2) ?log @ [weekly_request task_id week_index f, evidence_request task_id f]"
      using assms AwaitEvidence by (auto simp: flow_inv_def Let_def) (metis append_take_drop_id)
    then have "log_ok task_id week_index ?log"
      using assms AwaitEvidence log_ok_snoc_pair[of task_id week_index "take (length ?log - 2) ?log" f]
      by (auto simp: flow_inv_def Let_def)
    then show ?thesis using assms AwaitEvidence EvidenceReply
      by (cases r) (auto simp: flow_inv_def Let_def)
  qed (use assms EvidenceReply in auto)
qed (use assms in \<open>auto simp: flow_inv_def Let_def set_tanggal_def set_keterangan_def
                         handle_file_change_def cancel_dialog_def split: phase.splits\<close>)

lemma flow_run_inv:
  "flow_inv task_id week_index fs \<Longrightarrow> flow_inv task_id week_index (flow_run task_id week_index fs es)"
  by (induction es arbitrary: fs) (simp_all add: flow_step_inv)

lemma flow_step_replies_idle:
  "fl_phase fs = Idle \<Longrightarrow> flow_step task_id week_index fs (WeeklyReply r) = fs"
  "fl_phase fs = Idle \<Longrightarrow> flow_step task_id week_index fs (EvidenceReply r) = fs"
  by simp_all

subsection \<open>Properties of the interleaved dialog\<close>

text \<open>
  C31: whatever the user does and whatever the server answers, in any order, the Save
  button is shown disabled exactly while a submission is pending, and the requests of
  two submissions never interleave: the log is a sequence of submissions, each a
  weekly-progress request for the dialog's task followed, when that succeeded, directly
  by the evidence upload for the same date.
\<close>

theorem submissions_never_interleave:
  "flow_inv task_id week_index (flow_run task_id week_index flow_init es) \<and>
   (\<forall>v. render_dialog (fl_dialog (flow_run task_id week_index flow_init es)) = Some v \<longrightarrow>
        v_submit_disabled v = (fl_phase (flow_run task_id week_index flow_init es) \<noteq> Idle))"
proof -
  have i: "flow_inv task_id week_index (flow_run task_id week_index flow_init es)"
    by (rule flow_run_inv[OF flow_inv_init])
  then show ?thesis
    by (auto simp: render_dialog_def flow_inv_def Let_def split: phase.splits if_splits)
qed

lemma submissions_never_interleave_witness:
  "\<not> v_submit_disabled (the (render_dialog (fl_dialog (flow_run ''t1'' (\<lambda>_. 0) flow_init
      [OpenDialog, Submit, Submit, WeeklyReply (ApiFail 404 None)]))))"
  using submissions_never_interleave[of "''t1''" "\<lambda>_. 0"
          "[OpenDialog, Submit, Submit, WeeklyReply (ApiFail 404 None)]"]
  by (simp add: flow_init_def dialog_init_def render_dialog_def)

text \<open>
  The interleaved dialog refines the sequential \<open>handle_submit\<close>: a submit from an
  open, idle dialog, followed by the two replies a server gives, leaves the dialog in
  exactly the state \<open>handle_submit\<close> computes with that server (when the first request
  fails, the second reply is never awaited).
\<close>

theorem flow_refines_handle_submit:
  fixes task_id :: string and week_index :: "string \<Rightarrow> int"
  assumes "show_dialog st" and "\<not> is_submitting st"
  defines "wp \<equiv> weekly_request task_id week_index (form_data st)"
  defines "ev \<equiv> evidence_request task_id (form_data st)"
  shows "fl_dialog (flow_run task_id week_index \<lparr>fl_dialog = st, fl_phase = Idle\<rparr>
            [Submit, WeeklyReply (fst (api srv (fst wp) (snd wp))),
             EvidenceReply (fst (api (snd (api srv (fst wp) (snd wp))) (fst ev) (snd ev)))]) =
         fst (handle_submit api task_id week_index (st, srv))"
  using assms
  by (simp add: handle_submit_cases weekly_request_def evidence_request_def Let_def
           split: prod.split api_reply.split)

lemma flow_refines_handle_submit_witness:
  "fl_dialog (flow_run ''t1'' (\<lambda>_. 0) \<lparr>fl_dialog = dialog_init\<lparr>show_dialog := True\<rparr>, fl_phase = Idle\<rparr>
     [Submit, WeeklyReply (ApiOk None), EvidenceReply (ApiOk None)]) =
   fst (handle_submit (\<lambda>s p x. (ApiOk None, s)) ''t1'' (\<lambda>_. 0) (dialog_init\<lparr>show_dialog := True\<rparr>, ()))"
  using flow_refines_handle_submit[of "dialog_init\<lparr>show_dialog := True\<rparr>" "''t1''" "\<lambda>_. 0"
          "\<lambda>s p x. (ApiOk None, s)" "()"]
  by (simp add: dialog_init_def)

text \<open>
  C33: a pending submission always completes: from any state the dialog can reach, once
  the server has answered both requests (whatever it answers), no submission is pending
  and the Save button is enabled again.
\<close>

theorem submission_completes:
  "fl_phase (flow_run task_id week_index (flow_run task_id week_index flow_init es)
               [WeeklyReply r1, EvidenceReply r2]) = Idle \<and>
   \<not> is_submitting (fl_dialog (flow_run task_id week_index (flow_run task_id week_index flow_init es)
                                 [WeeklyReply r1, EvidenceReply r2]))"
proof -
  let ?fs = "flow_run task_id week_index flow_init es"
  have i: "flow_inv task_id week_index ?fs" by (rule flow_run_inv[OF flow_inv_init])
  have "flow_inv task_id week_index (flow_run task_id week_index ?fs [WeeklyReply r1, EvidenceReply r2])"
    by (rule flow_run_inv[OF i])
  moreover have "fl_phase (flow_run task_id week_index ?fs [WeeklyReply r1, EvidenceReply r2]) = Idle"
    by (cases "fl_phase ?fs"; cases r1; cases r2) simp_all
  ultimately show ?thesis by (simp add: flow_inv_def Let_def)
qed

text \<open>
  C34: the inputs stay editable while a submission is pending, but what is typed then is
  lost: the upload carries the form as it was at submit time, and the success path
  resets the form, discarding the new text.
\<close>

theorem edits_while_saving_lost:
  assumes "show_dialog st" and "\<not> is_submitting st"
  shows "sent (fl_dialog (flow_run task_id week_index \<lparr>fl_dialog = st, fl_phase = Idle\<rparr>
                [Submit, EditNote note, WeeklyReply (ApiOk m1), EvidenceReply (ApiOk m2)])) =
           sent st @ [weekly_request task_id week_index (form_data st),
                      evidence_request task_id (form_data st)] \<and>
         form_data (fl_dialog (flow_run task_id week_index \<lparr>fl_dialog = st, fl_phase = Idle\<rparr>
                [Submit, EditNote note, WeeklyReply (ApiOk m1), EvidenceReply (ApiOk m2)])) = empty_form"
  using assms by (simp add: set_keterangan_def Let_def)

lemma edits_while_saving_lost_witness:
  "form_data (fl_dialog (flow_run ''t1'' (\<lambda>_. 0)
      \<lparr>fl_dialog = dialog_init\<lparr>show_dialog := True\<rparr>, fl_phase = Idle\<rparr>
      [Submit, EditNote ''second thoughts'', WeeklyReply (ApiOk None), EvidenceReply (ApiOk None)]))
   = empty_form"
  using edits_while_saving_lost[of "dialog_init\<lparr>show_dialog := True\<rparr>" "''t1''" "\<lambda>_. 0"
          "''second thoughts''" None None]
  by (simp add: dialog_init_def)

end
