(* ===== verification/IsoDate.thy ===== *)
theory IsoDate
  imports Calendar Evidence
begin

text \<open>
  The date the dialog sends and the controller reads. The dialog's
  \<open><input type="date">\<close> holds its value as \<open>yyyy-MM-dd\<close> (HTML's valid date string;
  \<open>format_iso_date\<close>, for the years 0 to 9999 that take four digits), and the
  controller turns it into a timestamp with \<open>new Date(tanggal)\<close> on Node.js. HTML's
  valid date strings are the \<open>yyyy-MM-dd\<close> strings naming a day the calendar has
  (\<open>date_string_value\<close>, the day such a string denotes). V8, the engine of Node.js,
  reads a string of that shape with a month from 1 to 12 and a day from 1 to 31 as
  midnight UTC of the day counted from the first of the month, so a day past the month's
  end rolls over into the next month (\<open>2025-02-29\<close> is 1 March 2025); every other
  string goes to V8's legacy parser, which accepts many shapes and is a parameter
  \<open>legacy\<close> here (\<open>None\<close> for an Invalid Date). All of this is modelled from the
  HTML standard and V8's behaviour, not from code of the repository. Digits are read by
  \<open>parse_digits\<close>, the inverse of the decimal printer \<open>decimal\<close> of \<open>Calendar\<close>
  up to leading zeros.
\<close>

definition digit_value :: "char \<Rightarrow> nat option" where
  "digit_value c = (let k = of_char c :: nat in if 48 \<le> k \<and> k \<le> 57 then Some (k - 48) else None)"

fun parse_digits_acc :: "nat \<Rightarrow> string \<Rightarrow> nat option" where
  "parse_digits_acc acc [] = Some acc"
| "parse_digits_acc acc (c # cs) =
     (case digit_value c of None \<Rightarrow> None | Some k \<Rightarrow> parse_digits_acc (10 * acc + k) cs)"

definition parse_digits :: "string \<Rightarrow> nat option" where
  "parse_digits s = (if s = [] then None else parse_digits_acc 0 s)"

definition format_iso_date :: "int \<Rightarrow> string" where
  "format_iso_date d =
     (let mi = month_index_of_day d
      in pad_zeros 4 (decimal (nat (mi div 12))) @ ''-'' @
         pad_zeros 2 (decimal (nat (mi mod 12 + 1))) @ ''-'' @
         pad_zeros 2 (decimal (nat (day_of_month d))))"

text \<open>The three numbers of a \<open>dddd-dd-dd\<close> string.\<close>

definition iso_date_fields :: "string \<Rightarrow> (nat \<times> nat \<times> nat) option" where
  "iso_date_fields s =
     (if length s = 10 \<and> s ! 4 = CHR ''-'' \<and> s ! 7 = CHR ''-'' then
        (case (parse_digits (take 4 s), parse_digits (take 2 (drop 5 s)), parse_digits (drop 8 s)) of
           (Some y, Some m, Some dd) \<Rightarrow> Some (y, m, dd)
         | _ \<Rightarrow> None)
      else None)"

text \<open>The midnight (UTC) of day \<open>dd\<close> counted from the first of month \<open>m\<close> of year
  \<open>y\<close>: ECMAScript's \<open>MakeDay\<close>, which carries a day past the month's end into the
  next month.\<close>

definition day_from_fields :: "nat \<Rightarrow> nat \<Rightarrow> nat \<Rightarrow> timestamp" where
  "day_from_fields y m dd = (month_start (12 * int y + int m - 1) + int dd - 1) * ms_per_day"

definition date_string_value :: "string \<Rightarrow> timestamp option" where
  "date_string_value s =
     (case iso_date_fields s of
        Some (y, m, dd) \<Rightarrow>
          if 1 \<le> m \<and> m \<le> 12 \<and> 1 \<le> dd \<and> int dd \<le> days_in_month (int y) (int m)
          then Some (day_from_fields y m dd) else None
      | None \<Rightarrow> None)"

definition v8_parse_date :: "(string \<Rightarrow> timestamp option) \<Rightarrow> string \<Rightarrow> timestamp option" where
  "v8_parse_date legacy s =
     (case iso_date_fields s of
        Some (y, m, dd) \<Rightarrow>
          if 1 \<le> m \<and> m \<le> 12 \<and> 1 \<le> dd \<and> dd \<le> 31 then Some (day_from_fields y m dd) else legacy s
      | None \<Rightarrow> legacy s)"

subsection \<open>Reading back printed numbers\<close>

lemma digit_value_char: "n < 10 \<Longrightarrow> digit_value (char_of (48 + n)) = Some n"
  by (simp add: digit_value_def of_char_of)

lemma decimal_nonempty [simp]: "decimal n \<noteq> []"
  by (subst decimal.simps) simp

declare decimal.simps [simp del]

lemma parse_digits_acc_append:
  "parse_digits_acc acc (xs @ ys) =
     (case parse_digits_acc acc xs of None \<Rightarrow> None | Some a \<Rightarrow> parse_digits_acc a ys)"
  by (induction xs arbitrary: acc) (simp_all split: option.split)

lemma parse_digits_acc_decimal:
  "parse_digits_acc acc (decimal n) = Some (acc * 10 ^ length (decimal n) + n)"
proof (induction n arbitrary: acc rule: decimal.induct)
  case (1 n)
  show ?case
  proof (cases "n < 10")
    case True
    then show ?thesis by (simp add: decimal.simps digit_value_char)
  next
    case False
    have "n mod 10 < 10" by simp
    then have "parse_digits_acc acc (decimal n) =
                 Some (10 * (acc * 10 ^ length (decimal (n div 10)) + n div 10) + n mod 10)"
      using False 1[of acc] by (simp add: decimal.simps[of n] parse_digits_acc_append digit_value_char)
    also have "\<dots> = Some (acc * 10 ^ length (decimal n) + n)"
      using False by (simp add: decimal.simps[of n] algebra_simps)
    finally show ?thesis .
  qed
qed

lemma parse_digits_acc_zeros:
  "parse_digits_acc 0 (replicate k (CHR ''0'') @ s) = parse_digits_acc 0 s"
  by (induction k) (simp_all add: digit_value_def)

lemma parse_digits_pad_decimal: "parse_digits (pad_zeros w (decimal n)) = Some n"
  by (simp add: parse_digits_def pad_zeros_def parse_digits_acc_zeros parse_digits_acc_decimal)

lemma length_decimal_le: "n < 10 ^ k \<Longrightarrow> 1 \<le> k \<Longrightarrow> length (decimal n) \<le> k"
proof (induction n arbitrary: k rule: decimal.induct)
  case (1 n)
  show ?case
  proof (cases "n < 10")
    case True
    then show ?thesis using 1(3) by (simp add: decimal.simps)
  next
    case False
    obtain k' where k: "k = Suc k'" using 1(3) by (cases k) simp_all
    have "n div 10 < 10 ^ k'" using 1(2) k by (simp add: div_less_iff_less_mult mult.commute)
    moreover have "1 \<le> k'" using False 1(2) k by (cases k') simp_all
    ultimately have "length (decimal (n div 10)) \<le> k'" using 1(1) False by simp
    then show ?thesis using False k by (simp add: decimal.simps[of n])
  qed
qed

lemma length_pad_zeros: "length s \<le> w \<Longrightarrow> length (pad_zeros w s) = w"
  by (simp add: pad_zeros_def)

lemma iso_fields:
  assumes "length ys = 4" "length ms = 2" "length ds = 2"
  defines "s \<equiv> ys @ ''-'' @ ms @ ''-'' @ ds"
  shows "length s = 10 \<and> s ! 4 = CHR ''-'' \<and> s ! 7 = CHR ''-'' \<and>
         take 4 s = ys \<and> take 2 (drop 5 s) = ms \<and> drop 8 s = ds"
  using assms by (simp add: nth_append)

subsection \<open>The date round trip\<close>

lemma date_string_value_format:
  assumes "0 \<le> month_index_of_day d div 12" and "month_index_of_day d div 12 \<le> 9999"
  shows "date_string_value (format_iso_date d) = Some (d * ms_per_day)"
proof -
  define mi where "mi = month_index_of_day d"
  define y where "y = nat (mi div 12)"
  define m where "m = nat (mi mod 12 + 1)"
  define dd where "dd = nat (day_of_month d)"
  have y: "int y = mi div 12" "y < 10 ^ 4" using assms by (simp_all add: y_def mi_def)
  have m: "int m = mi mod 12 + 1" "1 \<le> m" "m \<le> 12" "m < 10 ^ 2" by (simp_all add: m_def)
  have db: "1 \<le> day_of_month d" "day_of_month d \<le> month_length mi"
    using day_of_month_bounds[of d] by (simp_all add: mi_def)
  have ml: "month_length mi \<le> 31" by (simp add: month_length_def days_in_month_def)
  have dd: "int dd = day_of_month d" "1 \<le> dd" "dd < 10 ^ 2" using db ml by (simp_all add: dd_def)
  have len: "length (pad_zeros 4 (decimal y)) = 4" "length (pad_zeros 2 (decimal m)) = 2"
            "length (pad_zeros 2 (decimal dd)) = 2"
    using y(2) m(4) dd(3) by (simp_all add: length_pad_zeros length_decimal_le)
  have fmt: "format_iso_date d =
               pad_zeros 4 (decimal y) @ ''-'' @ pad_zeros 2 (decimal m) @ ''-'' @ pad_zeros 2 (decimal dd)"
    by (simp add: format_iso_date_def Let_def y_def m_def dd_def mi_def)
  have mi: "12 * int y + int m - 1 = mi" using y(1) m(1) by simp
  have range: "int dd \<le> days_in_month (int y) (int m)"
    using db dd(1) y(1) m(1) by (simp add: month_length_def)
  have dday: "month_start mi + int dd - 1 = d"
    using dd(1) by (simp add: day_of_month_def mi_def)
  define s where "s = pad_zeros 4 (decimal y) @ ''-'' @ pad_zeros 2 (decimal m) @ ''-'' @
                      pad_zeros 2 (decimal dd)"
  have f: "length s = 10" "s ! 4 = CHR ''-''" "s ! 7 = CHR ''-''" "take 4 s = pad_zeros 4 (decimal y)"
          "take 2 (drop 5 s) = pad_zeros 2 (decimal m)" "drop 8 s = pad_zeros 2 (decimal dd)"
    using iso_fields[OF len] unfolding s_def by blast+
  have "date_string_value s = Some ((month_start (12 * int y + int m - 1) + int dd - 1) * ms_per_day)"
    using m dd range by (simp add: date_string_value_def iso_date_fields_def day_from_fields_def f parse_digits_pad_decimal)
  then show ?thesis using mi dday by (simp add: fmt s_def)
qed

subsection \<open>Reading digits back into the printed form\<close>

definition is_digit :: "char \<Rightarrow> bool" where
  "is_digit c \<longleftrightarrow> digit_value c \<noteq> None"

lemma parse_digits_acc_snoc:
  "parse_digits_acc acc (xs @ [c]) =
     (case parse_digits_acc acc xs of None \<Rightarrow> None
      | Some a \<Rightarrow> (case digit_value c of None \<Rightarrow> None | Some k \<Rightarrow> Some (10 * a + k)))"
  by (simp add: parse_digits_acc_append split: option.split)

lemma digit_value_Some: "digit_value c = Some k \<Longrightarrow> k < 10 \<and> c = char_of (48 + k)"
proof -
  assume d: "digit_value c = Some k"
  then have k: "48 \<le> (of_char c :: nat)" "(of_char c :: nat) \<le> 57" "k = of_char c - 48"
    by (auto simp: digit_value_def Let_def split: if_splits)
  then have "char_of (48 + k) = char_of (of_char c :: nat)" by simp
  then show ?thesis using k by simp
qed

lemma parse_digits_acc_mono: "parse_digits_acc acc xs = Some n \<Longrightarrow> acc * 10 ^ length xs \<le> n"
proof (induction xs arbitrary: acc)
  case (Cons c cs)
  then obtain k where "digit_value c = Some k" "parse_digits_acc (10 * acc + k) cs = Some n"
    by (auto split: option.splits)
  with Cons.IH[of "10 * acc + k"] show ?case by (simp add: algebra_simps)
qed simp

lemma char_of_48: "char_of (48::nat) = CHR ''0''"
  by code_simp

lemma parse_zero_digits:
  "parse_digits_acc 0 xs = Some 0 \<Longrightarrow> xs = replicate (length xs) (CHR ''0'')"
proof (induction xs rule: rev_induct)
  case (snoc c xs)
  then obtain a k where a: "parse_digits_acc 0 xs = Some a" "digit_value c = Some k" "10 * a + k = 0"
    by (auto simp: parse_digits_acc_snoc split: option.splits)
  then have "a = 0" "k = 0" by simp_all
  then have "c = CHR ''0''" "xs = replicate (length xs) (CHR ''0'')"
    using snoc.IH a digit_value_Some[OF a(2)] by (simp_all add: char_of_48)
  then show ?case by (metis length_append_singleton replicate_Suc replicate_append_same)
qed simp

lemma pad_decimal_parse:
  "parse_digits_acc 0 xs = Some n \<Longrightarrow> xs \<noteq> [] \<Longrightarrow> pad_zeros (length xs) (decimal n) = xs"
proof (induction xs arbitrary: n rule: rev_induct)
  case (snoc c xs)
  then obtain a k where a: "parse_digits_acc 0 xs = Some a" "digit_value c = Some k" "n = 10 * a + k"
    by (auto simp: parse_digits_acc_snoc split: option.splits)
  have k: "k < 10" "c = char_of (48 + k)" using digit_value_Some[OF a(2)] by simp_all
  show ?case
  proof (cases "a = 0")
    case True
    then have "xs = replicate (length xs) (CHR ''0'')" using a(1) parse_zero_digits by simp
    then show ?thesis using True a(3) k by (simp add: decimal.simps pad_zeros_def)
  next
    case False
    then have xs: "xs \<noteq> []" using a(1) by auto
    have "(10 * a + k) div 10 = a" "(10 * a + k) mod 10 = k" using k(1) by simp_all
    then have "decimal n = decimal a @ [c]"
      using False a(3) k by (subst decimal.simps) simp
    moreover have "length (decimal a) \<le> length xs"
      using snoc.IH[OF a(1) xs] by (metis length_append le_add2 pad_zeros_def)
    ultimately show ?thesis using snoc.IH[OF a(1) xs] by (simp add: pad_zeros_def)
  qed
qed simp

lemma iso_split:
  assumes "length s = 10" "s ! 4 = CHR ''-''" "s ! 7 = CHR ''-''"
  shows "s = take 4 s @ ''-'' @ take 2 (drop 5 s) @ ''-'' @ drop 8 s"
proof (rule nth_equalityI)
  show "length s = length (take 4 s @ ''-'' @ take 2 (drop 5 s) @ ''-'' @ drop 8 s)"
    using assms(1) by simp
next
  fix i assume "i < length s"
  then have "i < 10" using assms(1) by simp
  then consider "i < 4" | "i = 4" | "i = 5 \<or> i = 6" | "i = 7" | "8 \<le> i" by linarith
  then show "s ! i = (take 4 s @ ''-'' @ take 2 (drop 5 s) @ ''-'' @ drop 8 s) ! i"
    by cases (use assms in \<open>auto simp: nth_append\<close>)
qed

lemma parse_digits_Some:
  "parse_digits xs = Some n \<Longrightarrow> pad_zeros (length xs) (decimal n) = xs"
  by (auto simp: parse_digits_def intro: pad_decimal_parse split: if_splits)

lemma format_date_string_value:
  assumes "date_string_value s = Some t"
  shows "format_iso_date (day_of t) = s"
proof -
  have s: "length s = 10" "s ! 4 = CHR ''-''" "s ! 7 = CHR ''-''"
    using assms by (simp_all add: date_string_value_def iso_date_fields_def day_from_fields_def split: if_splits)
  then obtain y m dd where p: "parse_digits (take 4 s) = Some y" "parse_digits (take 2 (drop 5 s)) = Some m"
      "parse_digits (drop 8 s) = Some dd"
      and r: "1 \<le> m" "m \<le> 12" "1 \<le> dd" "int dd \<le> days_in_month (int y) (int m)"
      and t: "t = (month_start (12 * int y + int m - 1) + int dd - 1) * ms_per_day"
    using assms by (auto simp: date_string_value_def iso_date_fields_def day_from_fields_def split: option.splits if_splits)
  define mi where "mi = 12 * int y + int m - 1"
  have mi: "mi = 12 * int y + (int m - 1)" by (simp add: mi_def)
  have dm: "mi div 12 = int y" "mi mod 12 = int m - 1"
    using r divmod_unique_int[of "int m - 1" 12 "int y"] unfolding mi by simp_all
  have ml: "month_length mi = days_in_month (int y) (int m)" using dm by (simp add: month_length_def)
  define D where "D = month_start mi + int dd - 1"
  have "month_start mi \<le> D" "D < month_start (mi + 1)"
    using r ml month_start_succ[of mi] by (simp_all add: D_def)
  then have idx: "month_index_of_day D = mi" by (rule month_index_unique)
  have day: "day_of t = D" by (simp add: t D_def mi_def day_of_days)
  have "format_iso_date D =
          pad_zeros 4 (decimal y) @ ''-'' @ pad_zeros 2 (decimal m) @ ''-'' @ pad_zeros 2 (decimal dd)"
    using idx dm by (simp add: format_iso_date_def day_of_month_def D_def)
  also have "\<dots> = s"
    using parse_digits_Some[OF p(1)] parse_digits_Some[OF p(2)] parse_digits_Some[OF p(3)] s iso_split[OF s]
    by simp
  finally show ?thesis by (simp add: day)
qed

lemma date_string_value_nonempty: "date_string_value s = Some t \<Longrightarrow> s \<noteq> []"
  by (auto simp: date_string_value_def iso_date_fields_def day_from_fields_def)

lemma v8_parse_valid:
  "date_string_value s = Some t \<Longrightarrow> v8_parse_date legacy s = Some t"
proof -
  assume v: "date_string_value s = Some t"
  then obtain y m dd where f: "iso_date_fields s = Some (y, m, dd)"
      and r: "1 \<le> m" "m \<le> 12" "1 \<le> dd" "int dd \<le> days_in_month (int y) (int m)"
      and t: "t = day_from_fields y m dd"
    by (auto simp: date_string_value_def split: option.splits if_splits)
  have "days_in_month (int y) (int m) \<le> 31" by (simp add: days_in_month_def)
  then show ?thesis using f r t by (simp add: v8_parse_date_def)
qed

subsection \<open>Properties of the date the dialog sends\<close>

text \<open>
  C35: the date field round-trips through the controller: a day of the years 0 to 9999
  picked in the date input is stored by \<open>addEvidence\<close> as midnight of that very day;
  and every valid date string is read by Node.js as the midnight of the day it names,
  which the date input renders as that same string.
\<close>

theorem date_input_roundtrip:
  "(0 \<le> month_index_of_day d div 12 \<and> month_index_of_day d div 12 \<le> 9999 \<longrightarrow>
      evidence_date now (v8_parse_date legacy) (Some (format_iso_date d)) = Some (d * ms_per_day)) \<and>
   (date_string_value s = Some t \<longrightarrow>
      v8_parse_date legacy s = Some t \<and> format_iso_date (day_of t) = s \<and> time_of_day t = 0)"
proof (intro conjI impI)
  assume "0 \<le> month_index_of_day d div 12 \<and> month_index_of_day d div 12 \<le> 9999"
  then have p: "date_string_value (format_iso_date d) = Some (d * ms_per_day)"
    by (simp add: date_string_value_format)
  then show "evidence_date now (v8_parse_date legacy) (Some (format_iso_date d)) = Some (d * ms_per_day)"
    using date_string_value_nonempty[OF p] v8_parse_valid[OF p] by (simp add: evidence_date_def)
next
  assume "date_string_value s = Some t"
  then show "v8_parse_date legacy s = Some t" by (rule v8_parse_valid)
next
  assume "date_string_value s = Some t"
  then show "format_iso_date (day_of t) = s" by (rule format_date_string_value)
next
  assume "date_string_value s = Some t"
  then show "time_of_day t = 0"
    by (auto simp: date_string_value_def day_from_fields_def time_of_day_days split: if_splits option.splits)
qed

lemma date_input_roundtrip_witness:
  "evidence_date 0 (v8_parse_date (\<lambda>_. None)) (Some (format_iso_date 20162)) = Some (20162 * ms_per_day)"
proof -
  have "0 \<le> month_index_of_day 20162 div 12 \<and> month_index_of_day 20162 div 12 \<le> 9999"
    by code_simp
  then show ?thesis using date_input_roundtrip[of 20162 0 "\<lambda>_. None" "''2025-03-15''" "20162 * ms_per_day"]
    by blast
qed

lemma day_from_fields_overflow:
  assumes "1 \<le> m" "m \<le> 12" "days_in_month (int y) (int m) < int dd"
  shows "day_from_fields y m dd =
           (month_start (12 * int y + int m) + (int dd - days_in_month (int y) (int m)) - 1) * ms_per_day"
proof -
  have "(12 * int y + int m - 1) div 12 = int y" "(12 * int y + int m - 1) mod 12 = int m - 1"
    using assms(1,2) divmod_unique_int[of "int m - 1" 12 "int y"] by (simp_all add: algebra_simps)
  then have "month_length (12 * int y + int m - 1) = days_in_month (int y) (int m)"
    by (simp add: month_length_def)
  then show ?thesis
    using month_start_succ[of "12 * int y + int m - 1"] by (simp add: day_from_fields_def algebra_simps)
qed

text \<open>
  C36: the controller does not check the date: a member's request for an existing task
  whose date has the date input's shape but a day past the end of its month (a 29th of
  February in a common year, a 31st of April) is not refused; Node.js carries the day
  over, and the record is stored with 200, dated the corresponding day of the next
  month, though the string is not a valid date.
\<close>

theorem overflowing_day_rolls_over:
  assumes "body_task_id rq = Some tid" and "db_tasks db tid = Some pid"
      and "db_projects db pid = Some ms" and "req_user rq = Some u" and "u \<in> set ms"
      and "body_tanggal rq = Some s" and "iso_date_fields s = Some (y, m, dd)"
      and "1 \<le> m" "m \<le> 12" "days_in_month (int y) (int m) < int dd" "dd \<le> 31"
  shows "\<exists>ev. add_evidence now (v8_parse_date legacy) db rq = (Added ev, db\<lparr>db_evidence := db_evidence db @ [ev]\<rparr>) \<and>
              ev_date ev = (month_start (12 * int y + int m) + (int dd - days_in_month (int y) (int m)) - 1) * ms_per_day \<and>
              date_string_value s = None"
proof -
  have m: "find_member db pid (req_user rq) = Some u"
    using assms(3-5) by (simp add: find_member_Some_iff)
  have "1 \<le> dd" using assms(10) days_in_month_pos[of "int y" "int m"] by simp
  then have p: "v8_parse_date legacy s = Some (day_from_fields y m dd)"
    using assms(7-9,11) by (simp add: v8_parse_date_def)
  have ne: "s \<noteq> []" using assms(7) by (auto simp: iso_date_fields_def)
  have inv: "date_string_value s = None" using assms(7,10) by (simp add: date_string_value_def)
  show ?thesis
    using assms(1,2,4,6) m p ne inv day_from_fields_overflow[OF assms(8-10)]
    by (simp add: add_evidence_def evidence_date_def Let_def)
qed

lemma overflowing_day_rolls_over_witness:
  "iso_date_fields ''2025-02-29'' = Some (2025, 2, 29) \<and> days_in_month 2025 2 < 29 \<and>
   (\<exists>ev. add_evidence 7 (v8_parse_date (\<lambda>_. None))
          \<lparr>db_tasks = [''t1'' \<mapsto> ''p1''], db_projects = [''p1'' \<mapsto> [''u1'']], db_evidence = [], db_uploads = []\<rparr>
          \<lparr>req_user = Some ''u1'', body_keterangan = None, body_tanggal = Some ''2025-02-29'',
           body_task_id = Some ''t1'', req_file = None\<rparr> =
        (Added ev, \<lparr>db_tasks = [''t1'' \<mapsto> ''p1''], db_projects = [''p1'' \<mapsto> [''u1'']], db_evidence = [ev],
                    db_uploads = []\<rparr>) \<and>
        ev_date ev = 20148 * ms_per_day)"
proof -
  have f: "iso_date_fields ''2025-02-29'' = Some (2025, 2, 29)" by code_simp
  have d: "days_in_month 2025 2 < 29" by code_simp
  have ms: "(month_start (12 * int 2025 + int 2) + (int 29 - days_in_month (int 2025) (int 2)) - 1) = 20148"
    by code_simp
  have "\<exists>ev. add_evidence 7 (v8_parse_date (\<lambda>_. None)) \<lparr>db_tasks = [''t1'' \<mapsto> ''p1''], db_projects = [''p1'' \<mapsto> [''u1'']], db_evidence = [],
              db_uploads = []\<rparr> \<lparr>req_user = Some ''u1'', body_keterangan = None, body_tanggal = Some ''2025-02-29'',
              body_task_id = Some ''t1'', req_file = None\<rparr> = (Added ev, \<lparr>db_tasks = [''t1'' \<mapsto> ''p1''], db_projects = [''p1'' \<mapsto> [''u1'']], db_evidence = [],
              db_uploads = []\<rparr>\<lparr>db_evidence := db_evidence \<lparr>db_tasks = [''t1'' \<mapsto> ''p1''], db_projects = [''p1'' \<mapsto> [''u1'']], db_evidence = [],
              db_uploads = []\<rparr> @ [ev]\<rparr>) \<and>
              ev_date ev = (month_start (12 * int 2025 + int 2) + (int 29 - days_in_month (int 2025) (int 2)) - 1) * ms_per_day \<and>
              date_string_value ''2025-02-29'' = None"
    by (rule overflowing_day_rolls_over[where tid = "''t1''" and pid = "''p1''" and ms = "[''u1'']" and u = "''u1''"])
       (simp_all add: f d)
  then obtain ev where e: "add_evidence 7 (v8_parse_date (\<lambda>_. None)) \<lparr>db_tasks = [''t1'' \<mapsto> ''p1''], db_projects = [''p1'' \<mapsto> [''u1'']], db_evidence = [],
              db_uploads = []\<rparr> \<lparr>req_user = Some ''u1'', body_keterangan = None, body_tanggal = Some ''2025-02-29'',
              body_task_id = Some ''t1'', req_file = None\<rparr> = (Added ev, \<lparr>db_tasks = [''t1'' \<mapsto> ''p1''], db_projects = [''p1'' \<mapsto> [''u1'']], db_evidence = [],
              db_uploads = []\<rparr>\<lparr>db_evidence := db_evidence \<lparr>db_tasks = [''t1'' \<mapsto> ''p1''], db_projects = [''p1'' \<mapsto> [''u1'']], db_evidence = [],
              db_uploads = []\<rparr> @ [ev]\<rparr>)"
      and dt: "ev_date ev = (month_start (12 * int 2025 + int 2) + (int 29 - days_in_month (int 2025) (int 2)) - 1) * ms_per_day"
    by blast
  show ?thesis using f d e dt[unfolded ms] by auto
qed

end
