(* ===== verification/ViewShape.thy ===== *)
theory ViewShape
  imports CalendarView IsoDate
begin

text \<open>
  The shape of what \<open>ProjectCalendar\<close> renders (src/client/src/components/ProjectCalendar.jsx):
  the well-formedness of the computed view (its type invariant: as many columns as the
  grid has tracks, contiguous and ordered, spanning the padded timeline, at most 50 rows,
  a positive day count), the React keys of the lists it renders (the row fragments keyed
  \<open>r.name || idx\<close>, line 226, and the cells of a row keyed \<open>`${row.name}-c-${i}`\<close>,
  line 124), and the legend of status colours (lines 140--154). Keys are strings: an index
  key is the decimal rendering of the index.
\<close>

definition view_wf :: "calendar_view \<Rightarrow> bool" where
  "view_wf v \<longleftrightarrow>
     (let cols = view_columns v; tml = view_timeline v
      in length cols = total_columns v \<and>
         successively (\<lambda>a b. col_end a = col_start b) cols \<and>
         list_all (\<lambda>c. col_start c \<le> col_end c) cols \<and>
         (cols \<noteq> [] \<longrightarrow> col_start (hd cols) = timeline_start tml \<and>
                         col_end (last cols) = add_days (timeline_start tml) (total_days tml)) \<and>
         length (view_rows v) \<le> max_rows \<and> 1 \<le> total_days tml)"

text \<open>\<open><React.Fragment key={r.name || idx}>\<close>: an empty name is falsy.\<close>

definition row_key :: "nat \<Rightarrow> row \<Rightarrow> string" where
  "row_key idx r = (if row_name r = [] then decimal idx else row_name r)"

definition row_keys :: "row list \<Rightarrow> string list" where
  "row_keys rows = map (\<lambda>(idx, r). row_key idx r) (enumerate 0 rows)"

definition cell_keys :: "column list \<Rightarrow> row \<Rightarrow> string list" where
  "cell_keys cols r = map (\<lambda>i. row_name r @ ''-c-'' @ decimal i) [0..<length cols]"

text \<open>The legend: the three coloured statuses it names; \<open>DEFAULT\<close> (done tasks) is not
  in it.\<close>

definition legend :: "(status \<times> string) list" where
  "legend = [(LATE, ''Late''), (OVERDUE, ''Overdue''), (UNDERWAY, ''Underway'')]"

subsection \<open>Well-formedness of the view\<close>

lemma successively_nth:
  "(\<And>i. Suc i < length xs \<Longrightarrow> P (xs ! i) (xs ! Suc i)) \<Longrightarrow> successively P xs"
proof (induction xs)
  case (Cons x xs)
  have "successively P xs"
  proof (rule Cons.IH)
    fix i assume "Suc i < length xs"
    then show "P (xs ! i) (xs ! Suc i)" using Cons.prems[of "Suc i"] by simp
  qed
  moreover have "xs \<noteq> [] \<Longrightarrow> P x (hd xs)" using Cons.prems[of 0] by (cases xs) auto
  ultimately show ?case by (cases xs) auto
qed simp

lemma add_days_le_iff: "add_days t a \<le> add_days t b \<longleftrightarrow> a \<le> b"
  by (simp add: add_days_def ms_per_day_def)

lemma columns_all_shape:
  assumes "0 \<le> tdays"
  shows "successively (\<lambda>a b. col_end a = col_start b) (columns_all tstart tdays n) \<and>
         list_all (\<lambda>c. col_start c \<le> col_end c) (columns_all tstart tdays n)"
proof
  show "successively (\<lambda>a b. col_end a = col_start b) (columns_all tstart tdays n)"
    by (rule successively_nth) (simp add: columns_contiguous)
  have "0 < n * 4 \<Longrightarrow> i < n * 4 \<Longrightarrow>
          col_offset tdays (int (n * 4)) i \<le> col_offset tdays (int (n * 4)) (Suc i)" for i
    using assms by (intro col_offset_mono) simp_all
  then show "list_all (\<lambda>c. col_start c \<le> col_end c) (columns_all tstart tdays n)"
    by (auto simp: list_all_iff columns_all_def column_at_offsets add_days_le_iff)
qed

lemma columns_all_ends:
  "columns_all tstart tdays n \<noteq> [] \<Longrightarrow>
     col_start (hd (columns_all tstart tdays n)) = tstart \<and>
     col_end (last (columns_all tstart tdays n)) = add_days tstart tdays"
proof -
  assume ne: "columns_all tstart tdays n \<noteq> []"
  then have n: "0 < n" by (cases n) (simp_all add: columns_all_def)
  have "hd (columns_all tstart tdays n) = columns_all tstart tdays n ! 0"
       "last (columns_all tstart tdays n) = columns_all tstart tdays n ! (n * 4 - 1)"
    using ne by (simp_all add: hd_conv_nth last_conv_nth)
  then show ?thesis using columns_first_last[OF n] by simp
qed

text \<open>
  The view \<open>ProjectCalendar\<close> computes is always well formed: one column per grid
  track, the columns contiguous and each non-empty or empty but never reversed, spanning
  exactly the padded timeline, at most 50 rows, and a positive day count.
\<close>

theorem calendar_view_wf: "view_wf (calendar_view today now proj tasks)"
proof -
  let ?v = "calendar_view today now proj tasks"
  have td: "1 \<le> total_days (view_timeline ?v)"
    by (simp add: calendar_view_fields total_days_pos)
  have rows: "length (view_rows ?v) \<le> max_rows"
    by (simp add: calendar_view_fields build_rows_def)
  have cols: "view_columns ?v = columns_all (timeline_start (view_timeline ?v))
                                 (total_days (view_timeline ?v)) (length (view_months ?v))"
    by (rule calendar_view_fields(4))
  have len: "length (view_columns ?v) = total_columns ?v" by (rule length_view_columns)
  show ?thesis
    unfolding view_wf_def Let_def
    using columns_all_shape[of "total_days (view_timeline ?v)"] columns_all_ends td rows len
    unfolding cols by simp
qed

subsection \<open>React keys\<close>

lemma decimal_inj: "decimal i = decimal j \<Longrightarrow> i = j"
  using parse_digits_acc_decimal[of 0 i] parse_digits_acc_decimal[of 0 j] by simp

lemma row_key_named: "row_name r \<noteq> [] \<Longrightarrow> row_key idx r = row_name r"
  by (simp add: row_key_def)

lemma build_rows_named: "r \<in> set (build_rows today proj tasks) \<Longrightarrow> row_name r \<noteq> []"
proof -
  assume "r \<in> set (build_rows today proj tasks)"
  then have "r \<in> set (map (build_row today proj) tasks)"
    by (auto simp: build_rows_def split: if_splits dest: in_set_takeD)
  then obtain t where "r = build_row today proj t" by auto
  then show ?thesis by (simp add: task_title_nonempty)
qed

lemma row_keys_named:
  "(\<And>r. r \<in> set rows \<Longrightarrow> row_name r \<noteq> []) \<Longrightarrow> row_keys rows = map row_name rows"
proof -
  assume named: "\<And>r. r \<in> set rows \<Longrightarrow> row_name r \<noteq> []"
  have "row_keys rows = map (\<lambda>(idx, r). row_key idx r) (zip [0..<length rows] rows)"
    by (simp add: row_keys_def enumerate_eq_zip)
  also have "\<dots> = map row_name rows"
  proof (rule nth_equalityI)
    fix i assume "i < length (map (\<lambda>(idx, r). row_key idx r) (zip [0..<length rows] rows))"
    then have i: "i < length rows" by simp
    then have "rows ! i \<in> set rows" by simp
    then show "map (\<lambda>(idx, r). row_key idx r) (zip [0..<length rows] rows) ! i = map row_name rows ! i"
      using i by (simp add: row_key_named named)
  qed simp
  finally show ?thesis .
qed

text \<open>
  C39: the sibling keys of the grid are unique exactly when the task titles are: a row's
  key is always its name (the name is never empty, so the index fallback of
  \<open>r.name || idx\<close> never applies), hence two tasks with the same title give two
  fragments with the same key; the cell keys inside one row are always unique.
\<close>

theorem react_keys_unique_iff:
  "row_keys (build_rows today proj tasks) = map row_name (build_rows today proj tasks) \<and>
   (distinct (row_keys (build_rows today proj tasks)) \<longleftrightarrow>
      distinct (map row_name (build_rows today proj tasks))) \<and>
   distinct (cell_keys cols r)"
proof -
  have k: "row_keys (build_rows today proj tasks) = map row_name (build_rows today proj tasks)"
    by (rule row_keys_named) (rule build_rows_named)
  have "inj_on (\<lambda>i. row_name r @ ''-c-'' @ decimal i) {0..<length cols}"
    by (rule inj_onI) (simp add: decimal_inj)
  then have "distinct (cell_keys cols r)" by (simp add: cell_keys_def distinct_map)
  then show ?thesis using k by simp
qed

lemma react_keys_unique_iff_witness:
  "\<not> distinct (row_keys (build_rows 0 None
      [\<lparr>task_id = ''1'', title = Some ''Survey'', due_date = None, created_at = None, task_status = ''TODO''\<rparr>,
       \<lparr>task_id = ''2'', title = Some ''Survey'', due_date = None, created_at = None, task_status = ''TODO''\<rparr>]))"
  using react_keys_unique_iff[of 0 None
          "[\<lparr>task_id = ''1'', title = Some ''Survey'', due_date = None, created_at = None, task_status = ''TODO''\<rparr>,
            \<lparr>task_id = ''2'', title = Some ''Survey'', due_date = None, created_at = None, task_status = ''TODO''\<rparr>]"
          "[]" "\<lparr>row_name = [], row_start = 0, row_end = 0, row_status = DEFAULT\<rparr>"]
  by (simp add: build_rows_def max_rows_def task_title_def)

end
