(* ===== verification/EvidenceConcurrent.thy ===== *)
theory EvidenceConcurrent
  imports Evidence
begin

text \<open>
  Concurrent requests to the evidence endpoint. Node.js runs one handler at a time, but
  \<open>addEvidence\<close> (src/server/controllers/evidenceController.js, lines 4--46) yields
  at each of its four \<open>await\<close>s: \<open>req.auth()\<close> (line 6), the task lookup (line 12),
  the project lookup with its members (line 20) and \<open>prisma.evidence.create\<close> (line 30);
  other requests run in between. A handler in flight is a process: its request, the
  clock reading it uses for \<open>new Date()\<close>, and the \<open>await\<close> it is suspended at
  (\<open>proc_phase\<close>). The server holds the store, the processes in arrival order and the
  order in which they answered. An event is the arrival of a request (multer stores its
  file, and the handler runs up to \<open>req.auth()\<close>), the resumption of one suspended
  handler at a clock reading, which runs it to its next \<open>await\<close> or its response, or
  the rejection of the promise a handler awaits (Clerk or the database failing), which
  sends it to the \<open>catch\<close> of lines 42--45: a 500 with the error's code, and
  \<open>Failed\<close> keeps the fact that the handler was cut short. Each database call is
  atomic at the resumption that receives its result; a rejected \<open>create\<close> has written
  nothing. Nothing in these sources writes tasks or projects, so no event changes them.
\<close>

datatype proc_phase =
    Authenticating
  | FindingTask
  | FindingProject string string
  | Creating string string
  | Responded response
  | Failed string

record proc =
  p_now :: timestamp
  p_req :: evidence_request
  p_phase :: proc_phase

record server =
  srv_db :: store
  srv_procs :: "proc list"
  srv_order :: "nat list"

datatype server_event =
    Arrive timestamp evidence_request
  | Resume nat timestamp
  | Reject nat string

fun is_responded :: "proc_phase \<Rightarrow> bool" where
  "is_responded (Responded _) = True"
| "is_responded (Failed _) = True"
| "is_responded _ = False"

fun is_failed :: "proc_phase \<Rightarrow> bool" where
  "is_failed (Failed _) = True"
| "is_failed _ = False"

text \<open>One resumption of a handler: the code from one \<open>await\<close> to the next. The date
  object of the record is built (line 36) in the same synchronous stretch that follows
  the project lookup, so \<open>new Date()\<close> reads the clock of that resumption.\<close>

fun proc_step ::
  "(string \<Rightarrow> timestamp option) \<Rightarrow> timestamp \<Rightarrow> store \<Rightarrow> proc \<Rightarrow> proc \<times> store" where
  "proc_step parse_date clk db p =
     (case p_phase p of
        Authenticating \<Rightarrow> (p\<lparr>p_phase := FindingTask\<rparr>, db)
      | FindingTask \<Rightarrow>
          (case body_task_id (p_req p) of
             None \<Rightarrow> (p\<lparr>p_phase := Responded (ServerError ''PrismaClientValidationError'')\<rparr>, db)
           | Some tid \<Rightarrow>
               (case db_tasks db tid of
                  None \<Rightarrow> (p\<lparr>p_phase := Responded (NotFound ''Task not found'')\<rparr>, db)
                | Some pid \<Rightarrow> (p\<lparr>p_phase := FindingProject tid pid\<rparr>, db)))
      | FindingProject tid pid \<Rightarrow>
          (case find_member db pid (req_user (p_req p)) of
             None \<Rightarrow> (p\<lparr>p_phase := Responded (Forbidden ''You are not a member of this project'')\<rparr>, db)
           | Some uid \<Rightarrow> (p\<lparr>p_now := clk, p_phase := Creating tid uid\<rparr>, db))
      | Creating tid uid \<Rightarrow>
          (case evidence_date (p_now p) parse_date (body_tanggal (p_req p)) of
             None \<Rightarrow> (p\<lparr>p_phase := Responded (ServerError ''PrismaClientValidationError'')\<rparr>, db)
           | Some d \<Rightarrow>
               (let ev = \<lparr>ev_task = tid, ev_user = uid, ev_content = body_keterangan (p_req p),
                          ev_image_url = image_url_of (req_file (p_req p)), ev_date = d\<rparr>
                in (p\<lparr>p_phase := Responded (Added ev)\<rparr>,
                    db\<lparr>db_evidence := db_evidence db @ [ev]\<rparr>)))
      | Responded r \<Rightarrow> (p, db)
      | Failed c \<Rightarrow> (p, db))"

fun server_step :: "(string \<Rightarrow> timestamp option) \<Rightarrow> server \<Rightarrow> server_event \<Rightarrow> server" where
  "server_step parse_date s (Arrive now rq) =
     s\<lparr>srv_db := multer_single (srv_db s) rq,
       srv_procs := srv_procs s @ [\<lparr>p_now = now, p_req = rq, p_phase = Authenticating\<rparr>]\<rparr>"
| "server_step parse_date s (Resume i clk) =
     (if i < length (srv_procs s) \<and> \<not> is_responded (p_phase (srv_procs s ! i)) then
        (let (p', db') = proc_step parse_date clk (srv_db s) (srv_procs s ! i)
         in s\<lparr>srv_db := db', srv_procs := (srv_procs s)[i := p'],
              srv_order := srv_order s @ (if is_responded (p_phase p') then [i] else [])\<rparr>)
      else s)"
| "server_step parse_date s (Reject i code) =
     (if i < length (srv_procs s) \<and> \<not> is_responded (p_phase (srv_procs s ! i)) then
        s\<lparr>srv_procs := (srv_procs s)[i := (srv_procs s ! i)\<lparr>p_phase := Failed code\<rparr>],
          srv_order := srv_order s @ [i]\<rparr>
      else s)"

definition server_run ::
  "(string \<Rightarrow> timestamp option) \<Rightarrow> server \<Rightarrow> server_event list \<Rightarrow> server" where
  "server_run parse_date s evs = fold (\<lambda>e s. server_step parse_date s e) evs s"

definition server_init :: "store \<Rightarrow> server" where
  "server_init db = \<lparr>srv_db = db, srv_procs = [], srv_order = []\<rparr>"

text \<open>The requests whose handler ran to its own response (no awaited call rejected), in
  the order they answered, as a sequential schedule for \<open>serve\<close>, and the responses
  they gave.\<close>

definition completed :: "server \<Rightarrow> nat list" where
  "completed s = filter (\<lambda>i. \<not> is_failed (p_phase (srv_procs s ! i))) (srv_order s)"

definition answered_requests :: "server \<Rightarrow> (timestamp \<times> evidence_request) list" where
  "answered_requests s = map (\<lambda>i. (p_now (srv_procs s ! i), p_req (srv_procs s ! i))) (completed s)"

definition answered_phases :: "server \<Rightarrow> proc_phase list" where
  "answered_phases s = map (\<lambda>i. p_phase (srv_procs s ! i)) (completed s)"

text \<open>The record a handler has written: one when it answered with \<open>Added\<close>.\<close>

fun added_records :: "proc_phase \<Rightarrow> evidence list" where
  "added_records (Responded (Added ev)) = [ev]"
| "added_records _ = []"

text \<open>The number of \<open>await\<close>s a handler still has to pass, and the events that
  settle the awaited promise of handler \<open>i\<close>.\<close>

fun phase_rank :: "proc_phase \<Rightarrow> nat" where
  "phase_rank Authenticating = 4"
| "phase_rank FindingTask = 3"
| "phase_rank (FindingProject _ _) = 2"
| "phase_rank (Creating _ _) = 1"
| "phase_rank (Responded _) = 0"
| "phase_rank (Failed _) = 0"

fun resumes :: "nat \<Rightarrow> server_event \<Rightarrow> bool" where
  "resumes i (Resume j _) = (i = j)"
| "resumes i (Reject j _) = (i = j)"
| "resumes i (Arrive _ _) = False"

text \<open>What a suspended handler already knows is what the sequential controller would
  find in a store with the same tasks and projects.\<close>

fun phase_ok :: "(string \<Rightarrow> timestamp option) \<Rightarrow> store \<Rightarrow> proc \<Rightarrow> bool" where
  "phase_ok parse_date db p =
     (case p_phase p of
        FindingProject tid pid \<Rightarrow> body_task_id (p_req p) = Some tid \<and> db_tasks db tid = Some pid
      | Creating tid uid \<Rightarrow>
          body_task_id (p_req p) = Some tid \<and>
          (case db_tasks db tid of
             None \<Rightarrow> False
           | Some pid \<Rightarrow> find_member db pid (req_user (p_req p)) = Some uid)
      | Responded r \<Rightarrow> r = fst (add_evidence (p_now p) parse_date db (p_req p))
      | _ \<Rightarrow> True)"

definition server_inv :: "(string \<Rightarrow> timestamp option) \<Rightarrow> store \<Rightarrow> server \<Rightarrow> bool" where
  "server_inv parse_date db s \<longleftrightarrow>
     db_tasks (srv_db s) = db_tasks db \<and> db_projects (srv_db s) = db_projects db \<and>
     list_all (phase_ok parse_date db) (srv_procs s) \<and>
     distinct (srv_order s) \<and>
     set (srv_order s) = {i. i < length (srv_procs s) \<and> is_responded (p_phase (srv_procs s ! i))} \<and>
     db_evidence (srv_db s) =
       db_evidence db @ concat (map (\<lambda>i. added_records (p_phase (srv_procs s ! i))) (srv_order s))"

subsection \<open>One handler against a fixed set of tasks and projects\<close>

lemma add_evidence_frame:
  assumes "db_tasks db' = db_tasks db" "db_projects db' = db_projects db"
  shows "add_evidence now parse_date db' rq =
           (fst (add_evidence now parse_date db rq),
            db'\<lparr>db_evidence := db_evidence db' @ added_records (Responded (fst (add_evidence now parse_date db rq)))\<rparr>)"
  using assms find_member_cong[OF assms(2)]
  by (auto simp: add_evidence_def Let_def split: option.splits)

lemma serve_frame:
  assumes "db_tasks db' = db_tasks db" "db_projects db' = db_projects db"
  shows "fst (serve parse_date db' rqs) = map (\<lambda>(n, rq). fst (add_evidence n parse_date db rq)) rqs \<and>
         db_evidence (snd (serve parse_date db' rqs)) =
           db_evidence db' @ concat (map (\<lambda>(n, rq). added_records (Responded (fst (add_evidence n parse_date db rq)))) rqs)"
  using assms
proof (induction rqs arbitrary: db')
  case (Cons nr rqs)
  obtain n rq where nr: "nr = (n, rq)" by fastforce
  let ?db1 = "multer_single db' rq"
  have t: "db_tasks ?db1 = db_tasks db" "db_projects ?db1 = db_projects db"
    using Cons.prems by simp_all
  let ?db2 = "?db1\<lparr>db_evidence := db_evidence db' @ added_records (Responded (fst (add_evidence n parse_date db rq)))\<rparr>"
  have r: "evidence_route n parse_date db' rq = (fst (add_evidence n parse_date db rq), ?db2)"
    using add_evidence_frame[OF t] by (simp add: evidence_route_def)
  have "db_tasks ?db2 = db_tasks db" "db_projects ?db2 = db_projects db" using t by simp_all
  note IH = Cons.IH[OF this]
  show ?case using IH r nr by (simp add: split_def)
qed simp

lemma concat_map_filter_Nil:
  "(\<And>x. x \<in> set xs \<Longrightarrow> \<not> P x \<Longrightarrow> f x = []) \<Longrightarrow> concat (map f (filter P xs)) = concat (map f xs)"
  by (induction xs) auto

lemma added_records_failed: "is_failed ph \<Longrightarrow> added_records ph = []"
  by (cases ph) simp_all

lemma phase_ok_responded:
  "phase_ok parse_date db p \<Longrightarrow> is_responded (p_phase p) \<Longrightarrow> \<not> is_failed (p_phase p) \<Longrightarrow>
     p_phase p = Responded (fst (add_evidence (p_now p) parse_date db (p_req p)))"
  by (cases "p_phase p") simp_all

lemma proc_step_ok:
  assumes "phase_ok parse_date db0 p" "\<not> is_responded (p_phase p)"
      and "db_tasks db = db_tasks db0" "db_projects db = db_projects db0"
      and "proc_step parse_date clk db p = (p', db')"
  shows "phase_ok parse_date db0 p' \<and> p_req p' = p_req p \<and>
         db' = db\<lparr>db_evidence := db_evidence db @ added_records (p_phase p')\<rparr>"
proof -
  have fm: "find_member db pid uid = find_member db0 pid uid" for pid uid
    by (rule find_member_cong) (rule assms(4))
  show ?thesis
  proof (cases "p_phase p")
    case FindingTask
    then show ?thesis using assms(3,5)
      by (auto simp: add_evidence_def split: option.splits)
  next
    case (FindingProject tid pid)
    then show ?thesis using assms(1,3,5) fm
      by (auto simp: add_evidence_def split: option.splits)
  next
    case (Creating tid uid)
    then show ?thesis using assms(1,3,5) fm
      by (auto simp: add_evidence_def Let_def split: option.splits)
  qed (use assms in auto)
qed

subsection \<open>Interleaved handlers\<close>

lemma server_init_inv: "server_inv parse_date db (server_init db)"
  by (simp add: server_inv_def server_init_def)

lemma server_inv_intro:
  assumes "db_tasks (srv_db s') = db_tasks db" "db_projects (srv_db s') = db_projects db"
      and "list_all (phase_ok parse_date db) (srv_procs s')" "distinct (srv_order s')"
      and "set (srv_order s') = {i. i < length (srv_procs s') \<and> is_responded (p_phase (srv_procs s' ! i))}"
      and "db_evidence (srv_db s') =
             db_evidence db @ concat (map (\<lambda>i. added_records (p_phase (srv_procs s' ! i))) (srv_order s'))"
  shows "server_inv parse_date db s'"
  using assms by (simp only: server_inv_def simp_thms)

lemma server_step_arrive_inv:
  assumes inv: "server_inv parse_date db s"
  shows "server_inv parse_date db (server_step parse_date s (Arrive now rq))"
proof (rule server_inv_intro)
  let ?s' = "server_step parse_date s (Arrive now rq)"
  let ?ps = "srv_procs s" and ?o = "srv_order s"
  have lt: "\<forall>i\<in>set ?o. i < length ?ps" using inv by (auto simp: server_inv_def)
  have "concat (map (\<lambda>i. added_records (p_phase (srv_procs ?s' ! i))) (srv_order ?s')) =
        concat (map (\<lambda>i. added_records (p_phase (?ps ! i))) ?o)"
    by (rule arg_cong[where f = concat], rule map_cong) (simp_all add: lt nth_append)
  then show "db_evidence (srv_db ?s') = db_evidence db @
               concat (map (\<lambda>i. added_records (p_phase (srv_procs ?s' ! i))) (srv_order ?s'))"
    using inv by (simp add: server_inv_def)
  have "{i. i < length (srv_procs ?s') \<and> is_responded (p_phase (srv_procs ?s' ! i))} =
        {i. i < length ?ps \<and> is_responded (p_phase (?ps ! i))}"
    by (auto simp: nth_append less_Suc_eq)
  then show "set (srv_order ?s') =
               {i. i < length (srv_procs ?s') \<and> is_responded (p_phase (srv_procs ?s' ! i))}"
    using inv by (simp add: server_inv_def)
qed (use inv in \<open>simp_all add: server_inv_def\<close>)

lemma server_step_resume_inv:
  assumes inv: "server_inv parse_date db s"
  shows "server_inv parse_date db (server_step parse_date s (Resume i clk))"
proof (cases "i < length (srv_procs s) \<and> \<not> is_responded (p_phase (srv_procs s ! i))")
  case True
  let ?ps = "srv_procs s" and ?o = "srv_order s"
  obtain p' db' where st: "proc_step parse_date clk (srv_db s) (?ps ! i) = (p', db')"
    by fastforce
  let ?s' = "server_step parse_date s (Resume i clk)"
  have s': "srv_procs ?s' = ?ps[i := p']" "srv_db ?s' = db'"
           "srv_order ?s' = ?o @ (if is_responded (p_phase p') then [i] else [])"
    using True st by simp_all
  have ok: "phase_ok parse_date db (?ps ! i)" using inv True by (simp add: server_inv_def list_all_length)
  have p': "phase_ok parse_date db p'"
      and db': "db' = srv_db s\<lparr>db_evidence := db_evidence (srv_db s) @ added_records (p_phase p')\<rparr>"
    using proc_step_ok[OF ok _ _ _ st] True inv by (simp_all add: server_inv_def)
  have notin: "i \<notin> set ?o" using inv True by (simp add: server_inv_def)
  show ?thesis
  proof (rule server_inv_intro)
    have "concat (map (\<lambda>j. added_records (p_phase (?ps[i := p'] ! j))) ?o) =
          concat (map (\<lambda>j. added_records (p_phase (?ps ! j))) ?o)"
      by (rule arg_cong[where f = concat], rule map_cong[OF refl]) (metis notin nth_list_update_neq)
    moreover have "\<not> is_responded (p_phase p') \<Longrightarrow> added_records (p_phase p') = []"
      by (cases "p_phase p'") simp_all
    ultimately show "db_evidence (srv_db ?s') = db_evidence db @
               concat (map (\<lambda>i. added_records (p_phase (srv_procs ?s' ! i))) (srv_order ?s'))"
      using inv True unfolding s' db' by (simp add: server_inv_def)
    have "{j. j < length (?ps[i := p']) \<and> is_responded (p_phase (?ps[i := p'] ! j))} =
          {j. j < length ?ps \<and> is_responded (p_phase (?ps ! j))} \<union>
          (if is_responded (p_phase p') then {i} else {})"
      using True by (auto simp: nth_list_update)
    then show "set (srv_order ?s') =
                 {i. i < length (srv_procs ?s') \<and> is_responded (p_phase (srv_procs ?s' ! i))}"
      using inv unfolding s' by (simp add: server_inv_def)
    show "distinct (srv_order ?s')" using inv notin unfolding s' by (simp add: server_inv_def)
    show "list_all (phase_ok parse_date db) (srv_procs ?s')"
      using inv p' set_update_subset_insert[of ?ps i p'] unfolding s'
      by (auto simp: server_inv_def list_all_iff simp del: phase_ok.simps)
  qed (use inv db' s' in \<open>simp_all add: server_inv_def\<close>)
next
  case False
  then have "server_step parse_date s (Resume i clk) = s" by (auto simp del: proc_step.simps)
  then show ?thesis using inv by simp
qed

lemma server_step_reject_inv:
  assumes inv: "server_inv parse_date db s"
  shows "server_inv parse_date db (server_step parse_date s (Reject i code))"
proof (cases "i < length (srv_procs s) \<and> \<not> is_responded (p_phase (srv_procs s ! i))")
  case True
  let ?ps = "srv_procs s" and ?o = "srv_order s"
  let ?p' = "(?ps ! i)\<lparr>p_phase := Failed code\<rparr>"
  let ?s' = "server_step parse_date s (Reject i code)"
  have s': "srv_procs ?s' = ?ps[i := ?p']" "srv_db ?s' = srv_db s" "srv_order ?s' = ?o @ [i]"
    using True by simp_all
  have notin: "i \<notin> set ?o" using inv True by (simp add: server_inv_def)
  show ?thesis
  proof (rule server_inv_intro)
    have "concat (map (\<lambda>j. added_records (p_phase (?ps[i := ?p'] ! j))) ?o) =
          concat (map (\<lambda>j. added_records (p_phase (?ps ! j))) ?o)"
      by (rule arg_cong[where f = concat], rule map_cong[OF refl]) (metis notin nth_list_update_neq)
    then show "db_evidence (srv_db ?s') = db_evidence db @
               concat (map (\<lambda>i. added_records (p_phase (srv_procs ?s' ! i))) (srv_order ?s'))"
      using inv True unfolding s' by (simp add: server_inv_def)
    have "{j. j < length (?ps[i := ?p']) \<and> is_responded (p_phase (?ps[i := ?p'] ! j))} =
          insert i {j. j < length ?ps \<and> is_responded (p_phase (?ps ! j))}"
      using True by (auto simp: nth_list_update)
    then show "set (srv_order ?s') =
                 {i. i < length (srv_procs ?s') \<and> is_responded (p_phase (srv_procs ?s' ! i))}"
      using inv unfolding s' by (simp add: server_inv_def)
    show "distinct (srv_order ?s')" using inv notin unfolding s' by (simp add: server_inv_def)
    show "list_all (phase_ok parse_date db) (srv_procs ?s')"
      using inv set_update_subset_insert[of ?ps i ?p'] unfolding s'
      by (auto simp: server_inv_def list_all_iff)
  qed (use inv s' in \<open>simp_all add: server_inv_def\<close>)
next
  case False
  then have "server_step parse_date s (Reject i code) = s" by auto
  then show ?thesis using inv by simp
qed

lemma server_run_inv:
  "server_inv parse_date db s \<Longrightarrow> server_inv parse_date db (server_run parse_date s evs)"
proof (induction evs arbitrary: s)
  case (Cons e evs)
  have "server_inv parse_date db (server_step parse_date s e)"
    using Cons.prems server_step_arrive_inv server_step_resume_inv server_step_reject_inv
    by (cases e) simp_all
  then show ?case using Cons.IH by (simp add: server_run_def)
qed (simp add: server_run_def)

subsection \<open>Serializability\<close>

text \<open>
  C26: however the handlers of concurrent requests interleave at their \<open>await\<close>s,
  and whichever of their awaited calls fail, the outcome is that of serving the requests
  that ran to their own response one after another, in the order they answered: each of
  them got the response the sequential controller gives it, the evidence table is the one
  the sequential server builds, and no task or project changes. A request still in
  flight, or one whose awaited call was rejected, has written nothing.
\<close>

theorem concurrent_requests_serializable:
  "answered_phases (server_run parse_date (server_init db) evs) =
     map Responded (fst (serve parse_date db (answered_requests (server_run parse_date (server_init db) evs)))) \<and>
   db_evidence (srv_db (server_run parse_date (server_init db) evs)) =
     db_evidence (snd (serve parse_date db (answered_requests (server_run parse_date (server_init db) evs)))) \<and>
   db_tasks (srv_db (server_run parse_date (server_init db) evs)) = db_tasks db \<and>
   db_projects (srv_db (server_run parse_date (server_init db) evs)) = db_projects db"
proof -
  let ?s = "server_run parse_date (server_init db) evs"
  have inv: "server_inv parse_date db ?s" by (rule server_run_inv[OF server_init_inv])
  let ?ps = "srv_procs ?s" and ?o = "srv_order ?s"
  have resp: "p_phase (?ps ! i) = Responded (fst (add_evidence (p_now (?ps ! i)) parse_date db (p_req (?ps ! i))))"
    if "i \<in> set (completed ?s)" for i
  proof (rule phase_ok_responded)
    have "i \<in> set ?o" and nf: "\<not> is_failed (p_phase (?ps ! i))" using that by (simp_all add: completed_def)
    then have "i < length ?ps" "is_responded (p_phase (?ps ! i))" using inv by (auto simp: server_inv_def)
    then show "phase_ok parse_date db (?ps ! i)" "is_responded (p_phase (?ps ! i))"
              "\<not> is_failed (p_phase (?ps ! i))"
      using inv nf by (auto simp: server_inv_def list_all_length simp del: phase_ok.simps)
  qed
  note sf = serve_frame[of db db parse_date "answered_requests ?s", OF refl refl]
  have "answered_phases ?s = map Responded (fst (serve parse_date db (answered_requests ?s)))"
    using resp sf by (simp add: answered_phases_def answered_requests_def comp_def)
  moreover have "concat (map (\<lambda>i. added_records (p_phase (?ps ! i))) ?o) =
                 concat (map (\<lambda>i. added_records (p_phase (?ps ! i))) (completed ?s))"
    unfolding completed_def by (rule concat_map_filter_Nil[symmetric]) (simp add: added_records_failed)
  moreover have "concat (map (\<lambda>i. added_records (p_phase (?ps ! i))) (completed ?s)) =
     concat (map (\<lambda>(n, rq). added_records (Responded (fst (add_evidence n parse_date db rq)))) (answered_requests ?s))"
    unfolding answered_requests_def
    by (rule arg_cong[where f = concat]) (simp add: resp)
  ultimately show ?thesis using inv sf by (simp add: server_inv_def)
qed

subsection \<open>Progress\<close>

lemma phase_rank_zero: "phase_rank ph = 0 \<longleftrightarrow> is_responded ph"
  by (cases ph) simp_all

lemma proc_step_rank:
  "\<not> is_responded (p_phase p) \<Longrightarrow>
     phase_rank (p_phase (fst (proc_step parse_date clk db p))) < phase_rank (p_phase p)"
  by (cases "p_phase p") (simp_all add: Let_def split: option.splits)

lemma server_step_rank:
  assumes "i < length (srv_procs s)"
  shows "i < length (srv_procs (server_step parse_date s e)) \<and>
         phase_rank (p_phase (srv_procs (server_step parse_date s e) ! i)) \<le>
           phase_rank (p_phase (srv_procs s ! i)) - (if resumes i e then 1 else 0)"
proof (cases e)
  case (Arrive now rq)
  then show ?thesis using assms by (simp add: nth_append)
next
  case (Resume j clk)
  show ?thesis
  proof (cases "j < length (srv_procs s) \<and> \<not> is_responded (p_phase (srv_procs s ! j))")
    case True
    obtain p' db' where st: "proc_step parse_date clk (srv_db s) (srv_procs s ! j) = (p', db')"
      by fastforce
    have "j = i \<Longrightarrow> phase_rank (p_phase p') < phase_rank (p_phase (srv_procs s ! i))"
      using proc_step_rank[of "srv_procs s ! j" parse_date clk "srv_db s"] True st by simp
    then show ?thesis using True st assms Resume by (auto simp: nth_list_update)
  next
    case False
    then have "server_step parse_date s e = s" using Resume by (auto simp del: proc_step.simps)
    moreover have "resumes i e \<Longrightarrow> phase_rank (p_phase (srv_procs s ! i)) = 0"
      using False Resume assms by (simp add: phase_rank_zero)
    ultimately show ?thesis using assms by simp
  qed
next
  case (Reject j code)
  have "is_responded (p_phase (srv_procs s ! i)) \<Longrightarrow> phase_rank (p_phase (srv_procs s ! i)) = 0"
    by (simp add: phase_rank_zero)
  then show ?thesis
    using assms Reject by (auto simp: nth_list_update)
qed

lemma server_run_rank:
  "i < length (srv_procs s) \<Longrightarrow>
     i < length (srv_procs (server_run parse_date s evs)) \<and>
     phase_rank (p_phase (srv_procs (server_run parse_date s evs) ! i)) \<le>
       phase_rank (p_phase (srv_procs s ! i)) - length (filter (resumes i) evs)"
proof (induction evs arbitrary: s)
  case (Cons e evs)
  note st = server_step_rank[OF Cons.prems, of parse_date e]
  from Cons.IH[OF st[THEN conjunct1]] st show ?case
    by (auto simp: server_run_def)
qed (simp add: server_run_def)

text \<open>
  C16: no handler hangs: a request in flight has answered (with its own response or the
  500 of the \<open>catch\<close>) once the promises it awaits have settled four times, whatever
  other requests arrive and run in between.
\<close>

theorem request_answered:
  "i < length (srv_procs s) \<Longrightarrow> 4 \<le> length (filter (resumes i) evs) \<Longrightarrow>
     is_responded (p_phase (srv_procs (server_run parse_date s evs) ! i))"
proof -
  assume i: "i < length (srv_procs s)" and n: "4 \<le> length (filter (resumes i) evs)"
  have "phase_rank (p_phase (srv_procs s ! i)) \<le> 4" by (cases "p_phase (srv_procs s ! i)") simp_all
  then have "phase_rank (p_phase (srv_procs (server_run parse_date s evs) ! i)) = 0"
    using server_run_rank[OF i, of parse_date evs] n by simp
  then show ?thesis by (simp add: phase_rank_zero)
qed

text \<open>Two members post evidence for the same task; the first request's handler is
  overtaken at its project lookup, so its record is stored second.\<close>

lemma overtaken_request_stored_second:
  "map ev_user (db_evidence (srv_db (server_run (\<lambda>_. None)
      (server_init \<lparr>db_tasks = [''t1'' \<mapsto> ''p1''], db_projects = [''p1'' \<mapsto> [''a'', ''b'']],
                    db_evidence = [], db_uploads = []\<rparr>)
      [Arrive 1 \<lparr>req_user = Some ''a'', body_keterangan = None, body_tanggal = None,
                body_task_id = Some ''t1'', req_file = None\<rparr>,
       Arrive 2 \<lparr>req_user = Some ''b'', body_keterangan = None, body_tanggal = None,
                body_task_id = Some ''t1'', req_file = None\<rparr>,
       Resume 0 3, Resume 0 3, Resume 1 4, Resume 1 4, Resume 1 5, Resume 1 6, Resume 0 7, Resume 0 8]))) =
   [''b'', ''a'']"
  by (simp add: server_run_def server_init_def multer_single_def find_member_def evidence_date_def
                image_url_of_def Let_def)

lemma request_answered_witness:
  "0 < length (srv_procs (server_run (\<lambda>_. None) (server_init \<lparr>db_tasks = Map.empty, db_projects = Map.empty, db_evidence = [], db_uploads = []\<rparr>) [Arrive 1 \<lparr>req_user = Some ''u1'', body_keterangan = None, body_tanggal = None, body_task_id = Some ''t9'', req_file = None\<rparr>])) \<and>
   4 \<le> length (filter (resumes 0) [Resume 0 2, Arrive 3 \<lparr>req_user = Some ''u1'', body_keterangan = None, body_tanggal = None, body_task_id = Some ''t9'', req_file = None\<rparr>, Resume 1 4, Resume 0 5, Resume 0 6, Resume 0 7]) \<and>
   is_responded (p_phase (srv_procs (server_run (\<lambda>_. None)
      (server_run (\<lambda>_. None) (server_init \<lparr>db_tasks = Map.empty, db_projects = Map.empty, db_evidence = [], db_uploads = []\<rparr>) [Arrive 1 \<lparr>req_user = Some ''u1'', body_keterangan = None, body_tanggal = None, body_task_id = Some ''t9'', req_file = None\<rparr>])
      [Resume 0 2, Arrive 3 \<lparr>req_user = Some ''u1'', body_keterangan = None, body_tanggal = None, body_task_id = Some ''t9'', req_file = None\<rparr>, Resume 1 4, Resume 0 5, Resume 0 6, Resume 0 7]) ! 0))"
proof -
  have h: "0 < length (srv_procs (server_run (\<lambda>_. None) (server_init \<lparr>db_tasks = Map.empty, db_projects = Map.empty, db_evidence = [], db_uploads = []\<rparr>) [Arrive 1 \<lparr>req_user = Some ''u1'', body_keterangan = None, body_tanggal = None, body_task_id = Some ''t9'', req_file = None\<rparr>]))"
    by (simp add: server_run_def server_init_def)
  have k: "4 \<le> length (filter (resumes 0) [Resume 0 2, Arrive 3 \<lparr>req_user = Some ''u1'', body_keterangan = None, body_tanggal = None, body_task_id = Some ''t9'', req_file = None\<rparr>, Resume 1 4, Resume 0 5, Resume 0 6, Resume 0 7])"
    by simp
  show ?thesis using h k request_answered[OF h k] by blast
qed

end
