(* ===== verification/CalendarPage.thy ===== *)
theory CalendarPage
  imports CalendarView DragScroll
begin

text \<open>
  The mounted \<open>ProjectCalendar\<close> as one system (src/client/src/components/ProjectCalendar.jsx):
  the computed view, the scroller's \<open>clientWidth\<close>, the resize effect (lines 103--116)
  with the \<open>computedCellSize\<close> state it sets, and the drag-to-scroll state of the scroller
  (lines 157--196). The components meet in the layout: the grid inside the scroller has
  minimum width \<open>leftWidth + totalColumns * computedCellSize + rightWidth\<close> (line 197),
  so the scroll range the drag handlers see is set by the cell size the effect computed.
  After every commit of React and every change of the scroller's width the browser lays
  the scroller out again (\<open>relayout\<close>): the new scroll range, with \<open>scrollLeft\<close>
  clamped into it. An event of the page is a render with a new view (new tasks or a new
  project), a window resize, a change of the scroller's width that fires no window
  \<open>resize\<close> event (a sidebar opening, a parent's layout changing), or a pointer event on
  the scroller. The scroller is always rendered, so the effect always finds its element.
\<close>

record page =
  pg_view :: calendar_view
  pg_width :: int
  pg_effect :: effect_state
  pg_drag :: drag_state

datatype page_event =
    Render calendar_view
  | WindowResized int
  | ScrollerResized int
  | Pointer pointer_event

definition relayout :: "page \<Rightarrow> page" where
  "relayout p =
     p\<lparr>pg_drag := set_scroll_left
                   ((pg_drag p)\<lparr>max_scroll := max 0 (grid_min_width (pg_view p) (cell_size (pg_effect p)) - pg_width p)\<rparr>)
                   (scroll_left (pg_drag p))\<rparr>"

definition drag_init :: "int \<Rightarrow> drag_state" where
  "drag_init ol = \<lparr>is_dragging = False, start_x = 0, saved_scroll = 0, scroll_left = 0,
                   offset_left = ol, max_scroll = 0, grabbing = False\<rparr>"

text \<open>The first render and the effect's first run (\<open>resize()\<close>, line 112).\<close>

definition page_mount :: "calendar_view \<Rightarrow> int \<Rightarrow> int \<Rightarrow> page" where
  "page_mount v w ol =
     relayout \<lparr>pg_view = v, pg_width = w,
               pg_effect = effect_step effect_init (Mount (length (view_months v)) True w),
               pg_drag = drag_init ol\<rparr>"

fun page_step :: "page \<Rightarrow> page_event \<Rightarrow> page" where
  "page_step p (Render v) =
     relayout (p\<lparr>pg_view := v,
                 pg_effect := effect_step (pg_effect p) (Rerender (length (view_months v)) True (pg_width p))\<rparr>)"
| "page_step p (WindowResized w) =
     relayout (p\<lparr>pg_width := w, pg_effect := effect_step (pg_effect p) (WindowResize w)\<rparr>)"
| "page_step p (ScrollerResized w) = relayout (p\<lparr>pg_width := w\<rparr>)"
| "page_step p (Pointer e) = p\<lparr>pg_drag := drag_step (pg_drag p) e\<rparr>"

definition page_run :: "page \<Rightarrow> page_event list \<Rightarrow> page" where
  "page_run p evs = fold (\<lambda>e p. page_step p e) evs p"

text \<open>The invariant of the mounted page: one listener, registered by the run of the
  effect for the current month count; the scroller's range is the one the current grid
  leaves; the offset lies in it.\<close>

definition page_inv :: "page \<Rightarrow> bool" where
  "page_inv p \<longleftrightarrow>
     effect_inv (pg_effect p) \<and> mounted (pg_effect p) \<and> cleanup (pg_effect p) \<noteq> None \<and>
     deps (pg_effect p) = length (view_months (pg_view p)) \<and>
     max_scroll (pg_drag p) = max 0 (grid_min_width (pg_view p) (cell_size (pg_effect p)) - pg_width p) \<and>
     scroll_in_bounds (pg_drag p)"

subsection \<open>The invariant of the page\<close>

lemma relayout_fields [simp]:
  "pg_view (relayout p) = pg_view p" "pg_width (relayout p) = pg_width p"
  "pg_effect (relayout p) = pg_effect p"
  "max_scroll (pg_drag (relayout p)) = max 0 (grid_min_width (pg_view p) (cell_size (pg_effect p)) - pg_width p)"
  "offset_left (pg_drag (relayout p)) = offset_left (pg_drag p)"
  by (simp_all add: relayout_def set_scroll_left_def)

lemma relayout_bounds: "scroll_in_bounds (pg_drag (relayout p))"
  by (simp add: relayout_def set_scroll_left_def scroll_in_bounds_def)

lemma relayout_inv:
  "effect_inv (pg_effect p) \<Longrightarrow> mounted (pg_effect p) \<Longrightarrow> cleanup (pg_effect p) \<noteq> None \<Longrightarrow>
   deps (pg_effect p) = length (view_months (pg_view p)) \<Longrightarrow> page_inv (relayout p)"
  by (simp add: page_inv_def relayout_bounds)

lemma page_mount_inv: "page_inv (page_mount v w ol)"
  unfolding page_mount_def by (rule relayout_inv) (simp_all add: effect_init_def run_effect_def effect_inv_def Let_def)

lemma page_step_inv: "page_inv p \<Longrightarrow> page_inv (page_step p e)"
proof (cases e)
  case (Render v)
  assume i: "page_inv p"
  let ?s' = "effect_step (pg_effect p) (Rerender (length (view_months v)) True (pg_width p))"
  have e: "effect_inv (pg_effect p)" "mounted (pg_effect p)" "cleanup (pg_effect p) \<noteq> None"
    using i by (simp_all add: page_inv_def)
  note r = effect_rerender_registered[OF e, of "length (view_months v)" "pg_width p"]
  have "effect_inv ?s'" using e(1) by (rule effect_step_inv)
  then show ?thesis unfolding Render page_step.simps using r by (intro relayout_inv) (simp_all del: effect_step.simps)
next
  case (WindowResized w)
  assume i: "page_inv p"
  have "effect_inv (effect_step (pg_effect p) (WindowResize w))"
    using i by (simp add: page_inv_def effect_step_inv del: effect_step.simps)
  then show ?thesis unfolding WindowResized page_step.simps
    using i by (intro relayout_inv) (simp_all add: page_inv_def)
next
  case (ScrollerResized w)
  assume i: "page_inv p"
  show ?thesis unfolding ScrollerResized page_step.simps
    using i by (intro relayout_inv) (simp_all add: page_inv_def)
next
  case (Pointer pe)
  assume i: "page_inv p"
  then show ?thesis using Pointer drag_step_bounds[of "pg_drag p" pe] by (simp add: page_inv_def)
qed

lemma page_run_inv: "page_inv p \<Longrightarrow> page_inv (page_run p evs)"
  by (induction evs arbitrary: p) (simp_all add: page_run_def page_step_inv)

lemma page_run_pointers:
  "page_run p (map Pointer es) = p\<lparr>pg_drag := drag_run (pg_drag p) es\<rparr>"
  by (induction es arbitrary: p) (simp_all add: page_run_def)

lemma window_resized_cell:
  assumes "page_inv p"
  shows "cell_size (pg_effect (page_step p (WindowResized w))) = resize_cell_size w (length (view_months (pg_view p)))"
  using assms effect_resize_cell[of "pg_effect p" w] by (simp add: page_inv_def)

lemma window_resized_range:
  assumes "page_inv p"
  shows "max_scroll (pg_drag (page_step p (WindowResized w))) = scroll_range (pg_view p) w \<and>
         cell_size (pg_effect (page_step p (WindowResized w))) = resize_cell_size w (length (view_months (pg_view p)))"
  using window_resized_cell[OF assms] by (simp add: scroll_range_def)



subsection \<open>Well-formedness of the running page\<close>


subsection \<open>The layout promise, composed\<close>

text \<open>
  C18: on the running page, whatever happened before (renders with other tasks, resizes,
  gestures), the window \<open>resize\<close> listener restores the promise of the effect's comment:
  once the window is resized to a card with room for the visible months at the minimum
  cell size, the scroller's range is the one \<open>scroll_range\<close> gives, so no gesture
  scrolls a calendar of at most twelve months, and a longer one scrolls at most by the
  width of the months beyond the twelfth.
\<close>

theorem window_resize_restores_fit:
  assumes "MIN_CELL * max_cols (length (view_months (pg_view (page_run (page_mount v0 w0 ol) evs))))
             \<le> w - left_width - right_width"
  shows "let p = page_run (page_mount v0 w0 ol) evs; n = length (view_months (pg_view p));
             q = page_run p (WindowResized w # map Pointer es)
         in max_scroll (pg_drag q) = scroll_range (pg_view p) w \<and>
            0 \<le> scroll_left (pg_drag q) \<and>
            scroll_left (pg_drag q) \<le> int (4 * (n - 12)) * cell_size (pg_effect q) \<and>
            (max_scroll (pg_drag q) = 0 \<longleftrightarrow> n \<le> 12)"
proof -
  let ?p = "page_run (page_mount v0 w0 ol) evs"
  let ?p1 = "page_step ?p (WindowResized w)"
  have inv: "page_inv ?p" by (rule page_run_inv[OF page_mount_inv])
  have inv1: "page_inv ?p1" by (rule page_step_inv[OF inv])
  have q: "page_run ?p (WindowResized w # map Pointer es) = ?p1\<lparr>pg_drag := drag_run (pg_drag ?p1) es\<rparr>"
    using page_run_pointers[of ?p1 es] by (simp add: page_run_def)
  note r = window_resized_range[OF inv, of w]
  have b: "scroll_in_bounds (drag_run (pg_drag ?p1) es)"
    using inv1 by (intro drag_run_bounds) (simp_all add: page_inv_def)
  show ?thesis
    unfolding Let_def q using b r scroll_range_bound[OF assms]
    by (auto simp: scroll_in_bounds_def)
qed

lemma window_resize_restores_fit_witness:
  "max_scroll (pg_drag (page_run (page_mount \<lparr>view_rows = [], view_timeline = \<lparr>timeline_start = 0, timeline_end = 0, total_days = 1\<rparr>,
              view_months = replicate 12 \<lparr>month_label = [], month_begin = 0\<rparr>, view_columns = []\<rparr> 2000 0)
                 [ScrollerResized 900, WindowResized 1300, Pointer (MouseDown 500), Pointer (MouseMove 100)])) = 0 \<and>
   scroll_left (pg_drag (page_run (page_mount \<lparr>view_rows = [], view_timeline = \<lparr>timeline_start = 0, timeline_end = 0, total_days = 1\<rparr>,
              view_months = replicate 12 \<lparr>month_label = [], month_begin = 0\<rparr>, view_columns = []\<rparr> 2000 0)
                 [ScrollerResized 900, WindowResized 1300, Pointer (MouseDown 500), Pointer (MouseMove 100)])) = 0"
proof -
  have "MIN_CELL * max_cols (length (view_months (pg_view (page_run (page_mount \<lparr>view_rows = [], view_timeline = \<lparr>timeline_start = 0, timeline_end = 0, total_days = 1\<rparr>,
              view_months = replicate 12 \<lparr>month_label = [], month_begin = 0\<rparr>, view_columns = []\<rparr> 2000 0) [ScrollerResized 900]))))
          \<le> 1300 - left_width - right_width"
    by (simp add: page_run_def page_mount_def relayout_def max_cols_def MONTHS_PER_PAGE_def MIN_CELL_def
                  left_width_def right_width_def)
  from window_resize_restores_fit[OF this, of "[MouseDown 500, MouseMove 100]"]
  show ?thesis by (simp add: Let_def page_run_def page_mount_def relayout_def)
qed


end
