(* ===== verification/Spec2Isabelle.thy ===== *)
theory Spec2Isabelle
  imports CalendarView DragScroll System DialogFlow IsoDate ViewShape EvidenceConcurrent CalendarPage
begin

text \<open>
  \<^bold>\<open>A verification development of PMO-App-AirNav.\<close>

  \<^emph>\<open>The program.\<close> A project-tracking web application. Its client renders a project
  timeline (src/client/src/components/ProjectCalendar.jsx) and lets members attach
  evidence to tasks (src/client/src/components/AddFileDialog.jsx); its Express server
  (src/server/server.js, src/server/routes/evidenceRoute.js,
  src/server/controllers/evidenceController.js) stores evidence records after an
  authentication and a project-membership check. The algorithmic core is the timeline:
  tasks become rows, the rows give a padded date span, the span is divided into
  calendar months and each month into four equal "week" columns, and a row fills the
  cells whose column interval meets its own; a drag gesture scrolls the grid and a
  resize listener sizes its cells.

  \<^emph>\<open>Theories and what they model.\<close>
  \<^item> \<open>Prelude\<close>: timestamps (\<open>int\<close> milliseconds), floor-division lemmas
    (\<open>Math.floor\<close> is \<open>div\<close>), the slot lemma for boundary sequences, the
    \<open>date_simps\<close> and \<open>layout_simps\<close> collections.
  \<^item> \<open>Calendar\<close>: the date-fns functions the timeline calls (\<open>addDays\<close>,
    \<open>differenceInCalendarDays\<close>, \<open>startOfMonth\<close>, \<open>addMonths\<close>, \<open>format\<close>) on a
    proleptic Gregorian calendar. date-fns is a library, not code of this repository:
    these definitions are modelled from its documented behaviour (spec_modelled in the
    map). Lemmas: every day lies in exactly one month (\<open>month_index_bracket\<close>,
    \<open>month_index_unique\<close>), consecutive month starts are one month length apart,
    \<open>addMonths\<close> by one strictly advances a date and maps the first of a month to
    the first of the next.
  \<^item> \<open>Rows\<close>: the \<open>rows\<close> memo and \<open>statusColors\<close> (\<open>build_row\<close>,
    \<open>build_rows\<close>, \<open>derive_status\<close>, \<open>row_start_of\<close>).
  \<^item> \<open>Timeline\<close>: the span memo (\<open>timeline_range\<close>; its \<open>forEach\<close> is a
    \<open>fold\<close> of \<open>range_step\<close>, proved equal to \<open>Min\<close>/\<open>Max\<close>).
  \<^item> \<open>Grid\<close>: \<open>monthsAll\<close> (\<open>months_from\<close>, the \<open>while\<close> loop, a
    \<open>function\<close> terminating by the distance of the cursor to \<open>timelineEnd\<close>, proved
    equal to the count-based \<open>month_segs\<close>), \<open>columnsAll\<close> (\<open>columns_all\<close>, with
    \<open>Math.round\<close> as \<open>js_round_div\<close>), the fill test (\<open>overlaps\<close>) and the
    cells of \<open>renderRow\<close> (\<open>render_row\<close>).
  \<^item> \<open>CalendarView\<close>: the composition of the memos (\<open>calendar_view\<close>), the CSS
    grid's children and spans (\<open>grid_blocks\<close>, \<open>item_span\<close>), the responsive cell
    size (\<open>resize_cell_size\<close>) and the scroll range it leaves the scroller
    (\<open>scroll_range\<close>: twelve months fit without scrolling when the card has room for
    them at the minimum size), and the lifecycle of the resize effect as a state
    machine (\<open>effect_step\<close>, \<open>effect_reachable\<close>, invariant \<open>effect_inv\<close>).
  \<^item> \<open>DragScroll\<close>: the six pointer handlers of the scroller as one step function
    \<open>drag_step\<close> over \<open>pointer_event\<close>s on a record of the three refs and the
    scroller element; the browser's clamping of \<open>scrollLeft\<close> is \<open>set_scroll_left\<close>.
    Lemmas: the offset stays in bounds over any run, a press followed by moves is a
    path-independent 1:1 mapping, release ends a drag, and with the mouse alone the
    grab cursor tracks the drag (the touch handlers break this).
  \<^item> \<open>Evidence\<close>: \<open>addEvidence\<close> (\<open>add_evidence\<close>) on an explicit store of
    tasks, projects with their members, evidence records and uploaded files, with every
    early return and the \<open>catch\<close> a constructor of \<open>response\<close>; the route
    (\<open>evidence_route\<close>) runs multer (\<open>multer_single\<close>) before the controller.
    \<open>serve\<close> processes requests one after another. Lemmas: only members create
    evidence, the success path appends exactly one record, rejections change no record
    but keep the uploaded file, the order of the checks discloses task existence, and
    referential integrity of the evidence table (\<open>store_inv\<close>) holds over any run.
  \<^item> \<open>Server\<close>: Express as a stack of layers (\<open>layer\<close>, \<open>dispatch\<close>: first
    matching layer, \<open>None\<close> for the final 404), the stack of server.js
    (\<open>app_layers\<close>), the evidence router (\<open>evidence_router\<close>) and start-up
    (\<open>boot\<close>).
  \<^item> \<open>EvidenceConcurrent\<close>: concurrent requests to the evidence route. Each
    \<open>addEvidence\<close> in flight is a process suspended at one of its four \<open>await\<close>s
    (\<open>proc_phase\<close>); \<open>server_step\<close> takes the arrival of a request, the
    resumption of one handler (\<open>proc_step\<close>) or the rejection of the call it awaits
    (the \<open>catch\<close>: a 500 and \<open>Failed\<close>), and \<open>server_run\<close> any schedule of
    them. Lemmas: the invariant \<open>server_inv\<close> (what each suspended handler has read
    agrees with the sequential controller; the evidence table is the initial one plus
    the records of the answered handlers in answer order), serializability against
    \<open>serve\<close> for the handlers that ran to their own response, progress (four
    resumptions answer any handler), and a run in which the first request is overtaken
    and its record stored second.
  \<^item> \<open>Dialog\<close>: \<open>AddFileDialog\<close>'s state and handlers, with \<open>handleSubmit\<close>
    (\<open>handle_submit\<close>) written against an API interface \<open>'srv api\<close> whose server
    state is a type variable, so its lemmas (the outcome of a submission, the order of
    its two requests) hold for every backend.
  \<^item> \<open>System\<close>: the glue that instantiates the interface with the modelled server:
    \<open>request_of_payload\<close> (the form as the controller's body), \<open>reply_of\<close> (the
    controller's response as an axios reply) and \<open>server_api\<close>.
  \<^item> \<open>DialogFlow\<close>: the rendered dialog (\<open>render_dialog\<close>) and \<open>handleSubmit\<close> cut
    at its two \<open>await\<close>s (\<open>flow_step\<close>, phases \<open>Idle\<close>, \<open>AwaitWeekly\<close>,
    \<open>AwaitEvidence\<close>), so that typing, Cancel, repeated submits and the server's
    replies interleave. Lemmas: the phase invariant \<open>flow_inv\<close> (Save disabled exactly
    while pending; the request log, checked by \<open>log_ok\<close>, never interleaves two
    submissions), refinement of the sequential \<open>handle_submit\<close>, completion once the
    server has answered, and the loss of edits typed while saving.
  \<^item> \<open>IsoDate\<close>: the date input's value (\<open>format_iso_date\<close>, yyyy-MM-dd), HTML's
    valid date strings (\<open>date_string_value\<close>) and V8's parse behind \<open>new
    Date(tanggal)\<close> on Node.js (\<open>v8_parse_date\<close>: yyyy-MM-dd with month 1--12 and
    day 1--31, a day past the month's end carried into the next month; any other string
    to V8's legacy parser, a parameter), modelled from the HTML standard and V8. Lemmas:
    the round trip of the date input through the controller, and the silent roll-over
    of an overflowing day, stored with 200.
  \<^item> \<open>ViewShape\<close>: the well-formedness of the computed view (\<open>view_wf\<close>), the React
    keys of the row fragments and cells (\<open>row_keys\<close>, \<open>cell_keys\<close>) and the legend.
  \<^item> \<open>CalendarPage\<close>: the mounted \<open>ProjectCalendar\<close> as one system whose state is
    the view, the scroller's width, the resize effect and the drag state
    (\<open>page\<close>, \<open>page_step\<close> over renders, window resizes, scroller resizes and pointer
    events). The components meet in \<open>relayout\<close>: the effect's cell size sets the
    grid's minimum width, which sets the range the drag handlers are clamped to.
    Lemmas: the page invariant \<open>page_inv\<close> (one listener, for the current month count;
    the scroll range is the current grid's; the offset lies in it), the well-formedness
    of every reachable page (the cell size is always the ideal size for the current
    month count at some width), the layout promise restored by every window resize, and
    a run in which a scroller resize without a window event leaves a stale cell size.
  \<^item> This theory: properties of the whole timeline pipeline (C1, C9, C15) and of the
    client and server together (C29, C30, C40).

  \<^emph>\<open>Modelling choices.\<close> Dates are timestamps on a uniform local time line (no
  time zones, no daylight-saving shifts); date strings of the API are taken as parsed,
  and every falsy field (\<open>null\<close>, \<open>undefined\<close>, \<open>""\<close>) is \<open>None\<close>. The two clock
  readings \<open>new Date()\<close> of the rows memo and of the span memo are the parameters
  \<open>today\<close> and \<open>now\<close>. \<open>Math.round (a / b)\<close> is exact here: the operands are small
  integers, so the floating-point quotient never crosses a half. Loops: the month loop
  is a terminating \<open>function\<close>; every other loop of the source is a \<open>map\<close>,
  \<open>fold\<close> or \<open>forEach\<close> over a finite list.

  \<^emph>\<open>Plan.\<close> Modelled: every file under src/; of the markup, the grid's children,
  spans and keys, the legend and the dialog's rendered form. Open: a model of the
  weekly-progress endpoint the dialog calls (it is not in these sources), and writes to
  tasks or projects by other endpoints racing with the evidence handler (none is in
  these sources; the concurrent model keeps tasks and projects fixed).

  \<^emph>\<open>Bounds and fuel.\<close> No fuel is used. The month loop is a terminating
  \<open>function\<close>, and \<open>months_loop_bound\<close> bounds its iterations by the span in
  28-day steps. A handler of the concurrent server passes at most four \<open>await\<close>s,
  so four resumptions of it answer it (\<open>request_answered\<close>, by the rank
  \<open>phase_rank\<close> that every resumption lowers). The date round trip is stated for the years 0 to 9999, the ones the
  date input writes with four digits.

  Server side: \<open>new Date(tanggal)\<close> is a parameter \<open>parse_date\<close> (\<open>None\<close> for an
  Invalid Date, which Prisma refuses), the request time is \<open>now\<close>, the file name
  multer chooses is \<open>upload_name\<close>, and Express path matching is taken as
  case-sensitive. A handler of the application outside these sources
  (\<open>AppHandler\<close>) answers 200 without touching the store.

  \<^emph>\<open>Not modelled.\<close> React rendering itself (memoisation, reconciliation), the DOM
  and CSS beyond the grid's track arithmetic, Clerk's token validation (only its result,
  the user id or none, enters the model), Prisma's ids and relations beyond the store,
  multer's file naming and limits, Inngest, \<open>app.listen\<close>, and the commented-out
  \<open>getTaskEvidences\<close> and the commented-out calls of the route and the dialog (dead
  code: no behaviour of the program to model). What remains unmapped of the sources is
  imports, exports, comments and closing brackets; every statement of the five files is
  translated by some definition.
\<close>

text \<open>
  C1: every task row of positive duration is drawn: it fills at least one cell of the
  grid, and the cells it fills form one contiguous run of columns.
\<close>

theorem every_row_drawn:
  assumes v: "v = calendar_view today now proj tasks"
    and r: "r \<in> set (view_rows v)" and pos: "row_start r < row_end r"
  shows "(\<exists>i < length (view_columns v). overlaps r (view_columns v ! i)) \<and>
         (\<forall>i j k. i \<le> j \<longrightarrow> j \<le> k \<longrightarrow> k < length (view_columns v) \<longrightarrow>
            overlaps r (view_columns v ! i) \<longrightarrow> overlaps r (view_columns v ! k) \<longrightarrow>
            overlaps r (view_columns v ! j))"
proof -
  define rows where "rows = build_rows today proj tasks"
  define tml where "tml = timeline_range now rows"
  define n where "n = length (months_all tml)"
  have cols: "view_columns v = columns_all (timeline_start tml) (total_days tml) n"
    using v by (simp add: calendar_view_fields rows_def tml_def n_def)
  have rin: "r \<in> set rows" using r v by (simp add: calendar_view_fields rows_def)
  have inside: "add_days (timeline_start tml) 7 \<le> row_start r"
               "add_days (row_end r) 7 \<le> timeline_end tml"
    using rows_inside_timeline[OF rin, of now] by (simp_all add: tml_def)
  have T: "1 \<le> total_days tml" by (simp add: tml_def total_days_pos)
  have ts: "timeline_start tml \<le> row_start r"
    using inside(1) by (simp add: add_days_def ms_per_day_def)
  have "timeline_start tml \<le> timeline_end tml"
    using ts pos inside(2) by (simp add: add_days_def ms_per_day_def)
  then have n0: "0 < n" using months_all_nonempty[of tml] by (simp add: n_def)
  have "day_of (row_start r) \<le> day_of (row_end r)" using pos by (simp add: day_of_mono)
  moreover have "day_of (row_end r) + 7 \<le> day_of (timeline_end tml)"
    using day_of_mono[OF inside(2)] by (simp add: day_of_add_days)
  moreover have "day_of (timeline_end tml) - day_of (timeline_start tml) \<le> total_days tml"
    using total_days_covers_span[of now rows] by (simp add: tml_def difference_in_calendar_days_def)
  ultimately have "day_of (row_start r) < day_of (add_days (timeline_start tml) (total_days tml))"
    by (simp add: day_of_add_days)
  then have te: "row_start r < add_days (timeline_start tml) (total_days tml)"
    by (rule day_of_less_imp_less)
  have ex: "\<exists>i < n * 4. overlaps r (columns_all (timeline_start tml) (total_days tml) n ! i)"
    using row_fills_some_cell[OF n0 pos] columns_first_last[OF n0] ts te by simp
  have run: "\<forall>i j k. i \<le> j \<longrightarrow> j \<le> k \<longrightarrow> k < n * 4 \<longrightarrow>
      overlaps r (columns_all (timeline_start tml) (total_days tml) n ! i) \<longrightarrow>
      overlaps r (columns_all (timeline_start tml) (total_days tml) n ! k) \<longrightarrow>
      overlaps r (columns_all (timeline_start tml) (total_days tml) n ! j)"
    using filled_cells_contiguous[of "total_days tml"] T by auto
  from ex run show ?thesis unfolding cols by simp
qed

lemma every_row_drawn_witness:
  "\<exists>i < length (view_columns (calendar_view 0 0 None
          [\<lparr>task_id = ''1'', title = Some ''Survey'', due_date = Some 864000000,
            created_at = Some 0, task_status = ''TODO''\<rparr>])).
     overlaps (build_row 0 None \<lparr>task_id = ''1'', title = Some ''Survey'', due_date = Some 864000000,
                                   created_at = Some 0, task_status = ''TODO''\<rparr>)
              (view_columns (calendar_view 0 0 None
                 [\<lparr>task_id = ''1'', title = Some ''Survey'', due_date = Some 864000000,
                   created_at = Some 0, task_status = ''TODO''\<rparr>]) ! i)"
proof -
  let ?t = "\<lparr>task_id = ''1'', title = Some ''Survey'', due_date = Some (864000000::int),
             created_at = Some 0, task_status = ''TODO''\<rparr>"
  have r: "build_row 0 None ?t \<in> set (view_rows (calendar_view 0 0 None [?t]))"
    by (simp add: calendar_view_fields build_rows_def max_rows_def)
  have pos: "row_start (build_row 0 None ?t) < row_end (build_row 0 None ?t)"
    by (simp add: row_start_of_def)
  show ?thesis using every_row_drawn[OF refl r pos] by blast
qed

text \<open>
  C9: when the padded span is inverted, so that \<open>timelineEnd\<close> falls before the first
  day of the month of \<open>timelineStart\<close>, the month loop runs zero times and the grid has
  no column at all. This happens for real inputs: a project whose start date lies more
  than about two weeks after a task's due date (all rows then start at the project
  start and end at their due dates), as the witness shows.
\<close>

theorem no_columns_when_span_inverted:
  assumes "v = calendar_view today now proj tasks"
    and "timeline_end (view_timeline v) < start_of_month (timeline_start (view_timeline v))"
  shows "view_months v = [] \<and> view_columns v = []"
proof -
  have "view_months v = []"
    using assms by (simp add: calendar_view_fields months_all_def months_from.simps)
  then show ?thesis
    using assms(1) calendar_view_fields(4)[of today now proj tasks] by (simp add: columns_all_def)
qed

text \<open>A project starting on 2025-03-15 and a task due on 2025-02-01.\<close>

lemma no_columns_when_span_inverted_witness:
  "view_rows (calendar_view (20120 * 86400000) (20120 * 86400000)
        (Some \<lparr>start_date = Some (20162 * 86400000)\<rparr>)
        [\<lparr>task_id = ''1'', title = Some ''Survey'', due_date = Some (20120 * 86400000),
          created_at = None, task_status = ''TODO''\<rparr>]) \<noteq> [] \<and>
   view_columns (calendar_view (20120 * 86400000) (20120 * 86400000)
        (Some \<lparr>start_date = Some (20162 * 86400000)\<rparr>)
        [\<lparr>task_id = ''1'', title = Some ''Survey'', due_date = Some (20120 * 86400000),
          created_at = None, task_status = ''TODO''\<rparr>]) = []"
proof -
  let ?v = "calendar_view (20120 * 86400000) (20120 * 86400000)
        (Some \<lparr>start_date = Some (20162 * 86400000)\<rparr>)
        [\<lparr>task_id = ''1'', title = Some ''Survey'', due_date = Some (20120 * 86400000),
          created_at = None, task_status = ''TODO''\<rparr>]"
  have h: "timeline_end (view_timeline ?v) < start_of_month (timeline_start (view_timeline ?v))"
    by code_simp
  have "view_rows ?v \<noteq> []" by (simp add: calendar_view_fields build_rows_def max_rows_def)
  with no_columns_when_span_inverted[OF refl h] show ?thesis by simp
qed

text \<open>
  C15: with no tasks the grid shows the default one-week span from the clock reading,
  which touches one calendar month, or two when the week crosses a month boundary.
\<close>

theorem no_tasks_one_or_two_months:
  "view_rows (calendar_view today now proj []) = [] \<and>
   timeline_start (view_timeline (calendar_view today now proj [])) = now \<and>
   timeline_end (view_timeline (calendar_view today now proj [])) = add_days now 7 \<and>
   length (view_months (calendar_view today now proj [])) \<in> {1, 2}"
proof -
  have g: "month_index_of_day (day_of now) \<le> month_index_of_day (day_of now + 7) \<and>
           month_index_of_day (day_of now + 7) \<le> month_index_of_day (day_of now) + 1"
    by (rule month_index_short_gap) simp_all
  then show ?thesis
    by (auto simp: calendar_view_fields build_rows_def length_months_all day_of_add_days nat_eq_iff)
qed

text \<open>
  C29: as server.js is written, the evidence dialog cannot store anything: whatever the
  form holds and whoever is signed in, the weekly-progress request sent first gets
  Express's 404, the dialog shows the error toast \<open>Request failed with status code
  404\<close>, keeps its form open, never sends the upload, and the store is unchanged.
\<close>

theorem dialog_upload_never_stored:
  "handle_submit (server_api app_layers now parse_date uid upload_name) tid week_index (st, db) =
     (st\<lparr>is_submitting := False,
         sent := sent st @ [(''/api/weekly-progress'',
                             WeeklyProgressBody tid (week_index (f_tanggal (form_data st)))
                                                (f_tanggal (form_data st)))],
         toasts := toasts st @ [ToastError ''Request failed with status code 404'']\<rparr>, db)"
proof -
  have "dispatch app_layers POST ''/api/weekly-progress'' = None"
    by (simp add: app_layers_def route_matches_def prefix_matches_def)
  then show ?thesis
    by (simp add: handle_submit_def server_api_unrouted submit_failed_def error_message_def decimal_404
                  Let_def del: decimal.simps)
qed

text \<open>
  C30: the dialog and the controller agree on the form: on an application that routes
  \<open>POST /api/evidences\<close> to the evidence router and the weekly-progress request to
  some other handler, a submission by a member of the task's project appends exactly
  one evidence record, holding the task id, the user, the note as typed, the stored
  attachment's URL and the form's date (the request time when the date field is
  empty), and the dialog closes with its form reset and \<open>onSuccess\<close> called once.
\<close>

theorem member_submission_stored:
  assumes "dispatch layers POST ''/api/weekly-progress'' = Some h" and "h \<noteq> AddEvidence"
      and "dispatch layers POST ''/api/evidences'' = Some AddEvidence"
      and "db_tasks db tid = Some pid" and "db_projects db pid = Some ms"
      and "uid = Some u" and "u \<in> set ms"
      and "evidence_date now parse_date (Some (f_tanggal (form_data st))) = Some d"
  shows "handle_submit (server_api layers now parse_date uid upload_name) tid week_index (st, db) =
           (st', db') \<Longrightarrow>
         db_evidence db' = db_evidence db @
           [\<lparr>ev_task = tid, ev_user = u, ev_content = Some (f_keterangan (form_data st)),
             ev_image_url = image_url_of (map_option upload_name (f_attachment (form_data st))),
             ev_date = d\<rparr>] \<and>
         show_dialog st' = False \<and> form_data st' = empty_form \<and>
         success_calls st' = Suc (success_calls st)"
proof -
  let ?rq = "request_of_payload uid upload_name
               (EvidenceFormData (f_tanggal (form_data st)) (f_keterangan (form_data st)) tid
                                 (f_attachment (form_data st)))"
  have w: "server_api layers now parse_date uid upload_name db ''/api/weekly-progress'' p = (ApiOk None, db)" for p
    using assms(1,2) by (rule server_api_other_handler)
  have "find_member (multer_single db ?rq) pid (req_user ?rq) = Some u"
    using assms(5-7) by (simp add: find_member_Some_iff)
  then have "add_evidence now parse_date (multer_single db ?rq) ?rq =
          (Added \<lparr>ev_task = tid, ev_user = u, ev_content = Some (f_keterangan (form_data st)),
                  ev_image_url = image_url_of (map_option upload_name (f_attachment (form_data st))),
                  ev_date = d\<rparr>,
           (multer_single db ?rq)\<lparr>db_evidence := db_evidence db @
              [\<lparr>ev_task = tid, ev_user = u, ev_content = Some (f_keterangan (form_data st)),
                ev_image_url = image_url_of (map_option upload_name (f_attachment (form_data st))),
                ev_date = d\<rparr>]\<rparr>)"
    using assms(4,8) by (simp add: add_evidence_def Let_def)
  then show "handle_submit (server_api layers now parse_date uid upload_name) tid week_index (st, db) =
               (st', db') \<Longrightarrow> ?thesis"
    using assms(3) w by (auto simp: handle_submit_def server_api_def evidence_route_def Let_def)
qed
lemma member_submission_stored_witness:
  "db_evidence (snd (handle_submit
     (server_api (app_layers @ [UseRouter ''/api/evidences'' evidence_router,
                                Route POST ''/api/weekly-progress'' (AppHandler ''weeklyProgress'')])
                 7 (\<lambda>_. None) (Some ''u1'') (\<lambda>n. ''1700-'' @ n))
     ''t1'' (\<lambda>_. 0)
     (dialog_init\<lparr>show_dialog := True, form_data := \<lparr>f_tanggal = [], f_keterangan = ''ok'', f_attachment = Some ''a.png''\<rparr>\<rparr>,
      \<lparr>db_tasks = [''t1'' \<mapsto> ''p1''], db_projects = [''p1'' \<mapsto> [''u1'']], db_evidence = [], db_uploads = []\<rparr>)))
   = [\<lparr>ev_task = ''t1'', ev_user = ''u1'', ev_content = Some ''ok'',
       ev_image_url = ''/uploads/1700-a.png'', ev_date = 7\<rparr>]"
  using member_submission_stored[where
          layers = "app_layers @ [UseRouter ''/api/evidences'' evidence_router,
                                  Route POST ''/api/weekly-progress'' (AppHandler ''weeklyProgress'')]"
      and h = "AppHandler ''weeklyProgress''" and db = "\<lparr>db_tasks = [''t1'' \<mapsto> ''p1''], db_projects = [''p1'' \<mapsto> [''u1'']], db_evidence = [], db_uploads = []\<rparr>"
      and tid = "''t1''" and pid = "''p1''" and ms = "[''u1'']" and uid = "Some ''u1''" and u = "''u1''"
      and now = 7 and parse_date = "\<lambda>_. None" and d = 7 and upload_name = "\<lambda>n. ''1700-'' @ n"
      and week_index = "\<lambda>_. 0"
      and st = "dialog_init\<lparr>show_dialog := True, form_data := \<lparr>f_tanggal = [], f_keterangan = ''ok'', f_attachment = Some ''a.png''\<rparr>\<rparr>"]
  by (simp add: app_layers_def evidence_router_def route_matches_def prefix_matches_def
                strip_prefix_def evidence_date_def image_url_of_def prod_eq_iff)

text \<open>
  C40: on an application that routes the evidence endpoint, the controller's refusal
  reaches the user: a submission for an existing task by someone who is not a member of
  the task's project (or is signed out) stores no evidence, leaves the dialog open
  with the form as typed, and shows the controller's message \<open>You are not a member of
  this project\<close> as the error toast.
\<close>

theorem non_member_submission_rejected:
  assumes "dispatch layers POST ''/api/weekly-progress'' = Some h" and "h \<noteq> AddEvidence"
      and "dispatch layers POST ''/api/evidences'' = Some AddEvidence"
      and "db_tasks db tid = Some pid"
      and "\<forall>ms. db_projects db pid = Some ms \<longrightarrow> (\<forall>u. uid = Some u \<longrightarrow> u \<notin> set ms)"
  shows "handle_submit (server_api layers now parse_date uid upload_name) tid week_index (st, db) =
           (st', db') \<Longrightarrow>
         db_evidence db' = db_evidence db \<and> show_dialog st' = show_dialog st \<and>
         form_data st' = form_data st \<and>
         toasts st' = toasts st @ [ToastError ''You are not a member of this project'']"
proof -
  let ?rq = "request_of_payload uid upload_name
               (EvidenceFormData (f_tanggal (form_data st)) (f_keterangan (form_data st)) tid
                                 (f_attachment (form_data st)))"
  have w: "server_api layers now parse_date uid upload_name db ''/api/weekly-progress'' p = (ApiOk None, db)" for p
    using assms(1,2) by (rule server_api_other_handler)
  have "find_member (multer_single db ?rq) pid (req_user ?rq) = None"
    using assms(5) by (auto simp: find_member_None_iff)
  then have "add_evidence now parse_date (multer_single db ?rq) ?rq =
               (Forbidden ''You are not a member of this project'', multer_single db ?rq)"
    using assms(4) by (simp add: add_evidence_def)
  then show "handle_submit (server_api layers now parse_date uid upload_name) tid week_index (st, db) =
               (st', db') \<Longrightarrow> ?thesis"
    using assms(3) w
    by (auto simp: handle_submit_def server_api_def evidence_route_def Let_def submit_failed_def
                   error_message_def)
qed

lemma non_member_submission_rejected_witness:
  "toasts (fst (handle_submit
     (server_api (app_layers @ [UseRouter ''/api/evidences'' evidence_router,
                                Route POST ''/api/weekly-progress'' (AppHandler ''weeklyProgress'')])
                 7 (\<lambda>_. None) (Some ''mallory'') (\<lambda>n. n))
     ''t1'' (\<lambda>_. 0)
     (dialog_init\<lparr>show_dialog := True\<rparr>,
      \<lparr>db_tasks = [''t1'' \<mapsto> ''p1''], db_projects = [''p1'' \<mapsto> [''u1'']], db_evidence = [], db_uploads = []\<rparr>)))
   = [ToastError ''You are not a member of this project'']"
  using non_member_submission_rejected[where
          layers = "app_layers @ [UseRouter ''/api/evidences'' evidence_router,
                                  Route POST ''/api/weekly-progress'' (AppHandler ''weeklyProgress'')]"
      and h = "AppHandler ''weeklyProgress''"
      and db = "\<lparr>db_tasks = [''t1'' \<mapsto> ''p1''], db_projects = [''p1'' \<mapsto> [''u1'']], db_evidence = [], db_uploads = []\<rparr>"
      and tid = "''t1''" and pid = "''p1''" and uid = "Some ''mallory''"
      and now = 7 and parse_date = "\<lambda>_. None" and upload_name = "\<lambda>n. n"
      and week_index = "\<lambda>_. 0" and st = "dialog_init\<lparr>show_dialog := True\<rparr>"]
  by (simp add: app_layers_def evidence_router_def route_matches_def prefix_matches_def
                strip_prefix_def dialog_init_def prod_eq_iff)

end
